theory Spec2Isabelle
  imports Main "HOL-Library.AList" "HOL-Library.Multiset"
begin

section \<open>JavaScript values and JSON text\<close>

text \<open>
  The wallet protocol exchanges plain JavaScript objects that travel as JSON text.  The
  payload of a message is typed \<^verbatim>\<open>any\<close> in the sources, so values are modelled by a
  datatype of the JavaScript values that the protocol code can hold: \<^verbatim>\<open>undefined\<close>,
  \<^verbatim>\<open>null\<close>, booleans, integral numbers, strings, arrays and plain objects.  An object is
  the list of its own properties in the order of enumeration (\<open>property_order\<close>
  below).  Strings are lists of 8-bit characters, each standing for one code unit;
  numbers with a fraction or an exponent, \<^verbatim>\<open>NaN\<close> and code units above 255 are outside
  the model.
\<close>

datatype jsval =
    JUndefined
  | JNull
  | JBool bool
  | JNum int
  | JStr string
  | JArr "jsval list"
  | JObj "(string \<times> jsval) list"

abbreviation dquote :: char where "dquote \<equiv> CHR 0x22"
abbreviation bslash :: char where "bslash \<equiv> CHR 0x5C"

definition is_digit :: "char \<Rightarrow> bool" where
  "is_digit c = (48 \<le> (of_char c :: nat) \<and> (of_char c :: nat) \<le> 57)"

definition digit_val :: "char \<Rightarrow> nat" where
  "digit_val c = of_char c - 48"

definition digit_char :: "nat \<Rightarrow> char" where
  "digit_char d = char_of (48 + d)"

fun show_nat :: "nat \<Rightarrow> string" where
  "show_nat n = (if n < 10 then [digit_char n] else show_nat (n div 10) @ [digit_char (n mod 10)])"

declare show_nat.simps [simp del]

definition show_int :: "int \<Rightarrow> string" where
  "show_int i = (if i < 0 then CHR ''-'' # show_nat (nat (- i)) else show_nat (nat i))"

definition hex_digit :: "nat \<Rightarrow> char" where
  "hex_digit d = ''0123456789abcdef'' ! d"

definition hex_val :: "char \<Rightarrow> nat option" where
  "hex_val c = (let n = (of_char c :: nat) in
     if 48 \<le> n \<and> n \<le> 57 then Some (n - 48)
     else if 97 \<le> n \<and> n \<le> 102 then Some (n - 87)
     else if 65 \<le> n \<and> n \<le> 70 then Some (n - 55)
     else None)"

definition escape_char :: "char \<Rightarrow> string" where
  "escape_char c =
    (if c = dquote then [bslash, dquote]
     else if c = bslash then [bslash, bslash]
     else if c = CHR 0x08 then [bslash, CHR ''b'']
     else if c = CHR 0x0C then [bslash, CHR ''f'']
     else if c = CHR 0x0A then [bslash, CHR ''n'']
     else if c = CHR 0x0D then [bslash, CHR ''r'']
     else if c = CHR 0x09 then [bslash, CHR ''t'']
     else if (of_char c :: nat) < 32 then
       [bslash, CHR ''u'', CHR ''0'', CHR ''0'', hex_digit (of_char c div 16), hex_digit (of_char c mod 16)]
     else [c])"

definition quote_json :: "string \<Rightarrow> string" where
  "quote_json s = dquote # concat (map escape_char s) @ [dquote]"

function (sequential) json_text :: "jsval \<Rightarrow> string"
and json_elements :: "jsval list \<Rightarrow> string"
and json_members :: "(string \<times> jsval) list \<Rightarrow> string" where
  "json_text JUndefined = ''null''"
| "json_text JNull = ''null''"
| "json_text (JBool b) = (if b then ''true'' else ''false'')"
| "json_text (JNum n) = show_int n"
| "json_text (JStr s) = quote_json s"
| "json_text (JArr vs) = ''['' @ json_elements vs @ '']''"
| "json_text (JObj kvs) = ''{'' @ json_members (filter (\<lambda>kv. snd kv \<noteq> JUndefined) kvs) @ ''}''"
| "json_elements [] = []"
| "json_elements [v] = json_text v"
| "json_elements (v # w # vs) = json_text v @ '','' @ json_elements (w # vs)"
| "json_members [] = []"
| "json_members [(k, v)] = quote_json k @ '':'' @ json_text v"
| "json_members ((k, v) # kv # kvs) = quote_json k @ '':'' @ json_text v @ '','' @ json_members (kv # kvs)"
  by pat_completeness auto
termination
proof -
  have le: "size_list f (filter P xs) \<le> size_list f xs"
    for f :: "(string \<times> jsval) \<Rightarrow> nat" and P xs
    by (induction xs) auto
  show ?thesis
    by (relation "measure (\<lambda>x. case x of
          Inl v \<Rightarrow> 2 * size v
        | Inr (Inl vs) \<Rightarrow> 2 * size_list size vs + 1
        | Inr (Inr kvs) \<Rightarrow> 2 * size_list (size_prod (\<lambda>x. 0) size) kvs + 1)")
       (auto simp: le_imp_less_Suc le)
qed

definition JSON_stringify :: "jsval \<Rightarrow> string" where
  "JSON_stringify v = json_text v"

text \<open>
  Exceptions of the platform.  \<open>NotModelled\<close> is no exception: it marks an input on
  which the behaviour of the platform lies outside this model (a number with a
  fraction, a sort whose comparison yields \<^verbatim>\<open>NaN\<close>, the identity of objects, the text of
  an object in a string concatenation), and nothing is claimed about it.
  \<open>DOMException\<close> is what the audio platform throws.
\<close>

datatype js_error = SyntaxError | TypeError | DOMException | NotModelled

text \<open>
  \<^verbatim>\<open>JSON.parse\<close> of the platform: a recursive-descent reader of the JSON grammar with
  optional white space between tokens.  The result \<open>Inl SyntaxError\<close> is the exception
  of the platform.  The result is \<open>Inl NotModelled\<close> where the reader meets, before any
  syntax error, something that the platform accepts and \<open>jsval\<close> cannot hold: a
  number with a fraction or an exponent, an integer beyond the safe integers (the
  platform rounds it), minus zero, or the escape of a code unit above 255.
\<close>

definition is_ws :: "char \<Rightarrow> bool" where
  "is_ws c = (c = CHR '' '' \<or> c = CHR 0x09 \<or> c = CHR 0x0A \<or> c = CHR 0x0D)"

definition skip_ws :: "string \<Rightarrow> string" where
  "skip_ws s = dropWhile is_ws s"

definition strip_prefix :: "string \<Rightarrow> string \<Rightarrow> string option" where
  "strip_prefix p s = (if take (length p) s = p then Some (drop (length p) s) else None)"

definition expect_char :: "char \<Rightarrow> string \<Rightarrow> string option" where
  "expect_char c s = (case skip_ws s of [] \<Rightarrow> None | d # r \<Rightarrow> if d = c then Some r else None)"

fun parse_digits :: "int \<Rightarrow> string \<Rightarrow> int \<times> string" where
  "parse_digits acc [] = (acc, [])"
| "parse_digits acc (c # cs) =
     (if is_digit c then parse_digits (acc * 10 + int (digit_val c)) cs else (acc, c # cs))"

text \<open>The integer part of a number: \<^verbatim>\<open>0\<close>, or digits that do not start with \<^verbatim>\<open>0\<close>.\<close>

definition parse_nat_lit :: "string \<Rightarrow> (int \<times> string) option" where
  "parse_nat_lit s = (case s of
       [] \<Rightarrow> None
     | c # cs \<Rightarrow> if c = CHR ''0'' then Some (0, cs)
                else if is_digit c then Some (parse_digits 0 s)
                else None)"

definition parse_number :: "string \<Rightarrow> js_error + (jsval \<times> string)" where
  "parse_number s =
     (case (case s of
              [] \<Rightarrow> None
            | c # cs \<Rightarrow> if c = CHR ''-''
                       then map_option (\<lambda>(n, r). (- n, r)) (parse_nat_lit cs)
                       else parse_nat_lit s) of
        None \<Rightarrow> Inl SyntaxError
      | Some (i, r) \<Rightarrow>
          if (case r of [] \<Rightarrow> False | d # _ \<Rightarrow> d = CHR ''.'' \<or> d = CHR ''e'' \<or> d = CHR ''E'')
          then Inl NotModelled
          else if 9007199254740991 < \<bar>i\<bar> then Inl NotModelled
          else if i = 0 \<and> hd s = CHR ''-'' then Inl NotModelled
          else Inr (JNum i, r))"

definition unescape :: "char \<Rightarrow> char option" where
  "unescape e =
     (if e = dquote then Some dquote
      else if e = bslash then Some bslash
      else if e = CHR ''/'' then Some (CHR ''/'')
      else if e = CHR ''b'' then Some (CHR 0x08)
      else if e = CHR ''f'' then Some (CHR 0x0C)
      else if e = CHR ''n'' then Some (CHR 0x0A)
      else if e = CHR ''r'' then Some (CHR 0x0D)
      else if e = CHR ''t'' then Some (CHR 0x09)
      else None)"

definition hex4 :: "char \<Rightarrow> char \<Rightarrow> char \<Rightarrow> char \<Rightarrow> nat option" where
  "hex4 a b c d =
     (case (hex_val a, hex_val b, hex_val c, hex_val d) of
        (Some w, Some x, Some y, Some z) \<Rightarrow> Some (((w * 16 + x) * 16 + y) * 16 + z)
      | _ \<Rightarrow> None)"

definition cons_char :: "char \<Rightarrow> js_error + (string \<times> string) \<Rightarrow> js_error + (string \<times> string)" where
  "cons_char c res = (case res of Inl e \<Rightarrow> Inl e | Inr (s, r) \<Rightarrow> Inr (c # s, r))"

text \<open>The characters of a string literal after the opening quote, and the rest of the text.\<close>

fun parse_chars :: "string \<Rightarrow> js_error + (string \<times> string)" where
  "parse_chars [] = Inl SyntaxError"
| "parse_chars (c # cs) =
     (if c = dquote then Inr ([], cs)
      else if c = bslash then
        (case cs of
           [] \<Rightarrow> Inl SyntaxError
         | e # cs1 \<Rightarrow>
             if e = CHR ''u'' then
               (case cs1 of
                  h1 # h2 # h3 # h4 # cs2 \<Rightarrow>
                    (case hex4 h1 h2 h3 h4 of
                       None \<Rightarrow> Inl SyntaxError
                     | Some n \<Rightarrow> if n < 256 then cons_char (char_of n) (parse_chars cs2)
                                else Inl NotModelled)
                | _ \<Rightarrow> Inl SyntaxError)
             else (case unescape e of
                     None \<Rightarrow> Inl SyntaxError
                   | Some d \<Rightarrow> cons_char d (parse_chars cs1)))
      else if (of_char c :: nat) < 32 then Inl SyntaxError
      else cons_char c (parse_chars cs))"

text \<open>
  The order in which the platform enumerates the own properties of an object: the
  array indices (the decimal texts of the integers from 0 to \<^verbatim>\<open>2^32 - 2\<close>) in ascending
  order, then the other names in the order of their creation.  \<open>property_order\<close> puts
  a list of properties into this order.
\<close>

definition index_val :: "string \<Rightarrow> int" where
  "index_val k = foldl (\<lambda>a c. a * 10 + int (digit_val c)) 0 k"

definition index_key :: "string \<Rightarrow> bool" where
  "index_key k = (k \<noteq> [] \<and> list_all is_digit k \<and> (k = ''0'' \<or> hd k \<noteq> CHR ''0'')
                  \<and> index_val k < 4294967295)"

definition property_order :: "(string \<times> 'a) list \<Rightarrow> (string \<times> 'a) list" where
  "property_order kvs =
     sort_key (\<lambda>kv. index_val (fst kv)) (filter (\<lambda>kv. index_key (fst kv)) kvs)
       @ filter (\<lambda>kv. \<not> index_key (fst kv)) kvs"

text \<open>
  The object that \<^verbatim>\<open>JSON.parse\<close> builds from the members of an object text: a name
  that occurs twice keeps the place of its first occurrence and the value of its last.
\<close>

definition obj_of_members :: "(string \<times> jsval) list \<Rightarrow> (string \<times> jsval) list" where
  "obj_of_members kvs =
     property_order (fold (\<lambda>kv acc. AList.update (fst kv) (snd kv) acc) kvs [])"

text \<open>
  The three mutually recursive readers.  Their first argument bounds the nesting of
  calls; \<open>JSON_parse\<close> starts them with more than the length of the text, and every
  call consumes a character.  What a reader would do with the bound used up is not
  modelled.
\<close>

fun parse_value :: "nat \<Rightarrow> string \<Rightarrow> js_error + (jsval \<times> string)"
and parse_elems :: "nat \<Rightarrow> string \<Rightarrow> js_error + (jsval list \<times> string)"
and parse_membs :: "nat \<Rightarrow> string \<Rightarrow> js_error + ((string \<times> jsval) list \<times> string)" where
  "parse_value 0 s = Inl NotModelled"
| "parse_value (Suc n) s =
     (case skip_ws s of
        [] \<Rightarrow> Inl SyntaxError
      | c # cs \<Rightarrow>
          if c = CHR ''n'' then
            (case strip_prefix ''ull'' cs of None \<Rightarrow> Inl SyntaxError | Some r \<Rightarrow> Inr (JNull, r))
          else if c = CHR ''t'' then
            (case strip_prefix ''rue'' cs of None \<Rightarrow> Inl SyntaxError | Some r \<Rightarrow> Inr (JBool True, r))
          else if c = CHR ''f'' then
            (case strip_prefix ''alse'' cs of None \<Rightarrow> Inl SyntaxError | Some r \<Rightarrow> Inr (JBool False, r))
          else if c = dquote then
            (case parse_chars cs of Inl e \<Rightarrow> Inl e | Inr (str, r) \<Rightarrow> Inr (JStr str, r))
          else if c = CHR ''['' then
            (case expect_char (CHR '']'') cs of
               Some r \<Rightarrow> Inr (JArr [], r)
             | None \<Rightarrow> (case parse_elems n cs of Inl e \<Rightarrow> Inl e | Inr (vs, r) \<Rightarrow> Inr (JArr vs, r)))
          else if c = CHR ''{'' then
            (case expect_char (CHR ''}'') cs of
               Some r \<Rightarrow> Inr (JObj [], r)
             | None \<Rightarrow> (case parse_membs n cs of
                          Inl e \<Rightarrow> Inl e
                        | Inr (kvs, r) \<Rightarrow> Inr (JObj (obj_of_members kvs), r)))
          else parse_number (c # cs))"
| "parse_elems 0 s = Inl NotModelled"
| "parse_elems (Suc n) s =
     (case parse_value n s of
        Inl e \<Rightarrow> Inl e
      | Inr (v, r) \<Rightarrow>
          (case expect_char (CHR '','') r of
             Some r1 \<Rightarrow> (case parse_elems n r1 of Inl e \<Rightarrow> Inl e | Inr (vs, r2) \<Rightarrow> Inr (v # vs, r2))
           | None \<Rightarrow> (case expect_char (CHR '']'') r of
                        None \<Rightarrow> Inl SyntaxError
                      | Some r1 \<Rightarrow> Inr ([v], r1))))"
| "parse_membs 0 s = Inl NotModelled"
| "parse_membs (Suc n) s =
     (case expect_char dquote s of
        None \<Rightarrow> Inl SyntaxError
      | Some cs \<Rightarrow>
          (case parse_chars cs of
             Inl e \<Rightarrow> Inl e
           | Inr (k, r) \<Rightarrow>
               (case expect_char (CHR '':'') r of
                  None \<Rightarrow> Inl SyntaxError
                | Some r1 \<Rightarrow>
                    (case parse_value n r1 of
                       Inl e \<Rightarrow> Inl e
                     | Inr (v, r2) \<Rightarrow>
                         (case expect_char (CHR '','') r2 of
                            Some r3 \<Rightarrow> (case parse_membs n r3 of
                                          Inl e \<Rightarrow> Inl e
                                        | Inr (kvs, r4) \<Rightarrow> Inr ((k, v) # kvs, r4))
                          | None \<Rightarrow> (case expect_char (CHR ''}'') r2 of
                                       None \<Rightarrow> Inl SyntaxError
                                     | Some r3 \<Rightarrow> Inr ([(k, v)], r3)))))))"

definition JSON_parse :: "string \<Rightarrow> js_error + jsval" where
  "JSON_parse s =
     (case parse_value (Suc (length s)) s of
        Inl e \<Rightarrow> Inl e
      | Inr (v, r) \<Rightarrow> if skip_ws r = [] then Inr v else Inl SyntaxError)"

text \<open>
  The values that JSON text represents exactly: no \<^verbatim>\<open>undefined\<close> anywhere, objects
  whose properties have distinct names and stand in the order of enumeration, and
  numbers within the safe integers (magnitude at most \<^verbatim>\<open>2^53 - 1\<close>), which the platform
  prints in plain decimal.
\<close>

fun json_value :: "jsval \<Rightarrow> bool" where
  "json_value JUndefined = False"
| "json_value JNull = True"
| "json_value (JBool b) = True"
| "json_value (JNum n) = (\<bar>n\<bar> \<le> 9007199254740991)"
| "json_value (JStr s) = True"
| "json_value (JArr vs) = list_all json_value vs"
| "json_value (JObj kvs) = (distinct (map fst kvs) \<and> property_order kvs = kvs
                            \<and> list_all (\<lambda>kv. json_value (snd kv)) kvs)"

definition truthy :: "jsval \<Rightarrow> bool" where
  "truthy v = (case v of
       JUndefined \<Rightarrow> False
     | JNull \<Rightarrow> False
     | JBool b \<Rightarrow> b
     | JNum n \<Rightarrow> n \<noteq> 0
     | JStr s \<Rightarrow> s \<noteq> []
     | JArr vs \<Rightarrow> True
     | JObj kvs \<Rightarrow> True)"

definition nullish :: "jsval \<Rightarrow> bool" where
  "nullish v = (v = JUndefined \<or> v = JNull)"

text \<open>
  Reading a property \<^verbatim>\<open>v.k\<close>.  On \<^verbatim>\<open>undefined\<close> and \<^verbatim>\<open>null\<close> the
  platform throws a \<^verbatim>\<open>TypeError\<close>: each function below that reads a property tests
  \<open>nullish\<close> first and returns the error.  None of the property names read by the
  protocol code is a built-in property of strings or arrays.
\<close>

fun get_prop :: "jsval \<Rightarrow> string \<Rightarrow> jsval" where
  "get_prop (JObj kvs) k = (case map_of kvs k of Some v \<Rightarrow> v | None \<Rightarrow> JUndefined)"
| "get_prop v k = JUndefined"

section \<open>Messages of the wallet protocol (message-protocol)\<close>

text \<open>
  Class \<^verbatim>\<open>Message\<close>.  The fields are declared \<^verbatim>\<open>string\<close> (payload:
  \<^verbatim>\<open>any\<close>), but \<^verbatim>\<open>fromJSON\<close> stores whatever the parsed text holds, so every
  field is a JavaScript value.  Field \<^verbatim>\<open>id\<close> is named \<open>msg_id\<close> here.
\<close>

record Message =
  version :: jsval
  type :: jsval
  payload :: jsval
  msg_id :: jsval

text \<open>
  The constructor: \<^verbatim>\<open>this.id = id || uuidv4()\<close>.  The last argument is the string
  that \<^verbatim>\<open>uuidv4()\<close> returns when it is called.
\<close>

definition new_Message :: "jsval \<Rightarrow> jsval \<Rightarrow> jsval \<Rightarrow> jsval \<Rightarrow> string \<Rightarrow> Message" where
  "new_Message v t p i uuid =
     \<lparr>version = v, type = t, payload = p, msg_id = (if truthy i then i else JStr uuid)\<rparr>"

definition toJSON :: "Message \<Rightarrow> string" where
  "toJSON m = JSON_stringify (JObj [(''version'', version m), (''type'', type m),
                                    (''payload'', payload m), (''id'', msg_id m)])"

text \<open>
  \<^verbatim>\<open>Message.fromJSON\<close>: \<^verbatim>\<open>JSON.parse\<close> throws on malformed text, and reading
  \<^verbatim>\<open>data.version\<close> throws when the text is \<^verbatim>\<open>null\<close>.
\<close>

definition fromJSON :: "string \<Rightarrow> string \<Rightarrow> js_error + Message" where
  "fromJSON uuid jsonStr =
     (case JSON_parse jsonStr of
        Inl e \<Rightarrow> Inl e
      | Inr data \<Rightarrow>
          if nullish data then Inl TypeError
          else Inr (new_Message (get_prop data ''version'') (get_prop data ''type'')
                      (get_prop data ''payload'') (get_prop data ''id'') uuid))"

text \<open>
  A message whose four fields are JSON values and whose id is not falsy.  Every
  message that the constructor builds from strings and a JSON payload is one
  (\<open>new_Message_wire_safe\<close> below).
\<close>

definition wire_safe :: "Message \<Rightarrow> bool" where
  "wire_safe m = (json_value (version m) \<and> json_value (type m) \<and> json_value (payload m)
                  \<and> json_value (msg_id m) \<and> truthy (msg_id m))"

section \<open>Configuration (audio-config)\<close>

record timeouts_config =
  messageWait :: nat
  connectResponse :: nat
  transactionResponse :: nat
  transactionConfirmation :: nat
  cryptoUtilsTransaction :: nat

record buffers_config =
  scriptProcessorSize :: nat
  fftSize :: nat
  sampleRate :: nat

record ggwave_config =
  soundMarkerThreshold :: nat
  volumeLevel :: nat
  protocol :: nat

record chunking_config =
  maxMessageSize :: nat
  chunkSize :: nat
  enabled :: bool

record AudioConfig =
  timeouts :: timeouts_config
  buffers :: buffers_config
  ggwave :: ggwave_config
  chunking :: chunking_config

definition DEFAULT_AUDIO_CONFIG :: AudioConfig where
  "DEFAULT_AUDIO_CONFIG =
     \<lparr>timeouts = \<lparr>messageWait = 60000, connectResponse = 45000, transactionResponse = 120000,
                   transactionConfirmation = 60000, cryptoUtilsTransaction = 300000\<rparr>,
      buffers = \<lparr>scriptProcessorSize = 4096, fftSize = 4096, sampleRate = 48000\<rparr>,
      ggwave = \<lparr>soundMarkerThreshold = 4, volumeLevel = 15, protocol = 1\<rparr>,
      chunking = \<lparr>maxMessageSize = 8192, chunkSize = 2048, enabled = True\<rparr>\<rparr>"

definition EIP_AUDIO_CONFIG :: AudioConfig where
  "EIP_AUDIO_CONFIG =
     \<lparr>timeouts = \<lparr>messageWait = 10000, connectResponse = 10000, transactionResponse = 30000,
                   transactionConfirmation = 60000, cryptoUtilsTransaction = 300000\<rparr>,
      buffers = \<lparr>scriptProcessorSize = 4096, fftSize = 4096, sampleRate = 44100\<rparr>,
      ggwave = \<lparr>soundMarkerThreshold = 4, volumeLevel = 15, protocol = 1\<rparr>,
      chunking = \<lparr>maxMessageSize = 4096, chunkSize = 1024, enabled = True\<rparr>\<rparr>"

definition shouldChunkMessage :: "nat \<Rightarrow> AudioConfig \<Rightarrow> bool" where
  "shouldChunkMessage messageLength config =
     (enabled (chunking config) \<and> messageLength > maxMessageSize (chunking config))"

section \<open>Chunking and reassembly (MessageProtocol)\<close>

definition PROTOCOL_VERSION :: string where
  "PROTOCOL_VERSION = ''1.0''"

text \<open>
  \<^verbatim>\<open>String.prototype.substring(start, end)\<close> for natural numbers: both bounds are
  clamped to the length and swapped when \<open>start\<close> exceeds \<open>end\<close>.
\<close>

definition substring :: "string \<Rightarrow> nat \<Rightarrow> nat \<Rightarrow> string" where
  "substring s start finish =
     (let a = min start (length s); b = min finish (length s)
      in take (max a b - min a b) (drop (min a b) s))"

text \<open>
  \<^verbatim>\<open>MessageProtocol.createChunk\<close>: a fresh message of type \<^verbatim>\<open>chunk\<close>; the constructor
  is called without an id, so the id of the chunk is the \<^verbatim>\<open>uuidv4()\<close> drawn for it.
\<close>

definition createChunk :: "jsval \<Rightarrow> nat \<Rightarrow> nat \<Rightarrow> string \<Rightarrow> jsval \<Rightarrow> string \<Rightarrow> Message" where
  "createChunk originalMessageId chunkIndex totalChunks chunkData originalType uuid =
     new_Message (JStr PROTOCOL_VERSION) (JStr ''chunk'')
       (JObj [(''originalMessageId'', originalMessageId),
              (''chunkIndex'', JNum (int chunkIndex)),
              (''totalChunks'', JNum (int totalChunks)),
              (''chunkData'', JStr chunkData),
              (''originalType'', originalType)])
       JUndefined uuid"

text \<open>
  The loop of \<^verbatim>\<open>chunkMessage\<close>:
  \<^verbatim>\<open>for (let i = 0; i < messageJson.length; i += chunkSize) chunks.push(messageJson.substring(i, i + chunkSize))\<close>.
  With chunk size 0 it never ends; not returning is the value \<open>None\<close>.  The chunk
  size is a natural number here.
\<close>

partial_function (option) chunk_loop :: "string \<Rightarrow> nat \<Rightarrow> nat \<Rightarrow> string list \<Rightarrow> string list option" where
  "chunk_loop messageJson chunk_size i chunks =
     (if i < length messageJson
      then chunk_loop messageJson chunk_size (i + chunk_size)
             (chunks @ [substring messageJson i (i + chunk_size)])
      else Some chunks)"

declare chunk_loop.simps [code]

text \<open>
  \<^verbatim>\<open>MessageProtocol.chunkMessage\<close>.  \<open>uuids index\<close> is the \<^verbatim>\<open>uuidv4()\<close> drawn for the
  chunk at \<open>index\<close>.
\<close>

definition chunkMessage :: "Message \<Rightarrow> nat \<Rightarrow> (nat \<Rightarrow> string) \<Rightarrow> Message list option" where
  "chunkMessage message chunk_size uuids =
     (case chunk_loop (toJSON message) chunk_size 0 [] of
        None \<Rightarrow> None
      | Some chunks \<Rightarrow>
          Some (map (\<lambda>(index, chunkData).
                   createChunk (msg_id message) index (length chunks) chunkData (type message) (uuids index))
                 (enumerate 0 chunks)))"

text \<open>The fields that the receiver reads from the payload of a chunk.\<close>

definition originalMessageId :: "Message \<Rightarrow> jsval" where
  "originalMessageId chunk = get_prop (payload chunk) ''originalMessageId''"

definition chunkIndex :: "Message \<Rightarrow> jsval" where
  "chunkIndex chunk = get_prop (payload chunk) ''chunkIndex''"

definition totalChunks :: "Message \<Rightarrow> jsval" where
  "totalChunks chunk = get_prop (payload chunk) ''totalChunks''"

definition chunkData :: "Message \<Rightarrow> jsval" where
  "chunkData chunk = get_prop (payload chunk) ''chunkData''"

fun is_number :: "jsval \<Rightarrow> bool" where
  "is_number (JNum n) = True"
| "is_number v = False"

fun number_of :: "jsval \<Rightarrow> int" where
  "number_of (JNum n) = n"
| "number_of v = 0"

fun primitive :: "jsval \<Rightarrow> bool" where
  "primitive (JArr vs) = False"
| "primitive (JObj kvs) = False"
| "primitive v = True"

text \<open>
  The text that \<^verbatim>\<open>Array.prototype.join\<close> uses for a primitive element:
  \<^verbatim>\<open>undefined\<close> and \<^verbatim>\<open>null\<close> give the empty string.
\<close>

fun join_text :: "jsval \<Rightarrow> string" where
  "join_text (JStr s) = s"
| "join_text (JNum n) = show_int n"
| "join_text (JBool b) = (if b then ''true'' else ''false'')"
| "join_text v = []"

text \<open>
  The chunks on which the model follows the platform: a numeric \<^verbatim>\<open>chunkIndex\<close> (the
  comparison function of the sort subtracts the indices), and primitive
  \<^verbatim>\<open>originalMessageId\<close> and \<^verbatim>\<open>chunkData\<close> (so \<^verbatim>\<open>===\<close> is equality of values and
  \<^verbatim>\<open>join\<close> uses \<open>join_text\<close>).
\<close>

definition modelled_chunk :: "Message \<Rightarrow> bool" where
  "modelled_chunk chunk =
     (is_number (chunkIndex chunk) \<and> primitive (originalMessageId chunk)
      \<and> primitive (chunkData chunk))"

text \<open>
  \<^verbatim>\<open>MessageProtocol.reassembleChunks\<close>.  \<open>Inr None\<close> is the result \<^verbatim>\<open>null\<close>.  The
  sort is stable, as \<^verbatim>\<open>Array.prototype.sort\<close> is.  A chunk whose payload is
  \<^verbatim>\<open>undefined\<close> or \<^verbatim>\<open>null\<close> makes the first read of a payload field throw.  What
  \<^verbatim>\<open>fromJSON\<close> throws is caught and gives \<^verbatim>\<open>null\<close>; a text outside the model stays
  outside.
\<close>

definition reassembleChunks :: "string \<Rightarrow> Message list \<Rightarrow> js_error + Message option" where
  "reassembleChunks uuid chunks =
     (if chunks = [] then Inr None
      else if list_ex (\<lambda>chunk. nullish (payload chunk)) chunks then Inl TypeError
      else if list_ex (\<lambda>chunk. \<not> modelled_chunk chunk) chunks then Inl NotModelled
      else
        (case sort_key (\<lambda>chunk. number_of (chunkIndex chunk)) chunks of
           [] \<Rightarrow> Inr None
         | first # others \<Rightarrow>
             if JNum (int (length (first # others))) \<noteq> totalChunks first then Inr None
             else if \<not> list_all (\<lambda>chunk. originalMessageId chunk = originalMessageId first)
                         (first # others)
             then Inr None
             else (case fromJSON uuid (concat (map (\<lambda>chunk. join_text (chunkData chunk)) (first # others))) of
                     Inl e \<Rightarrow> if e = NotModelled then Inl NotModelled else Inr None
                   | Inr m \<Rightarrow> Inr (Some m))))"

section \<open>Waiting for a message of a given type\<close>

text \<open>
  \<^verbatim>\<open>waitForMessage\<close> and \<^verbatim>\<open>waitForEIPMessage\<close> have the same body: a promise, a listener
  \<^verbatim>\<open>messageHandler\<close> registered on the message event, and a timeout.  The part of the
  event emitter and of the timer queue that they use is the following state.  A promise
  is named by a number; \<open>handlers\<close> lists the registered listeners in the order of
  registration, each with the type it expects; \<open>timers\<close> lists the armed timeouts with
  their delay; \<open>resolutions\<close> records every call of \<^verbatim>\<open>resolve\<close>, in order, with
  \<open>None\<close> for \<^verbatim>\<open>null\<close>.
\<close>

record 'm waits =
  handlers :: "(nat \<times> string) list"
  timers :: "(nat \<times> nat) list"
  resolutions :: "(nat \<times> 'm option) list"
  next_promise :: nat

definition no_waits :: "'m waits" where
  "no_waits = \<lparr>handlers = [], timers = [], resolutions = [], next_promise = 0\<rparr>"

text \<open>
  The body of \<^verbatim>\<open>waitForMessage(expectedType, timeout)\<close>;
  \<^verbatim>\<open>effectiveTimeout = timeout || config.timeouts.messageWait\<close>, where an absent timeout
  and the timeout 0 are falsy.  The result is the promise and the new state.
\<close>

definition wait_for :: "string \<Rightarrow> nat option \<Rightarrow> nat \<Rightarrow> 'm waits \<Rightarrow> nat \<times> 'm waits" where
  "wait_for expectedType timeout default_wait w =
     (let effectiveTimeout = (case timeout of
                                None \<Rightarrow> default_wait
                              | Some t \<Rightarrow> if t = 0 then default_wait else t);
          p = next_promise w
      in (p, w\<lparr>handlers := handlers w @ [(p, expectedType)],
                timers := timers w @ [(p, effectiveTimeout)],
                next_promise := Suc p\<rparr>))"

text \<open>
  The listener \<^verbatim>\<open>messageHandler\<close> of promise \<open>fst h\<close>:
  \<^verbatim>\<open>if (message.type === expectedType) { clearTimeout(timeoutId); this.off(..., messageHandler); resolve(message); }\<close>.
\<close>

definition messageHandler :: "('m \<Rightarrow> jsval) \<Rightarrow> 'm \<Rightarrow> 'm waits \<Rightarrow> nat \<times> string \<Rightarrow> 'm waits" where
  "messageHandler type_of message w h =
     (if type_of message = JStr (snd h)
      then w\<lparr>timers := filter (\<lambda>t. fst t \<noteq> fst h) (timers w),
             handlers := filter (\<lambda>g. fst g \<noteq> fst h) (handlers w),
             resolutions := resolutions w @ [(fst h, Some message)]\<rparr>
      else w)"

text \<open>
  Emitting the message event calls the listeners registered at that moment, in order
  (the emitter iterates over a copy of its list).
\<close>

definition deliver :: "('m \<Rightarrow> jsval) \<Rightarrow> 'm \<Rightarrow> 'm waits \<Rightarrow> 'm waits" where
  "deliver type_of message w = foldl (messageHandler type_of message) w (handlers w)"

text \<open>
  The callback of the timeout of promise \<open>p\<close>, run by the timer queue when the delay has
  elapsed and the timeout is still armed:
  \<^verbatim>\<open>this.off(..., messageHandler); resolve(null);\<close>.  A cleared timeout never runs.
\<close>

definition timeout_fires :: "nat \<Rightarrow> 'm waits \<Rightarrow> 'm waits" where
  "timeout_fires p w =
     (if list_ex (\<lambda>t. fst t = p) (timers w)
      then w\<lparr>timers := filter (\<lambda>t. fst t \<noteq> p) (timers w),
             handlers := filter (\<lambda>g. fst g \<noteq> p) (handlers w),
             resolutions := resolutions w @ [(p, None)]\<rparr>
      else w)"

text \<open>
  What can happen to the state after a wait has been registered: a message is emitted,
  a timeout runs, or another wait is registered.
\<close>

datatype 'm wait_input = Deliver 'm | TimerFires nat | Wait string "nat option"

fun wait_step :: "('m \<Rightarrow> jsval) \<Rightarrow> nat \<Rightarrow> 'm waits \<Rightarrow> 'm wait_input \<Rightarrow> 'm waits" where
  "wait_step type_of default_wait w (Deliver message) = deliver type_of message w"
| "wait_step type_of default_wait w (TimerFires p) = timeout_fires p w"
| "wait_step type_of default_wait w (Wait expectedType timeout) =
     snd (wait_for expectedType timeout default_wait w)"

definition wait_run :: "('m \<Rightarrow> jsval) \<Rightarrow> nat \<Rightarrow> 'm waits \<Rightarrow> 'm wait_input list \<Rightarrow> 'm waits" where
  "wait_run type_of default_wait w inputs = foldl (wait_step type_of default_wait) w inputs"

text \<open>The values with which promise \<open>p\<close> has been resolved, in order.\<close>

definition resolved_with :: "'m waits \<Rightarrow> nat \<Rightarrow> 'm option list" where
  "resolved_with w p = map snd (filter (\<lambda>r. fst r = p) (resolutions w))"

definition handler_registered :: "'m waits \<Rightarrow> nat \<Rightarrow> bool" where
  "handler_registered w p = list_ex (\<lambda>g. fst g = p) (handlers w)"

definition timer_armed :: "'m waits \<Rightarrow> nat \<Rightarrow> bool" where
  "timer_armed w p = list_ex (\<lambda>t. fst t = p) (timers w)"

section \<open>The audio transport of Message objects (AudioProtocol)\<close>

text \<open>
  Events that the two transports emit.  \<open>MessageEvent\<close> is the event \<^verbatim>\<open>'message'\<close> of
  \<^verbatim>\<open>AudioProtocol\<close> and the event \<^verbatim>\<open>'eip-message'\<close> of \<^verbatim>\<open>EIPAudioProtocol\<close>; only the
  latter emits \<open>VersionMismatchEvent\<close>.  The level carried by the audio-level event and
  the error carried by the error event are left out.
\<close>

datatype 'm event =
    MessageEvent 'm
  | ListeningEvent bool
  | TransmittingEvent bool
  | AudioLevelEvent
  | ErrorEvent
  | VersionMismatchEvent jsval string

text \<open>
  What a method does besides changing the object, in order: it emits an event, encodes
  a text and starts its playback, calls \<^verbatim>\<open>sendEIPMessage\<close> without awaiting it, or
  ends by throwing.
\<close>

datatype 'm effect =
    Emit "'m event"
  | Play string
  | Send 'm
  | Thrown js_error

text \<open>
  The effects that a \<^verbatim>\<open>try\<close> block with a \<^verbatim>\<open>catch\<close> keeps from its caller: the
  exceptions.  \<open>NotModelled\<close> is not one of them.
\<close>

fun caught :: "'m effect \<Rightarrow> bool" where
  "caught (Thrown e) = (e \<noteq> NotModelled)"
| "caught x = False"

text \<open>
  The fields of both transport classes.  \<open>ggwave_ready\<close> holds when the audio context,
  the codec module and its instance are set; \<open>processor\<close> holds when the script
  processor node exists, that is, when the platform calls \<^verbatim>\<open>onaudioprocess\<close>.
  \<open>chunkStorage\<close> is the \<^verbatim>\<open>Map\<close> from \<^verbatim>\<open>originalMessageId\<close> to the chunks received,
  in order of insertion; \<open>waits\<close> is the part of the listener list and of the timer queue
  that \<^verbatim>\<open>waitForMessage\<close> uses.
\<close>

record 'm transport =
  ggwave_ready :: bool
  processor :: bool
  isListening :: bool
  isTransmitting :: bool
  chunkStorage :: "(jsval \<times> 'm list) list"
  waits :: "'m waits"

record AudioProtocol = "Message transport" +
  config :: AudioConfig

text \<open>The chunks stored for an \<^verbatim>\<open>originalMessageId\<close>; none when the map has no entry.\<close>

definition stored_chunks :: "('m, 'z) transport_scheme \<Rightarrow> jsval \<Rightarrow> 'm list" where
  "stored_chunks s key = (case map_of (chunkStorage s) key of None \<Rightarrow> [] | Some stored \<Rightarrow> stored)"

text \<open>
  \<^verbatim>\<open>this.emit('message', message)\<close>: the listeners of pending waits run, and the event
  reaches the listeners outside the class.
\<close>

definition emit_message :: "AudioProtocol \<Rightarrow> Message \<Rightarrow> AudioProtocol \<times> Message effect list" where
  "emit_message s message =
     (s\<lparr>waits := deliver type message (waits s)\<rparr>, [Emit (MessageEvent message)])"

text \<open>
  \<^verbatim>\<open>AudioProtocol.handleChunk\<close>.  Destructuring the payload throws when the payload is
  \<^verbatim>\<open>undefined\<close> or \<^verbatim>\<open>null\<close>.  The chunk is appended to the list stored under its
  \<^verbatim>\<open>originalMessageId\<close> (a key is compared by value, which is the comparison of the
  \<^verbatim>\<open>Map\<close> for primitive keys), and the list is reassembled when its length equals the
  \<^verbatim>\<open>totalChunks\<close> of the chunk just received.
\<close>

definition handleChunk :: "string \<Rightarrow> AudioProtocol \<Rightarrow> Message \<Rightarrow> AudioProtocol \<times> Message effect list" where
  "handleChunk uuid s chunk =
     (if nullish (payload chunk) then (s, [Thrown TypeError])
      else if \<not> primitive (originalMessageId chunk) then (s, [Thrown NotModelled])
      else
        let key = originalMessageId chunk;
            chunks = stored_chunks s key @ [chunk];
            s1 = s\<lparr>chunkStorage := AList.update key chunks (chunkStorage s)\<rparr>;
            s2 = s1\<lparr>chunkStorage := AList.delete key (chunkStorage s1)\<rparr>
        in if JNum (int (length chunks)) = totalChunks chunk
           then (case reassembleChunks uuid chunks of
                   Inl e \<Rightarrow> (s1, [Thrown e])
                 | Inr None \<Rightarrow> (s2, [])
                 | Inr (Some originalMessage) \<Rightarrow> emit_message s2 originalMessage)
           else (s1, []))"

definition handleReceivedMessage :: "string \<Rightarrow> AudioProtocol \<Rightarrow> Message \<Rightarrow> AudioProtocol \<times> Message effect list" where
  "handleReceivedMessage uuid s message =
     (if type message = JStr ''chunk'' then handleChunk uuid s message
      else emit_message s message)"

text \<open>
  The callback \<^verbatim>\<open>onaudioprocess\<close> set by \<^verbatim>\<open>startListening\<close>.  \<open>decoded\<close> is what the
  codec returns for the audio buffer: \<open>None\<close> when it returns nothing or throws, else the
  decoded text.  \<open>uuids 0\<close> and \<open>uuids 1\<close> are the values that \<^verbatim>\<open>uuidv4()\<close> returns in
  \<^verbatim>\<open>Message.fromJSON\<close> and in the reassembly.  Whatever is thrown while the message is
  parsed and handled is caught and logged.  The callback never reads
  \<^verbatim>\<open>isTransmitting\<close>.
\<close>

definition onaudioprocess :: "(nat \<Rightarrow> string) \<Rightarrow> AudioProtocol \<Rightarrow> string option \<Rightarrow> AudioProtocol \<times> Message effect list" where
  "onaudioprocess uuids s decoded =
     (if \<not> ggwave_ready s then (s, [])
      else case decoded of
        None \<Rightarrow> (s, [Emit AudioLevelEvent])
      | Some text \<Rightarrow>
          if text = [] then (s, [Emit AudioLevelEvent])
          else (case fromJSON (uuids 0) text of
                  Inl e \<Rightarrow> (s, Emit AudioLevelEvent # filter (\<lambda>x. \<not> caught x) [Thrown e])
                | Inr message \<Rightarrow>
                    (fst (handleReceivedMessage (uuids 1) s message),
                     Emit AudioLevelEvent
                       # filter (\<lambda>x. \<not> caught x) (snd (handleReceivedMessage (uuids 1) s message)))))"

text \<open>
  An audio buffer arrives from the microphone: the platform calls the callback only
  while the script processor node exists.
\<close>

definition audio_frame :: "(nat \<Rightarrow> string) \<Rightarrow> AudioProtocol \<Rightarrow> string option \<Rightarrow> AudioProtocol \<times> Message effect list" where
  "audio_frame uuids s decoded =
     (if processor s then onaudioprocess uuids s decoded else (s, []))"

text \<open>
  \<^verbatim>\<open>initialize\<close>, \<^verbatim>\<open>startListening\<close> and \<^verbatim>\<open>stopListening\<close> have the same body in
  both transport classes and are modelled once, for any record with the fields above.
  In \<^verbatim>\<open>initialize\<close>, \<open>available\<close> tells whether the codec factory exists and yields a
  module.  The result is the new object, the effects and the value returned.
\<close>

definition initialize :: "bool \<Rightarrow> ('m, 'z) transport_scheme \<Rightarrow> ('m, 'z) transport_scheme \<times> 'm effect list \<times> bool" where
  "initialize available s =
     (if ggwave_ready s then (s, [], True)
      else if available then (s\<lparr>ggwave_ready := True\<rparr>, [], True)
      else (s, [Emit ErrorEvent], False))"

text \<open>
  \<^verbatim>\<open>startListening\<close>: \<open>granted\<close> tells whether the secure context and the microphone
  are obtained.
\<close>

definition startListening :: "bool \<Rightarrow> bool \<Rightarrow> ('m, 'z) transport_scheme \<Rightarrow> ('m, 'z) transport_scheme \<times> 'm effect list \<times> bool" where
  "startListening available granted s =
     (if isListening s then (s, [], False)
      else case initialize available s of
        (s1, effects, ok) \<Rightarrow>
          if \<not> ok then (s1, effects, False)
          else if \<not> granted then (s1, effects @ [Emit ErrorEvent], False)
          else (s1\<lparr>processor := True, isListening := True\<rparr>,
                effects @ [Emit (ListeningEvent True)], True))"

definition stopListening :: "('m, 'z) transport_scheme \<Rightarrow> ('m, 'z) transport_scheme \<times> 'm effect list" where
  "stopListening s =
     (if \<not> isListening s then (s, [])
      else (s\<lparr>processor := False, isListening := False\<rparr>, [Emit (ListeningEvent False)]))"

text \<open>
  What the audio platform does with a text to send: the playback starts, or the
  encoder throws, or the encoder returns and \<^verbatim>\<open>source.start\<close> throws.
\<close>

datatype playback = Plays | EncodeThrows | StartThrows

text \<open>
  \<^verbatim>\<open>sendSingleMessage\<close>: \<open>playable\<close> is what the platform does with the text.  Both
  exceptions reach the same \<^verbatim>\<open>catch\<close>.  The method returns as soon as the playback has
  started; listening is left as it is.  \<open>playback_ended\<close> is the callback
  \<^verbatim>\<open>source.onended\<close> (in \<^verbatim>\<open>EIPAudioProtocol\<close> also the fallback timeout of ten seconds,
  which does the same).
\<close>

definition sendSingleMessage :: "playback \<Rightarrow> AudioProtocol \<Rightarrow> Message \<Rightarrow> AudioProtocol \<times> Message effect list \<times> bool" where
  "sendSingleMessage playable s message =
     (if playable = Plays
      then (s\<lparr>isTransmitting := True\<rparr>,
            [Emit (TransmittingEvent True), Play (toJSON message)], True)
      else (s\<lparr>isTransmitting := False\<rparr>,
            [Emit (TransmittingEvent True), Emit (TransmittingEvent False), Emit ErrorEvent], False))"

definition playback_ended :: "('m, 'z) transport_scheme \<Rightarrow> ('m, 'z) transport_scheme \<times> 'm effect list" where
  "playback_ended s = (s\<lparr>isTransmitting := False\<rparr>, [Emit (TransmittingEvent False)])"

text \<open>
  The loop of \<^verbatim>\<open>sendChunkedMessage\<close>: \<open>playable k\<close> is what the platform does with
  text number \<open>k\<close>; a failure is thrown, caught, reported as an error event, and ends the send.
  The callbacks that may run during the delay between two chunks are not interleaved
  here; the texts played do not depend on them.
\<close>

fun send_chunks :: "(nat \<Rightarrow> playback) \<Rightarrow> nat \<Rightarrow> AudioProtocol \<Rightarrow> Message list \<Rightarrow> AudioProtocol \<times> Message effect list \<times> bool" where
  "send_chunks playable k s [] = (s, [], True)"
| "send_chunks playable k s (chunk # rest) =
     (case sendSingleMessage (playable k) s chunk of
        (s1, effects1, ok) \<Rightarrow>
          if \<not> ok then (s1, effects1 @ [Emit ErrorEvent], False)
          else (case send_chunks playable (Suc k) s1 rest of
                  (s2, effects2, result) \<Rightarrow> (s2, effects1 @ effects2, result)))"

text \<open>\<open>None\<close>: the method does not return (the chunk loop runs forever).\<close>

definition sendChunkedMessage :: "(nat \<Rightarrow> playback) \<Rightarrow> (nat \<Rightarrow> string) \<Rightarrow> AudioProtocol \<Rightarrow> Message \<Rightarrow> (AudioProtocol \<times> Message effect list \<times> bool) option" where
  "sendChunkedMessage playable uuids s message =
     (case chunkMessage message (chunkSize (chunking (config s))) uuids of
        None \<Rightarrow> None
      | Some chunks \<Rightarrow> Some (send_chunks playable 0 s chunks))"

definition sendMessage :: "bool \<Rightarrow> (nat \<Rightarrow> playback) \<Rightarrow> (nat \<Rightarrow> string) \<Rightarrow> AudioProtocol \<Rightarrow> Message \<Rightarrow> (AudioProtocol \<times> Message effect list \<times> bool) option" where
  "sendMessage available playable uuids s message =
     (case initialize available s of
        (s1, effects, ok) \<Rightarrow>
          if \<not> ok then Some (s1, effects, False)
          else if shouldChunkMessage (length (toJSON message)) (config s1)
          then (case sendChunkedMessage playable uuids s1 message of
                  None \<Rightarrow> None
                | Some (s2, effects2, result) \<Rightarrow> Some (s2, effects @ effects2, result))
          else (case sendSingleMessage (playable 0) s1 message of
                  (s2, effects2, result) \<Rightarrow> Some (s2, effects @ effects2, result)))"

text \<open>
  \<^verbatim>\<open>waitForMessage(expectedType, timeout)\<close>: the promise returned and the object with
  the listener and the timeout registered.
\<close>

definition waitForMessage :: "string \<Rightarrow> nat option \<Rightarrow> AudioProtocol \<Rightarrow> nat \<times> AudioProtocol" where
  "waitForMessage expectedType timeout s =
     (case wait_for expectedType timeout (messageWait (timeouts (config s))) (waits s) of
        (p, w) \<Rightarrow> (p, s\<lparr>waits := w\<rparr>))"

text \<open>The timeout of promise \<open>p\<close> runs.\<close>

definition wait_timeout :: "nat \<Rightarrow> AudioProtocol \<Rightarrow> AudioProtocol \<times> Message effect list" where
  "wait_timeout p s = (s\<lparr>waits := timeout_fires p (waits s)\<rparr>, [])"

text \<open>The texts played, in order.\<close>

fun played :: "'m effect list \<Rightarrow> string list" where
  "played [] = []"
| "played (Play text # effects) = text # played effects"
| "played (x # effects) = played effects"

text \<open>The messages carried by the message events, in order.\<close>

fun messages_emitted :: "'m effect list \<Rightarrow> 'm list" where
  "messages_emitted [] = []"
| "messages_emitted (Emit (MessageEvent message) # effects) = message # messages_emitted effects"
| "messages_emitted (x # effects) = messages_emitted effects"

section \<open>EIP messages (eip-config)\<close>

definition EIP_PROTOCOL_VERSION :: string where
  "EIP_PROTOCOL_VERSION = ''1.0''"

text \<open>
  An EIP message is a plain object, so it is a JavaScript value.
  \<^verbatim>\<open>createEIPMessage(type, payload, id)\<close>, in the variant whose third parameter is
  \<^verbatim>\<open>id?: string | null\<close>: the id is added
  \<^verbatim>\<open>if (id !== null && (id || type !== 'connect'))\<close>, with value
  \<^verbatim>\<open>id || translator.new()\<close>.  The last argument is the string that
  \<^verbatim>\<open>translator.new()\<close> returns when it is called.
\<close>

definition createEIPMessage :: "string \<Rightarrow> jsval \<Rightarrow> jsval \<Rightarrow> string \<Rightarrow> jsval" where
  "createEIPMessage ty payload_arg id_arg new_id =
     (if id_arg \<noteq> JNull \<and> (truthy id_arg \<or> ty \<noteq> ''connect'')
      then JObj [(''version'', JStr EIP_PROTOCOL_VERSION), (''type'', JStr ty),
                 (''payload'', payload_arg),
                 (''id'', if truthy id_arg then id_arg else JStr new_id)]
      else JObj [(''version'', JStr EIP_PROTOCOL_VERSION), (''type'', JStr ty),
                 (''payload'', payload_arg)])"

fun typeof :: "jsval \<Rightarrow> string" where
  "typeof JUndefined = ''undefined''"
| "typeof JNull = ''object''"
| "typeof (JBool b) = ''boolean''"
| "typeof (JNum n) = ''number''"
| "typeof (JStr s) = ''string''"
| "typeof (JArr vs) = ''object''"
| "typeof (JObj kvs) = ''object''"

definition EIP_MESSAGE_TYPES :: "jsval list" where
  "EIP_MESSAGE_TYPES = [JStr ''connect'', JStr ''connect_response'', JStr ''tx_request'',
     JStr ''tx_response'', JStr ''ack'', JStr ''error'', JStr ''chunk'']"

text \<open>
  \<^verbatim>\<open>validateEIPMessage\<close> of the same variant: the id may be absent.  For \<^verbatim>\<open>null\<close> the
  first conjunct holds and reading \<^verbatim>\<open>message.version\<close> throws.
\<close>

definition validateEIPMessage :: "jsval \<Rightarrow> js_error + bool" where
  "validateEIPMessage message =
     (if typeof message \<noteq> ''object'' then Inr False
      else if message = JNull then Inl TypeError
      else Inr (typeof (get_prop message ''version'') = ''string''
                \<and> typeof (get_prop message ''type'') = ''string''
                \<and> List.member EIP_MESSAGE_TYPES (get_prop message ''type'')
                \<and> typeof (get_prop message ''payload'') = ''object''
                \<and> (get_prop message ''id'' = JUndefined
                     \<or> typeof (get_prop message ''id'') = ''string'')))"

definition isVersionSupported :: "jsval \<Rightarrow> bool" where
  "isVersionSupported v = (v = JStr EIP_PROTOCOL_VERSION)"

text \<open>
  The text of a value inside a template literal (\<^verbatim>\<open>ToString\<close>): an array is the texts
  of its elements joined by commas, with nothing for \<^verbatim>\<open>undefined\<close> and \<^verbatim>\<open>null\<close>.
\<close>

fun template_text :: "jsval \<Rightarrow> string"
and array_text :: "jsval list \<Rightarrow> string" where
  "template_text JUndefined = ''undefined''"
| "template_text JNull = ''null''"
| "template_text (JBool b) = (if b then ''true'' else ''false'')"
| "template_text (JNum n) = show_int n"
| "template_text (JStr s) = s"
| "template_text (JArr vs) = array_text vs"
| "template_text (JObj kvs) = ''[object Object]''"
| "array_text [] = []"
| "array_text [v] = (if nullish v then [] else template_text v)"
| "array_text (v # w # vs) = (if nullish v then [] else template_text v) @ '','' @ array_text (w # vs)"

section \<open>The audio transport of EIP messages (EIPAudioProtocol)\<close>

type_synonym EIPAudioProtocol = "jsval transport"

text \<open>
  \<^verbatim>\<open>this.emit('eip-message', message)\<close>.  The listener of a wait compares
  \<^verbatim>\<open>message.type\<close> with the expected type.
\<close>

definition EIP_type :: "jsval \<Rightarrow> jsval" where
  "EIP_type message = get_prop message ''type''"

definition EIP_emit_message :: "EIPAudioProtocol \<Rightarrow> jsval \<Rightarrow> EIPAudioProtocol \<times> jsval effect list" where
  "EIP_emit_message s message =
     (s\<lparr>waits := deliver EIP_type message (waits s)\<rparr>, [Emit (MessageEvent message)])"

text \<open>A field of the payload of a chunk message.\<close>

definition EIP_chunk_field :: "jsval \<Rightarrow> string \<Rightarrow> jsval" where
  "EIP_chunk_field chunk k = get_prop (get_prop chunk ''payload'') k"

definition EIP_modelled_chunk :: "jsval \<Rightarrow> bool" where
  "EIP_modelled_chunk chunk =
     (is_number (EIP_chunk_field chunk ''chunkIndex'')
      \<and> primitive (EIP_chunk_field chunk ''chunkData''))"

text \<open>
  \<^verbatim>\<open>EIPAudioProtocol.handleChunk\<close>.  The chunk is appended to the list stored under its
  \<^verbatim>\<open>originalMessageId\<close>; when the length of the list equals the \<^verbatim>\<open>totalChunks\<close> of the
  chunk just received, the list is sorted by \<^verbatim>\<open>chunkIndex\<close>, the data are joined and
  parsed, the entry is deleted, and the parsed value is emitted as it is.  A parse
  error, or the \<^verbatim>\<open>TypeError\<close> of reading \<^verbatim>\<open>originalMessage.type\<close> when the text is
  \<^verbatim>\<open>null\<close>, is caught: the entry is deleted and nothing is emitted.  A text outside
  the model stays outside.
\<close>

definition EIP_handleChunk :: "EIPAudioProtocol \<Rightarrow> jsval \<Rightarrow> EIPAudioProtocol \<times> jsval effect list" where
  "EIP_handleChunk s chunk =
     (if nullish (get_prop chunk ''payload'') then (s, [Thrown TypeError])
      else if \<not> primitive (EIP_chunk_field chunk ''originalMessageId'') then (s, [Thrown NotModelled])
      else
        let key = EIP_chunk_field chunk ''originalMessageId'';
            chunks = stored_chunks s key @ [chunk];
            s1 = s\<lparr>chunkStorage := AList.update key chunks (chunkStorage s)\<rparr>;
            s2 = s1\<lparr>chunkStorage := AList.delete key (chunkStorage s1)\<rparr>
        in if JNum (int (length chunks)) = EIP_chunk_field chunk ''totalChunks''
           then
             if list_ex (\<lambda>c. nullish (get_prop c ''payload'')) chunks then (s1, [Thrown TypeError])
             else if list_ex (\<lambda>c. \<not> EIP_modelled_chunk c) chunks then (s1, [Thrown NotModelled])
             else (case JSON_parse
                          (concat (map (\<lambda>c. join_text (EIP_chunk_field c ''chunkData''))
                             (sort_key (\<lambda>c. number_of (EIP_chunk_field c ''chunkIndex'')) chunks))) of
                     Inl e \<Rightarrow> if e = NotModelled then (s1, [Thrown NotModelled]) else (s2, [])
                   | Inr originalMessage \<Rightarrow>
                       if nullish originalMessage then (s2, [])
                       else EIP_emit_message s2 originalMessage)
           else (s1, []))"

text \<open>
  \<^verbatim>\<open>EIPAudioProtocol.handleEIPMessage\<close>.  \<open>new_id\<close> is the id that
  \<^verbatim>\<open>translator.new()\<close> returns for the error message.  The error message is passed to
  \<^verbatim>\<open>sendEIPMessage\<close>, which is not awaited.
\<close>

definition handleEIPMessage :: "string \<Rightarrow> EIPAudioProtocol \<Rightarrow> jsval \<Rightarrow> EIPAudioProtocol \<times> jsval effect list" where
  "handleEIPMessage new_id s message =
     (if nullish message then (s, [Thrown TypeError])
      else if \<not> isVersionSupported (get_prop message ''version'')
      then (s, [Emit (VersionMismatchEvent (get_prop message ''version'') EIP_PROTOCOL_VERSION),
                Send (createEIPMessage ''error''
                        (JObj [(''message'', JStr (''Unsupported protocol version: ''
                                                     @ template_text (get_prop message ''version''))),
                               (''received_id'', get_prop message ''id'')])
                        JUndefined new_id)])
      else if get_prop message ''type'' = JStr ''chunk'' then EIP_handleChunk s message
      else EIP_emit_message s message)"

text \<open>
  The callback \<^verbatim>\<open>onaudioprocess\<close> of \<^verbatim>\<open>EIPAudioProtocol\<close>: the decoded text is parsed,
  checked by \<^verbatim>\<open>validateEIPMessage\<close> and passed to \<^verbatim>\<open>handleEIPMessage\<close>; whatever is
  thrown on the way is caught and logged.  The callback never reads
  \<^verbatim>\<open>isTransmitting\<close>.
\<close>

definition EIP_onaudioprocess :: "string \<Rightarrow> EIPAudioProtocol \<Rightarrow> string option \<Rightarrow> EIPAudioProtocol \<times> jsval effect list" where
  "EIP_onaudioprocess new_id s decoded =
     (if \<not> ggwave_ready s then (s, [])
      else case decoded of
        None \<Rightarrow> (s, [Emit AudioLevelEvent])
      | Some text \<Rightarrow>
          if text = [] then (s, [Emit AudioLevelEvent])
          else (case JSON_parse text of
                  Inl e \<Rightarrow> (s, Emit AudioLevelEvent # filter (\<lambda>x. \<not> caught x) [Thrown e])
                | Inr messageData \<Rightarrow>
                    if validateEIPMessage messageData = Inr True
                    then (fst (handleEIPMessage new_id s messageData),
                          Emit AudioLevelEvent
                            # filter (\<lambda>x. \<not> caught x) (snd (handleEIPMessage new_id s messageData)))
                    else (s, [Emit AudioLevelEvent])))"

definition EIP_audio_frame :: "string \<Rightarrow> EIPAudioProtocol \<Rightarrow> string option \<Rightarrow> EIPAudioProtocol \<times> jsval effect list" where
  "EIP_audio_frame new_id s decoded =
     (if processor s then EIP_onaudioprocess new_id s decoded else (s, []))"

text \<open>
  \<^verbatim>\<open>sendSingleEIPMessage\<close> in two steps: the playback starts (\<open>EIP_transmit_begin\<close>),
  and the promise is fulfilled when the playback has ended (\<open>playback_ended\<close>).  The
  callbacks that may run while the playback lasts are not interleaved in
  \<open>sendSingleEIPMessage\<close>.  When the encoder throws, the \<^verbatim>\<open>catch\<close> of the method emits
  the error event and the method returns \<^verbatim>\<open>false\<close>.  When \<^verbatim>\<open>source.start\<close> throws,
  the promise that the method has returned is rejected: no error event, and the
  exception reaches the caller.
\<close>

definition EIP_transmit_begin :: "playback \<Rightarrow> EIPAudioProtocol \<Rightarrow> string \<Rightarrow> EIPAudioProtocol \<times> jsval effect list \<times> bool" where
  "EIP_transmit_begin playable s messageText =
     (case playable of
        Plays \<Rightarrow>
          (s\<lparr>isTransmitting := True\<rparr>, [Emit (TransmittingEvent True), Play messageText], True)
      | EncodeThrows \<Rightarrow>
          (s\<lparr>isTransmitting := False\<rparr>,
           [Emit (TransmittingEvent True), Emit (TransmittingEvent False), Emit ErrorEvent], False)
      | StartThrows \<Rightarrow>
          (s\<lparr>isTransmitting := False\<rparr>,
           [Emit (TransmittingEvent True), Emit (TransmittingEvent False), Thrown DOMException],
           False))"

definition sendSingleEIPMessage :: "playback \<Rightarrow> EIPAudioProtocol \<Rightarrow> string \<Rightarrow> EIPAudioProtocol \<times> jsval effect list \<times> bool" where
  "sendSingleEIPMessage playable s messageText =
     (case EIP_transmit_begin playable s messageText of
        (s1, effects1, ok) \<Rightarrow>
          if \<not> ok then (s1, effects1, False)
          else (case playback_ended s1 of (s2, effects2) \<Rightarrow> (s2, effects1 @ effects2, True)))"

text \<open>The two sizes written in the bodies of the send methods.\<close>

definition EIP_CHUNK_THRESHOLD :: nat where
  "EIP_CHUNK_THRESHOLD = 120"

definition EIP_CHUNK_SIZE :: nat where
  "EIP_CHUNK_SIZE = 80"

text \<open>The chunk message built in the loop of \<^verbatim>\<open>sendChunkedEIPMessage\<close>.\<close>

definition EIP_chunk_message :: "jsval \<Rightarrow> nat \<Rightarrow> nat \<Rightarrow> string \<Rightarrow> string \<Rightarrow> jsval" where
  "EIP_chunk_message message i n data new_id =
     JObj [(''version'', get_prop message ''version''),
           (''type'', JStr ''chunk''),
           (''payload'', JObj [(''originalMessageId'', get_prop message ''id''),
                               (''originalType'', get_prop message ''type''),
                               (''chunkIndex'', JNum (int i)),
                               (''totalChunks'', JNum (int n)),
                               (''chunkData'', JStr data)]),
           (''id'', JStr new_id)]"

text \<open>
  The loop over the chunks, from chunk \<open>i\<close> on: a chunk that is not played ends the
  loop with an exception (result \<open>False\<close>).
\<close>

fun EIP_send_chunks :: "(nat \<Rightarrow> playback) \<Rightarrow> (nat \<Rightarrow> string) \<Rightarrow> jsval \<Rightarrow> nat \<Rightarrow> nat \<Rightarrow> EIPAudioProtocol \<Rightarrow> string list \<Rightarrow> EIPAudioProtocol \<times> jsval effect list \<times> bool" where
  "EIP_send_chunks playable new_ids message n i s [] = (s, [], True)"
| "EIP_send_chunks playable new_ids message n i s (data # rest) =
     (case sendSingleEIPMessage (playable i) s
             (JSON_stringify (EIP_chunk_message message i n data (new_ids i))) of
        (s1, effects1, ok) \<Rightarrow>
          if \<not> ok then (s1, effects1, False)
          else (case EIP_send_chunks playable new_ids message n (Suc i) s1 rest of
                  (s2, effects2, result) \<Rightarrow> (s2, effects1 @ effects2, result)))"

text \<open>
  \<^verbatim>\<open>sendChunkedEIPMessage\<close>: listening is stopped before the first chunk when it was
  on, and started again after the last chunk or after a failure; the exception that
  ended the loop is then caught and reported by an error event.  \<open>None\<close>: the method
  does not return.
\<close>

definition sendChunkedEIPMessage :: "bool \<Rightarrow> bool \<Rightarrow> (nat \<Rightarrow> playback) \<Rightarrow> (nat \<Rightarrow> string) \<Rightarrow> EIPAudioProtocol \<Rightarrow> jsval \<Rightarrow> (EIPAudioProtocol \<times> jsval effect list \<times> bool) option" where
  "sendChunkedEIPMessage available granted playable new_ids s message =
     (case chunk_loop (JSON_stringify message) EIP_CHUNK_SIZE 0 [] of
        None \<Rightarrow> None
      | Some chunks \<Rightarrow>
          (case stopListening s of
             (s1, effects1) \<Rightarrow>
               (case EIP_send_chunks playable new_ids message (length chunks) 0 s1 chunks of
                  (s2, effects2, sent) \<Rightarrow>
                    (case (if isListening s then startListening available granted s2
                           else (s2, [], False)) of
                       (s3, effects3, started) \<Rightarrow>
                         Some (s3,
                               effects1 @ filter (\<lambda>x. \<not> caught x) effects2 @ effects3
                                 @ (if sent then [] else [Emit ErrorEvent]),
                               sent)))))"

text \<open>
  \<^verbatim>\<open>sendEIPMessage\<close>.  \<^verbatim>\<open>JSON.stringify(undefined)\<close> is not a string, and reading its
  length throws.
\<close>

definition sendEIPMessage :: "bool \<Rightarrow> bool \<Rightarrow> (nat \<Rightarrow> playback) \<Rightarrow> (nat \<Rightarrow> string) \<Rightarrow> EIPAudioProtocol \<Rightarrow> jsval \<Rightarrow> (EIPAudioProtocol \<times> jsval effect list \<times> bool) option" where
  "sendEIPMessage available granted playable new_ids s message =
     (case initialize available s of
        (s1, effects, ok) \<Rightarrow>
          if \<not> ok then Some (s1, effects, False)
          else if message = JUndefined then Some (s1, effects @ [Thrown TypeError], False)
          else if length (JSON_stringify message) > EIP_CHUNK_THRESHOLD
          then (case sendChunkedEIPMessage available granted playable new_ids s1 message of
                  None \<Rightarrow> None
                | Some (s2, effects2, result) \<Rightarrow> Some (s2, effects @ effects2, result))
          else (case sendSingleEIPMessage (playable 0) s1 (JSON_stringify message) of
                  (s2, effects2, result) \<Rightarrow> Some (s2, effects @ effects2, result)))"

definition waitForEIPMessage :: "string \<Rightarrow> nat option \<Rightarrow> EIPAudioProtocol \<Rightarrow> nat \<times> EIPAudioProtocol" where
  "waitForEIPMessage expectedType timeout s =
     (case wait_for expectedType timeout (messageWait (timeouts EIP_AUDIO_CONFIG)) (waits s) of
        (p, w) \<Rightarrow> (p, s\<lparr>waits := w\<rparr>))"

section \<open>The responder (EIPMessageHandler)\<close>

text \<open>
  \<^verbatim>\<open>EIPMessageHandler.handleConnectRequest\<close>: the response that is passed to
  \<^verbatim>\<open>sendEIPMessage\<close>.  \<open>address\<close> is the address of the wallet.
\<close>

definition connect_response_payload :: "string \<Rightarrow> jsval \<Rightarrow> jsval" where
  "connect_response_payload address message =
     JObj [(''address'', JStr address), (''received_id'', get_prop message ''id'')]"

definition handleConnectRequest_response :: "string \<Rightarrow> string \<Rightarrow> jsval \<Rightarrow> jsval" where
  "handleConnectRequest_response address new_id message =
     createEIPMessage ''connect_response'' (connect_response_payload address message) JUndefined new_id"

section \<open>Concrete messages used as test inputs\<close>

text \<open>
  A transaction request as \<^verbatim>\<open>MessageProtocol.createTxRequest\<close> builds it, with a fixed id.
\<close>

definition tx_request_example :: Message where
  "tx_request_example =
     \<lparr>version = JStr ''1.0'', type = JStr ''tx_request'',
      payload = JObj [(''transaction'', JObj [(''chainId'', JNum 1), (''nonce'', JStr ''0x0''),
                  (''gasPrice'', JStr ''0x4a817c800''), (''gasLimit'', JStr ''0x5208''),
                  (''to'', JStr ''0x742d35cc''), (''value'', JStr ''0xde0b6b3a7640000''),
                  (''data'', JStr ''0x'')])],
      msg_id = JStr ''m-1''\<rparr>"

text \<open>
  A configuration passed to the constructor of \<^verbatim>\<open>AudioProtocol\<close>, with the sizes of the
  EIP transport (threshold 120, chunks of 80 characters); the other numbers are small
  ones.
\<close>

definition narrow_config :: AudioConfig where
  "narrow_config =
     \<lparr>timeouts = \<lparr>messageWait = 100, connectResponse = 100, transactionResponse = 200,
                   transactionConfirmation = 100, cryptoUtilsTransaction = 300\<rparr>,
      buffers = \<lparr>scriptProcessorSize = 256, fftSize = 256, sampleRate = 480\<rparr>,
      ggwave = \<lparr>soundMarkerThreshold = 4, volumeLevel = 15, protocol = 1\<rparr>,
      chunking = \<lparr>maxMessageSize = 120, chunkSize = 80, enabled = True\<rparr>\<rparr>"

text \<open>A connect response as \<^verbatim>\<open>MessageProtocol.createConnectResponse\<close> builds it.\<close>

definition connect_response_example :: Message where
  "connect_response_example =
     \<lparr>version = JStr ''1.0'', type = JStr ''connect_response'',
      payload = JObj [(''address'', JStr ''0xabc''), (''received_id'', JStr ''c-1'')],
      msg_id = JStr ''r-1''\<rparr>"

text \<open>A connect request that declares protocol version 2.0.\<close>

definition connect_v2_example :: jsval where
  "connect_v2_example =
     JObj [(''version'', JStr ''2.0''), (''type'', JStr ''connect''), (''payload'', JObj []),
           (''id'', JStr ''c-7'')]"

text \<open>A transport that is initialized and listening, with nothing stored.\<close>

definition listening_transport :: "'m transport" where
  "listening_transport =
     \<lparr>ggwave_ready = True, processor = True, isListening = True, isTransmitting = False,
      chunkStorage = [], waits = no_waits\<rparr>"

text \<open>
  The JSON text of the connect request of version 2.0, cut into slices of 15 characters,
  each slice carried by a chunk message that declares version 1.0.  Every chunk text
  is shorter than the 140 bytes that one transmission of the codec carries.
\<close>

definition v2_chunk :: "nat \<Rightarrow> jsval" where
  "v2_chunk i =
     JObj [(''version'', JStr ''1.0''), (''type'', JStr ''chunk''),
           (''payload'', JObj [(''originalMessageId'', JStr ''c-7''),
                               (''chunkIndex'', JNum (int i)),
                               (''totalChunks'', JNum 4),
                               (''chunkData'', JStr (substring (JSON_stringify connect_v2_example)
                                                      (15 * i) (15 * i + 15)))])]"

definition v2_chunk_texts :: "string list" where
  "v2_chunk_texts = map (\<lambda>i. JSON_stringify (v2_chunk i)) [0, 1, 2, 3]"

text \<open>Audio frames arriving one after the other, each decoded to a text.\<close>

fun EIP_frames :: "string \<Rightarrow> EIPAudioProtocol \<Rightarrow> string list \<Rightarrow> EIPAudioProtocol \<times> jsval effect list" where
  "EIP_frames new_id s [] = (s, [])"
| "EIP_frames new_id s (text # texts) =
     (case EIP_audio_frame new_id s (Some text) of
        (s1, effects1) \<Rightarrow>
          (case EIP_frames new_id s1 texts of
             (s2, effects2) \<Rightarrow> (s2, effects1 @ effects2)))"

fun frames :: "(nat \<Rightarrow> string) \<Rightarrow> AudioProtocol \<Rightarrow> string list \<Rightarrow> AudioProtocol \<times> Message effect list" where
  "frames uuids s [] = (s, [])"
| "frames uuids s (text # texts) =
     (case audio_frame uuids s (Some text) of
        (s1, effects1) \<Rightarrow>
          (case frames uuids s1 texts of
             (s2, effects2) \<Rightarrow> (s2, effects1 @ effects2)))"

fun sends :: "'m effect list \<Rightarrow> 'm list" where
  "sends [] = []"
| "sends (Send message # effects) = message # sends effects"
| "sends (x # effects) = sends effects"

section \<open>Sequences of callbacks\<close>

text \<open>
  What the receiving side of a transport reacts to: a message has been decoded and
  parsed, the timeout of a wait runs, or a playback ends.  The last two are the only
  callbacks of the classes that the passing of time triggers.
\<close>

datatype 'm receiver_input = Arrives 'm | WaitTimeout nat | PlaybackEnds

fun receiver_step :: "string \<Rightarrow> AudioProtocol \<Rightarrow> Message receiver_input \<Rightarrow> AudioProtocol \<times> Message effect list" where
  "receiver_step uuid s (Arrives message) = handleReceivedMessage uuid s message"
| "receiver_step uuid s (WaitTimeout p) = wait_timeout p s"
| "receiver_step uuid s PlaybackEnds = playback_ended s"

fun receiver_run :: "string \<Rightarrow> AudioProtocol \<Rightarrow> Message receiver_input list \<Rightarrow> AudioProtocol \<times> Message effect list" where
  "receiver_run uuid s [] = (s, [])"
| "receiver_run uuid s (i # inputs) =
     (case receiver_step uuid s i of
        (s1, effects1) \<Rightarrow>
          (case receiver_run uuid s1 inputs of
             (s2, effects2) \<Rightarrow> (s2, effects1 @ effects2)))"

fun EIP_receiver_step :: "string \<Rightarrow> EIPAudioProtocol \<Rightarrow> jsval receiver_input \<Rightarrow> EIPAudioProtocol \<times> jsval effect list" where
  "EIP_receiver_step new_id s (Arrives message) = handleEIPMessage new_id s message"
| "EIP_receiver_step new_id s (WaitTimeout p) = (s\<lparr>waits := timeout_fires p (waits s)\<rparr>, [])"
| "EIP_receiver_step new_id s PlaybackEnds = playback_ended s"

fun EIP_receiver_run :: "string \<Rightarrow> EIPAudioProtocol \<Rightarrow> jsval receiver_input list \<Rightarrow> EIPAudioProtocol \<times> jsval effect list" where
  "EIP_receiver_run new_id s [] = (s, [])"
| "EIP_receiver_run new_id s (i # inputs) =
     (case EIP_receiver_step new_id s i of
        (s1, effects1) \<Rightarrow>
          (case EIP_receiver_run new_id s1 inputs of
             (s2, effects2) \<Rightarrow> (s2, effects1 @ effects2)))"

text \<open>The messages that arrive in a sequence of callbacks, in order.\<close>

fun arrived :: "'m receiver_input list \<Rightarrow> 'm list" where
  "arrived [] = []"
| "arrived (Arrives message # inputs) = message # arrived inputs"
| "arrived (i # inputs) = arrived inputs"

text \<open>
  The effects of the ends of playback in a sequence of callbacks: each one emits the
  event \<^verbatim>\<open>transmitting\<close> with \<^verbatim>\<open>false\<close>.
\<close>

fun playbacks :: "'m receiver_input list \<Rightarrow> 'm effect list" where
  "playbacks [] = []"
| "playbacks (PlaybackEnds # inputs) = Emit (TransmittingEvent False) # playbacks inputs"
| "playbacks (i # inputs) = playbacks inputs"

text \<open>
  A chunk of the message \<open>key\<close> cut into \<open>n\<close> chunks, with an index in range; for each of
  the two transports.
\<close>

definition chunk_of :: "jsval \<Rightarrow> nat \<Rightarrow> Message \<Rightarrow> bool" where
  "chunk_of key n chunk =
     (type chunk = JStr ''chunk'' \<and> \<not> nullish (payload chunk)
      \<and> originalMessageId chunk = key \<and> totalChunks chunk = JNum (int n)
      \<and> is_number (chunkIndex chunk)
      \<and> 0 \<le> number_of (chunkIndex chunk) \<and> number_of (chunkIndex chunk) < int n)"

definition EIP_chunk_of :: "jsval \<Rightarrow> nat \<Rightarrow> jsval \<Rightarrow> bool" where
  "EIP_chunk_of key n chunk =
     (get_prop chunk ''version'' = JStr ''1.0'' \<and> get_prop chunk ''type'' = JStr ''chunk''
      \<and> \<not> nullish (get_prop chunk ''payload'')
      \<and> EIP_chunk_field chunk ''originalMessageId'' = key
      \<and> EIP_chunk_field chunk ''totalChunks'' = JNum (int n)
      \<and> is_number (EIP_chunk_field chunk ''chunkIndex'')
      \<and> 0 \<le> number_of (EIP_chunk_field chunk ''chunkIndex'')
      \<and> number_of (EIP_chunk_field chunk ''chunkIndex'') < int n)"

definition EIP_chunk_key :: "jsval \<Rightarrow> int" where
  "EIP_chunk_key chunk = number_of (EIP_chunk_field chunk ''chunkIndex'')"

text \<open>
  An \<^verbatim>\<open>AudioProtocol\<close> that is initialized and listening, and the chunks that
  \<^verbatim>\<open>chunkMessage\<close> makes of the transaction request with chunks of 80 characters.
\<close>

definition listening_protocol :: AudioProtocol where
  "listening_protocol =
     \<lparr>ggwave_ready = True, processor = True, isListening = True, isTransmitting = False,
      chunkStorage = [], waits = no_waits, config = narrow_config\<rparr>"

definition tx_chunks :: "Message list" where
  "tx_chunks = (case chunkMessage tx_request_example 80 (\<lambda>i. ''u'') of
                  None \<Rightarrow> []
                | Some chunks \<Rightarrow> chunks)"

text \<open>
  A transaction request whose payload holds an array with one element \<open>x\<close>, and the
  transaction request above with the empty string assigned to its field \<^verbatim>\<open>id\<close>.
\<close>

definition element_example :: "jsval \<Rightarrow> Message" where
  "element_example x =
     \<lparr>version = JStr ''1.0'', type = JStr ''tx_request'',
      payload = JObj [(''transaction'', JObj [(''chainId'', JNum 1), (''nonce'', JStr ''0x0''),
                  (''to'', JStr ''0x742d35cc''), (''value'', JStr ''0xde0b6b3a7640000''),
                  (''data'', JStr ''0x''), (''accessList'', JArr [x])])],
      msg_id = JStr ''m-2''\<rparr>"

definition empty_id_example :: Message where
  "empty_id_example = tx_request_example\<lparr>msg_id := JStr ''''\<rparr>"

text \<open>
  Two chunk messages that carry the two halves of the text of the connect response,
  declare two chunks in all, and have the indices 0 and 7; and the same for the EIP
  transport, with a connect request and the indices 0 and 9.
\<close>

definition stray_chunks :: "Message list" where
  "stray_chunks =
     [createChunk (JStr ''r-1'') 0 2 (substring (toJSON connect_response_example) 0 60)
        (JStr ''connect_response'') ''u-0'',
      createChunk (JStr ''r-1'') 7 2 (substring (toJSON connect_response_example) 60 120)
        (JStr ''connect_response'') ''u-1'']"

definition connect_example :: jsval where
  "connect_example =
     JObj [(''version'', JStr ''1.0''), (''type'', JStr ''connect''), (''payload'', JObj []),
           (''id'', JStr ''c-8'')]"

definition EIP_stray_chunks :: "jsval list" where
  "EIP_stray_chunks =
     [EIP_chunk_message connect_example 0 2 (substring (JSON_stringify connect_example) 0 30) ''n-0'',
      EIP_chunk_message connect_example 9 2 (substring (JSON_stringify connect_example) 30 60) ''n-1'']"

section \<open>Sequences of events for a wait\<close>

text \<open>
  What happens to a transport between the registration of a wait and its resolution:
  the message event is emitted, the timeout of a promise runs, or another wait is
  registered.
\<close>

fun protocol_step :: "AudioProtocol \<Rightarrow> Message wait_input \<Rightarrow> AudioProtocol" where
  "protocol_step s (Deliver message) = fst (emit_message s message)"
| "protocol_step s (TimerFires p) = fst (wait_timeout p s)"
| "protocol_step s (Wait expectedType timeout) = snd (waitForMessage expectedType timeout s)"

definition protocol_run :: "AudioProtocol \<Rightarrow> Message wait_input list \<Rightarrow> AudioProtocol" where
  "protocol_run s inputs = foldl protocol_step s inputs"

fun EIP_protocol_step :: "EIPAudioProtocol \<Rightarrow> jsval wait_input \<Rightarrow> EIPAudioProtocol" where
  "EIP_protocol_step s (Deliver message) = fst (EIP_emit_message s message)"
| "EIP_protocol_step s (TimerFires p) = s\<lparr>waits := timeout_fires p (waits s)\<rparr>"
| "EIP_protocol_step s (Wait expectedType timeout) = snd (waitForEIPMessage expectedType timeout s)"

definition EIP_protocol_run :: "EIPAudioProtocol \<Rightarrow> jsval wait_input list \<Rightarrow> EIPAudioProtocol" where
  "EIP_protocol_run s inputs = foldl EIP_protocol_step s inputs"

text \<open>The delay that \<^verbatim>\<open>timeout || defaultWait\<close> gives.\<close>

definition effective_timeout :: "nat option \<Rightarrow> nat \<Rightarrow> nat" where
  "effective_timeout timeout default_wait =
     (case timeout of None \<Rightarrow> default_wait | Some t \<Rightarrow> if t = 0 then default_wait else t)"

section \<open>Auxiliary notions of the proofs\<close>

definition digits_val :: "int \<Rightarrow> string \<Rightarrow> int" where
  "digits_val acc ds = foldl (\<lambda>a c. a * 10 + int (digit_val c)) acc ds"

definition num_follow :: "string \<Rightarrow> bool" where
  "num_follow r = (case r of [] \<Rightarrow> True
     | d # _ \<Rightarrow> \<not> is_digit d \<and> d \<noteq> CHR ''.'' \<and> d \<noteq> CHR ''e'' \<and> d \<noteq> CHR ''E'')"

definition val_follow :: "string \<Rightarrow> bool" where
  "val_follow r = (case r of [] \<Rightarrow> True | d # _ \<Rightarrow> d = CHR '','' \<or> d = CHR '']'' \<or> d = CHR ''}'')"

definition val_start :: "char \<Rightarrow> bool" where
  "val_start c = (c = CHR ''n'' \<or> c = CHR ''t'' \<or> c = CHR ''f'' \<or> c = dquote \<or> c = CHR ''[''
     \<or> c = CHR ''{'' \<or> c = CHR ''-'' \<or> is_digit c)"

definition chunk_messages :: "Message \<Rightarrow> (nat \<Rightarrow> string) \<Rightarrow> string list \<Rightarrow> Message list" where
  "chunk_messages E uuids chunks =
     map (\<lambda>p. createChunk (msg_id E) (fst p) (length chunks) (snd p) (type E) (uuids (fst p)))
       (enumerate 0 chunks)"

definition chunk_key :: "Message \<Rightarrow> int" where
  "chunk_key chunk = number_of (chunkIndex chunk)"

text \<open>
  Well-formed wait states: every promise in the state was allocated before
  \<open>next_promise\<close>, and a promise has at most one listener and one timeout.
\<close>

definition waits_ok :: "'m waits \<Rightarrow> bool" where
  "waits_ok w =
     (list_all (\<lambda>g. fst g < next_promise w) (handlers w)
      \<and> list_all (\<lambda>t. fst t < next_promise w) (timers w)
      \<and> list_all (\<lambda>r. fst r < next_promise w) (resolutions w)
      \<and> distinct (map fst (handlers w)) \<and> distinct (map fst (timers w)))"

text \<open>Promise \<open>p\<close>, waiting for type \<open>T\<close>, is still pending; or it is settled with \<open>v\<close>.\<close>

definition pending :: "'m waits \<Rightarrow> nat \<Rightarrow> string \<Rightarrow> bool" where
  "pending w p T =
     ((p, T) \<in> set (handlers w) \<and> timer_armed w p
      \<and> resolved_with w p = [] \<and> p < next_promise w)"

definition settled :: "'m waits \<Rightarrow> nat \<Rightarrow> 'm option \<Rightarrow> bool" where
  "settled w p v =
     (\<not> handler_registered w p \<and> \<not> timer_armed w p \<and> resolved_with w p = [v]
      \<and> p < next_promise w)"

text \<open>
  Inputs that decide nothing for promise \<open>p\<close> waiting for \<open>T\<close>: no message of type \<open>T\<close>
  and no run of the timeout of \<open>p\<close>.
\<close>

definition undecided :: "('m \<Rightarrow> jsval) \<Rightarrow> string \<Rightarrow> nat \<Rightarrow> 'm wait_input list \<Rightarrow> bool" where
  "undecided type_of T p inputs =
     list_all (\<lambda>i. case i of
                      Deliver m \<Rightarrow> type_of m \<noteq> JStr T
                    | TimerFires q \<Rightarrow> q \<noteq> p
                    | Wait e t \<Rightarrow> True) inputs"

text \<open>
  The texts that a send that returns has played, in order, and the value it returns.
\<close>

definition transmitted :: "('s \<times> 'm effect list \<times> bool) option \<Rightarrow> (string list \<times> bool) option" where
  "transmitted r = map_option (\<lambda>x. (played (fst (snd x)), snd (snd x))) r"

text \<open>
  The chunk messages that the loop of \<^verbatim>\<open>sendChunkedEIPMessage\<close> builds for the slices
  of the text of a message.
\<close>

definition EIP_chunk_messages :: "jsval \<Rightarrow> (nat \<Rightarrow> string) \<Rightarrow> string list \<Rightarrow> jsval list" where
  "EIP_chunk_messages message new_ids slices =
     map (\<lambda>p. EIP_chunk_message message (fst p) (length slices) (snd p) (new_ids (fst p)))
       (enumerate 0 slices)"

section \<open>JSON text reads back as the value written\<close>

lemma of_char_digit_char: "d < 10 \<Longrightarrow> (of_char (digit_char d) :: nat) = 48 + d"
  by (simp add: digit_char_def)

lemma is_digit_digit_char: "d < 10 \<Longrightarrow> is_digit (digit_char d)"
  by (simp add: is_digit_def of_char_digit_char)

lemma digit_val_digit_char: "d < 10 \<Longrightarrow> digit_val (digit_char d) = d"
  by (simp add: digit_val_def of_char_digit_char)

lemma digit_char_eq_zero: "d < 10 \<Longrightarrow> digit_char d = CHR ''0'' \<longleftrightarrow> d = 0"
proof -
  assume d: "d < 10"
  have "digit_char d = CHR ''0'' \<longleftrightarrow> (of_char (digit_char d) :: nat) = of_char (CHR ''0'')"
    by (metis of_char_eq_iff)
  then show ?thesis using d by (simp add: of_char_digit_char)
qed

lemma parse_digits_append:
  "\<forall>c\<in>set ds. is_digit c \<Longrightarrow> parse_digits acc (ds @ r) = parse_digits (digits_val acc ds) r"
  by (induction ds arbitrary: acc) (auto simp: digits_val_def)

lemma show_nat_digits: "\<forall>c\<in>set (show_nat n). is_digit c"
  by (induction n rule: show_nat.induct) (subst show_nat.simps, auto simp: is_digit_digit_char)

lemma digits_val_show_nat: "digits_val 0 (show_nat n) = int n"
proof (induction n rule: show_nat.induct)
  case (1 n)
  show ?case
  proof (cases "n < 10")
    case True
    then show ?thesis by (subst show_nat.simps) (simp add: digits_val_def digit_val_digit_char)
  next
    case False
    with 1 have "digits_val 0 (show_nat (n div 10)) = int (n div 10)" by simp
    moreover have "int (n div 10) * 10 + int (n mod 10) = int n"
      by (metis div_mult_mod_eq of_nat_add of_nat_mult of_nat_numeral)
    ultimately show ?thesis using False
      by (subst show_nat.simps) (simp add: digits_val_def digit_val_digit_char)
  qed
qed

lemma show_nat_hd:
  "\<exists>c cs. show_nat n = c # cs \<and> is_digit c \<and> (c = CHR ''0'' \<longleftrightarrow> n = 0) \<and> (n = 0 \<longrightarrow> cs = [])"
proof (induction n rule: show_nat.induct)
  case (1 n)
  show ?case
  proof (cases "n < 10")
    case True
    then show ?thesis
      by (subst show_nat.simps) (simp add: is_digit_digit_char digit_char_eq_zero)
  next
    case False
    with 1 obtain c cs where "show_nat (n div 10) = c # cs" "is_digit c" "c = CHR ''0'' \<longleftrightarrow> n div 10 = 0"
      by auto
    with False show ?thesis
      by (subst show_nat.simps) auto
  qed
qed

lemma parse_digits_stop: "num_follow r \<Longrightarrow> parse_digits a r = (a, r)"
  by (cases r) (auto simp: num_follow_def)

lemma parse_nat_lit_show_nat:
  assumes "num_follow r"
  shows "parse_nat_lit (show_nat n @ r) = Some (int n, r)"
proof -
  obtain c cs where h: "show_nat n = c # cs" "is_digit c" "c = CHR ''0'' \<longleftrightarrow> n = 0" "n = 0 \<longrightarrow> cs = []"
    using show_nat_hd by blast
  show ?thesis
  proof (cases "n = 0")
    case True
    with h show ?thesis by (simp add: parse_nat_lit_def)
  next
    case False
    have "parse_digits 0 (show_nat n @ r) = (int n, r)"
      using parse_digits_append [OF show_nat_digits, of 0 n r] assms
      by (simp add: digits_val_show_nat parse_digits_stop)
    with False h show ?thesis
      by (simp add: parse_nat_lit_def del: parse_digits.simps)
  qed
qed

lemma show_nat_not_minus: "\<exists>c cs. show_nat n = c # cs \<and> c \<noteq> CHR ''-''"
  using show_nat_hd [of n] by (auto simp: is_digit_def)

lemma num_follow_Cons:
  "num_follow r \<Longrightarrow> \<not> (case r of [] \<Rightarrow> False | d # _ \<Rightarrow> d = CHR ''.'' \<or> d = CHR ''e'' \<or> d = CHR ''E'')"
  by (cases r) (auto simp: num_follow_def)

lemma parse_number_show_int:
  assumes "num_follow r" and "\<bar>i\<bar> \<le> 9007199254740991"
  shows "parse_number (show_int i @ r) = Inr (JNum i, r)"
proof (cases "i < 0")
  case True
  then show ?thesis
    using parse_nat_lit_show_nat [OF assms(1), of "nat (- i)"] num_follow_Cons [OF assms(1)] assms(2)
    by (simp add: parse_number_def show_int_def)
next
  case False
  obtain c cs where h: "show_nat (nat i) = c # cs" "c \<noteq> CHR ''-''"
    using show_nat_not_minus by blast
  have "parse_nat_lit (c # cs @ r) = Some (int (nat i), r)"
    using parse_nat_lit_show_nat [OF assms(1), of "nat i"] h by simp
  with False h show ?thesis
    using num_follow_Cons [OF assms(1)] assms(2)
    by (simp add: parse_number_def show_int_def)
qed

lemma hex_val_hex_digit: "d < 16 \<Longrightarrow> hex_val (hex_digit d) = Some d"
proof -
  assume "d < 16"
  then have "d = 0 \<or> d = 1 \<or> d = 2 \<or> d = 3 \<or> d = 4 \<or> d = 5 \<or> d = 6 \<or> d = 7 \<or> d = 8
      \<or> d = 9 \<or> d = 10 \<or> d = 11 \<or> d = 12 \<or> d = 13 \<or> d = 14 \<or> d = 15"
    by arith
  then show ?thesis
    by (elim disjE) (simp_all add: hex_val_def hex_digit_def)
qed

lemma hex4_low: "n < 32 \<Longrightarrow> hex4 (CHR ''0'') (CHR ''0'') (hex_digit (n div 16)) (hex_digit (n mod 16)) = Some n"
proof -
  assume n: "n < 32"
  have a: "hex_val (hex_digit (n div 16)) = Some (n div 16)"
    using n by (intro hex_val_hex_digit) auto
  have b: "hex_val (hex_digit (n mod 16)) = Some (n mod 16)"
    by (intro hex_val_hex_digit) auto
  have z: "hex_val (CHR ''0'') = Some 0" by (simp add: hex_val_def)
  show ?thesis by (simp add: hex4_def a b z)
qed

lemma parse_chars_escape_char:
  "parse_chars (escape_char c @ rest) = cons_char c (parse_chars rest)"
proof -
  consider "c = dquote" | "c = bslash" | "c = CHR 0x08" | "c = CHR 0x0C" | "c = CHR 0x0A"
    | "c = CHR 0x0D" | "c = CHR 0x09"
    | "c \<notin> {dquote, bslash, CHR 0x08, CHR 0x0C, CHR 0x0A, CHR 0x0D, CHR 0x09}" "(of_char c :: nat) < 32"
    | "c \<notin> {dquote, bslash, CHR 0x08, CHR 0x0C, CHR 0x0A, CHR 0x0D, CHR 0x09}" "\<not> (of_char c :: nat) < 32"
    by blast
  then show ?thesis
  proof cases
    case 8
    then show ?thesis
      by (simp add: escape_char_def hex4_low)
  next
    case 9
    then show ?thesis by (simp add: escape_char_def)
  qed (simp_all add: escape_char_def unescape_def)
qed

lemma parse_chars_quote_body:
  "parse_chars (concat (map escape_char s) @ dquote # r) = Inr (s, r)"
  by (induction s) (simp_all add: parse_chars_escape_char cons_char_def del: parse_chars.simps, simp)

lemma parse_chars_quote: "parse_chars (tl (quote_json s) @ r) = Inr (s, r)"
  using parse_chars_quote_body [of s r] by (simp add: quote_json_def)

lemma val_follow_simps [simp]:
  "val_follow []" "val_follow (CHR '','' # r)" "val_follow (CHR '']'' # r)" "val_follow (CHR ''}'' # r)"
  by (simp_all add: val_follow_def)

lemma val_follow_num: "val_follow r \<Longrightarrow> num_follow r"
  by (cases r) (auto simp: val_follow_def num_follow_def is_digit_def)

lemma skip_ws_Cons: "\<not> is_ws c \<Longrightarrow> skip_ws (c # cs) = c # cs"
  by (simp add: skip_ws_def)

lemma expect_char_hit: "\<not> is_ws c \<Longrightarrow> expect_char c (c # r) = Some r"
  by (simp add: expect_char_def skip_ws_Cons)

lemma expect_char_miss: "\<not> is_ws d \<Longrightarrow> d \<noteq> c \<Longrightarrow> expect_char c (d # r) = None"
  by (simp add: expect_char_def skip_ws_Cons)

lemma val_start_not:
  assumes "val_start c"
  shows "\<not> is_ws c" "c \<noteq> CHR '',''" "c \<noteq> CHR '']''" "c \<noteq> CHR ''}''" "c \<noteq> CHR '':''"
  using assms by (auto simp: val_start_def is_ws_def is_digit_def)

lemma show_int_hd: "\<exists>c cs. show_int i = c # cs \<and> (c = CHR ''-'' \<or> is_digit c)"
  using show_nat_hd [of "nat i"] by (auto simp: show_int_def)

lemma json_text_hd: "\<exists>c cs. json_text v = c # cs \<and> val_start c"
proof (cases v)
  case (JNum i)
  then show ?thesis using show_int_hd [of i] by (auto simp: val_start_def)
qed (auto simp: val_start_def quote_json_def)

lemma json_text_nonempty: "json_text v \<noteq> []"
  using json_text_hd [of v] by auto

lemma parse_value_num:
  assumes "val_follow r" and "\<bar>i\<bar> \<le> 9007199254740991"
  shows "parse_value (Suc n) (show_int i @ r) = Inr (JNum i, r)"
proof -
  obtain c cs where h: "show_int i = c # cs" "c = CHR ''-'' \<or> is_digit c"
    using show_int_hd by blast
  have nws: "\<not> is_ws c" using h(2) by (auto simp: is_ws_def is_digit_def)
  have ne: "c \<noteq> CHR ''n''" "c \<noteq> CHR ''t''" "c \<noteq> CHR ''f''" "c \<noteq> dquote" "c \<noteq> CHR ''[''" "c \<noteq> CHR ''{''"
    using h(2) by (auto simp: is_digit_def)
  have "parse_number (c # cs @ r) = Inr (JNum i, r)"
    using parse_number_show_int [OF val_follow_num [OF assms(1)] assms(2)] h(1) by simp
  then show ?thesis
    using h(1) nws ne by (simp add: skip_ws_Cons)
qed

lemma parse_value_str: "parse_value (Suc n) (quote_json s @ r) = Inr (JStr s, r)"
proof -
  have "\<not> is_ws dquote" by (simp add: is_ws_def)
  then show ?thesis
    using parse_chars_quote_body [of s r]
    by (simp add: quote_json_def skip_ws_Cons)
qed

lemma parse_value_atoms:
  "parse_value (Suc n) (''null'' @ r) = Inr (JNull, r)"
  "parse_value (Suc n) (''true'' @ r) = Inr (JBool True, r)"
  "parse_value (Suc n) (''false'' @ r) = Inr (JBool False, r)"
  by (simp_all add: skip_ws_Cons is_ws_def strip_prefix_def)

lemma obj_of_members_distinct_aux:
  "distinct (map fst (acc @ kvs)) \<Longrightarrow>
   fold (\<lambda>kv acc. AList.update (fst kv) (snd kv) acc) kvs acc = acc @ kvs"
proof (induction kvs arbitrary: acc)
  case Nil
  then show ?case by simp
next
  case (Cons kv kvs)
  have "fst kv \<notin> fst ` set acc" using Cons.prems by auto
  then have "AList.update (fst kv) (snd kv) acc = acc @ [kv]"
    by (induction acc) auto
  moreover have "distinct (map fst ((acc @ [kv]) @ kvs))" using Cons.prems by simp
  ultimately show ?case using Cons.IH [of "acc @ [kv]"] by simp
qed

lemma obj_of_members_distinct:
  "distinct (map fst kvs) \<Longrightarrow> property_order kvs = kvs \<Longrightarrow> obj_of_members kvs = kvs"
  using obj_of_members_distinct_aux [of "[]" kvs] by (simp add: obj_of_members_def)

lemma property_order_names:
  "list_all (\<lambda>kv. \<not> index_key (fst kv)) kvs \<Longrightarrow> property_order kvs = kvs"
proof -
  assume a: "list_all (\<lambda>kv. \<not> index_key (fst kv)) kvs"
  then have "filter (\<lambda>kv. index_key (fst kv)) kvs = []"
    by (simp add: list_all_iff filter_empty_conv)
  moreover have "filter (\<lambda>kv. \<not> index_key (fst kv)) kvs = kvs"
    using a by (simp add: list_all_iff)
  ultimately show ?thesis by (simp add: property_order_def)
qed

lemma field_names_not_index:
  "\<not> index_key ''version''" "\<not> index_key ''type''" "\<not> index_key ''payload''"
  "\<not> index_key ''id''" "\<not> index_key ''address''"
  by (simp_all add: index_key_def is_digit_def)

lemma filter_defined_id:
  "\<forall>kv\<in>set kvs. json_value (snd kv) \<Longrightarrow> filter (\<lambda>kv. snd kv \<noteq> JUndefined) kvs = kvs"
  by (induction kvs) auto

lemma ser_elems_hd: "vs \<noteq> [] \<Longrightarrow> \<exists>c cs. json_elements vs = c # cs \<and> val_start c"
proof (cases vs)
  case (Cons v ws)
  obtain c cs where "json_text v = c # cs" "val_start c" using json_text_hd by blast
  then show ?thesis using Cons by (cases ws) auto
qed simp

lemma ser_membs_hd: "kvs \<noteq> [] \<Longrightarrow> \<exists>cs. json_members kvs = dquote # cs"
proof (cases kvs)
  case (Cons kv ws)
  then show ?thesis by (cases kv; cases ws) (auto simp: quote_json_def)
qed simp

lemma parse_value_arr:
  assumes "vs \<noteq> [] \<Longrightarrow> parse_elems n (json_elements vs @ CHR '']'' # r) = Inr (vs, r)"
  shows "parse_value (Suc n) (json_text (JArr vs) @ r) = Inr (JArr vs, r)"
proof (cases "vs = []")
  case True
  then show ?thesis by (simp add: skip_ws_Cons is_ws_def expect_char_hit)
next
  case False
  then obtain c cs where h: "json_elements vs = c # cs" "val_start c" using ser_elems_hd by blast
  have "expect_char (CHR '']'') (c # cs @ CHR '']'' # r) = None"
    using val_start_not [OF h(2)] by (intro expect_char_miss) auto
  then show ?thesis
    using assms False h(1) by (simp add: skip_ws_Cons is_ws_def)
qed

lemma parse_value_obj:
  assumes "kvs \<noteq> [] \<Longrightarrow> parse_membs n (json_members kvs @ CHR ''}'' # r) = Inr (kvs, r)"
    and "distinct (map fst kvs)" and "\<forall>kv\<in>set kvs. json_value (snd kv)"
    and "property_order kvs = kvs"
  shows "parse_value (Suc n) (json_text (JObj kvs) @ r) = Inr (JObj kvs, r)"
proof (cases "kvs = []")
  case True
  then show ?thesis by (simp add: skip_ws_Cons is_ws_def expect_char_hit)
next
  case False
  then obtain cs where h: "json_members kvs = dquote # cs" using ser_membs_hd by blast
  have "expect_char (CHR ''}'') (dquote # cs @ CHR ''}'' # r) = None"
    by (intro expect_char_miss) (auto simp: is_ws_def)
  then show ?thesis
    using assms False h
    by (simp add: skip_ws_Cons is_ws_def filter_defined_id obj_of_members_distinct)
qed

lemma parse_elems_last:
  assumes "parse_value n (json_text v @ CHR '']'' # r) = Inr (v, CHR '']'' # r)"
  shows "parse_elems (Suc n) (json_elements [v] @ CHR '']'' # r) = Inr ([v], r)"
  using assms by (simp add: expect_char_miss expect_char_hit is_ws_def)

lemma parse_elems_more:
  assumes "parse_value n (json_text v @ CHR '','' # rest) = Inr (v, CHR '','' # rest)"
    and "parse_elems n rest = Inr (vs, r)"
  shows "parse_elems (Suc n) (json_text v @ CHR '','' # rest) = Inr (v # vs, r)"
  using assms by (simp add: expect_char_hit is_ws_def)

lemma parse_member_head:
  "expect_char dquote (quote_json k @ CHR '':'' # rest) = Some (tl (quote_json k) @ CHR '':'' # rest)
   \<and> parse_chars (tl (quote_json k) @ CHR '':'' # rest) = Inr (k, CHR '':'' # rest)
   \<and> expect_char (CHR '':'') (CHR '':'' # rest) = Some rest"
  using parse_chars_quote_body [of k "CHR '':'' # rest"]
  by (simp add: quote_json_def expect_char_hit is_ws_def)

lemma parse_membs_last:
  assumes "parse_value n (json_text v @ CHR ''}'' # r) = Inr (v, CHR ''}'' # r)"
  shows "parse_membs (Suc n) (json_members [(k, v)] @ CHR ''}'' # r) = Inr ([(k, v)], r)"
  using assms parse_member_head [of k "json_text v @ CHR ''}'' # r"]
  by (simp add: expect_char_miss expect_char_hit is_ws_def)

lemma parse_membs_more:
  assumes "parse_value n (json_text v @ CHR '','' # rest) = Inr (v, CHR '','' # rest)"
    and "parse_membs n rest = Inr (kvs, r)"
  shows "parse_membs (Suc n) (quote_json k @ CHR '':'' # json_text v @ CHR '','' # rest) = Inr ((k, v) # kvs, r)"
  using assms parse_member_head [of k "json_text v @ CHR '','' # rest"]
  by (simp add: expect_char_hit is_ws_def)

lemma parse_json_text:
  shows "json_value v \<Longrightarrow> length (json_text v) \<le> n \<Longrightarrow> val_follow r
           \<Longrightarrow> parse_value n (json_text v @ r) = Inr (v, r)"
    and "\<forall>v\<in>set vs. json_value v \<Longrightarrow> vs \<noteq> [] \<Longrightarrow> length (json_elements vs) < n \<Longrightarrow> val_follow r
           \<Longrightarrow> parse_elems n (json_elements vs @ CHR '']'' # r) = Inr (vs, r)"
    and "\<forall>kv\<in>set kvs. json_value (snd kv) \<Longrightarrow> kvs \<noteq> [] \<Longrightarrow> length (json_members kvs) < n \<Longrightarrow> val_follow r
           \<Longrightarrow> parse_membs n (json_members kvs @ CHR ''}'' # r) = Inr (kvs, r)"
proof (induction v and vs and kvs arbitrary: n r and n r and n r rule: json_text_json_elements_json_members.induct)
  case 1
  then show ?case by simp
next
  case 2
  then obtain m where "n = Suc m" by (cases n) auto
  then show ?case using parse_value_atoms(1) by simp
next
  case (3 b)
  then obtain m where "n = Suc m" by (cases n) (auto split: if_splits)
  then show ?case using parse_value_atoms(2,3) by (cases b) simp_all
next
  case (4 i)
  have "length (show_int i) \<noteq> 0" using show_int_hd [of i] by auto
  with 4 obtain m where "n = Suc m" by (cases n) auto
  then show ?case using parse_value_num [OF 4(3), of i] 4(1) by simp
next
  case (5 s)
  then obtain m where "n = Suc m" by (cases n) (auto simp: quote_json_def)
  then show ?case using parse_value_str by simp
next
  case (6 vs)
  then obtain m where m: "n = Suc m" by (cases n) auto
  have "vs \<noteq> [] \<Longrightarrow> parse_elems m (json_elements vs @ CHR '']'' # r) = Inr (vs, r)"
    using 6 m by (intro "6.IH") (auto simp: list_all_iff)
  then show ?case unfolding m by (rule parse_value_arr)
next
  case (7 kvs)
  then obtain m where m: "n = Suc m" by (cases n) auto
  have f: "filter (\<lambda>kv. snd kv \<noteq> JUndefined) kvs = kvs"
    using 7(2) by (intro filter_defined_id) (simp add: list_all_iff)
  have "kvs \<noteq> [] \<Longrightarrow> parse_membs m (json_members kvs @ CHR ''}'' # r) = Inr (kvs, r)"
    using 7(2-) m "7.IH" [of m r] by (simp add: f list_all_iff)
  then show ?case unfolding m using 7(2) by (intro parse_value_obj) (auto simp: list_all_iff)
next
  case 8
  then show ?case by simp
next
  case (9 v)
  then obtain m where m: "n = Suc m" by (cases n) auto
  have "parse_value m (json_text v @ CHR '']'' # r) = Inr (v, CHR '']'' # r)"
    using 9 m by (intro "9.IH") auto
  then show ?case unfolding m by (rule parse_elems_last)
next
  case (10 v w vs)
  then obtain m where m: "n = Suc m" by (cases n) auto
  let ?rest = "json_elements (w # vs) @ CHR '']'' # r"
  have a: "parse_value m (json_text v @ CHR '','' # ?rest) = Inr (v, CHR '','' # ?rest)"
    using 10(3-) m by (intro "10.IH"(1)) auto
  have b: "parse_elems m ?rest = Inr (w # vs, r)"
    using 10(3-) m by (intro "10.IH"(2)) auto
  show ?case unfolding m using parse_elems_more [OF a b] by simp
next
  case 11
  then show ?case by simp
next
  case (12 k v)
  then obtain m where m: "n = Suc m" by (cases n) auto
  have "parse_value m (json_text v @ CHR ''}'' # r) = Inr (v, CHR ''}'' # r)"
    using 12 m by (intro "12.IH") auto
  then show ?case unfolding m by (rule parse_membs_last)
next
  case (13 k v kv kvs)
  then obtain m where m: "n = Suc m" by (cases n) auto
  let ?rest = "json_members (kv # kvs) @ CHR ''}'' # r"
  have a: "parse_value m (json_text v @ CHR '','' # ?rest) = Inr (v, CHR '','' # ?rest)"
    using 13(3-) m by (intro "13.IH"(1)) auto
  have b: "parse_membs m ?rest = Inr (kv # kvs, r)"
    using 13(3-) m by (intro "13.IH"(2)) auto
  show ?case unfolding m using parse_membs_more [OF a b, of k] by simp
qed

theorem JSON_parse_stringify: "json_value v \<Longrightarrow> JSON_parse (json_text v) = Inr v"
  using parse_json_text(1) [of v "Suc (length (json_text v))" "[]"]
  by (simp add: JSON_parse_def skip_ws_def)

theorem JSON_parse_stringify_value: "json_value v \<Longrightarrow> JSON_parse (JSON_stringify v) = Inr v"
  by (simp add: JSON_stringify_def JSON_parse_stringify)

section \<open>Serialization round trip of messages\<close>

lemma new_Message_wire_safe:
  "json_value p \<Longrightarrow> uuid \<noteq> [] \<Longrightarrow> wire_safe (new_Message (JStr v) (JStr t) p (JStr i) uuid)"
  by (simp add: wire_safe_def new_Message_def truthy_def)

lemma fromJSON_toJSON_wire_safe:
  assumes "wire_safe E"
  shows "fromJSON uuid (toJSON E) = Inr E"
proof -
  let ?obj = "JObj [(''version'', version E), (''type'', type E),
                    (''payload'', payload E), (''id'', msg_id E)]"
  have "json_value ?obj"
    using assms by (simp add: wire_safe_def property_order_names field_names_not_index)
  then have "JSON_parse (toJSON E) = Inr ?obj"
    unfolding toJSON_def by (rule JSON_parse_stringify_value)
  moreover have "truthy (msg_id E)" using assms by (simp add: wire_safe_def)
  ultimately show ?thesis
    by (simp add: fromJSON_def new_Message_def nullish_def)
qed

text \<open>
  Claim C9 says that \<^verbatim>\<open>fromJSON(E.toJSON())\<close> has the fields of \<open>E\<close> for every message
  \<open>E\<close>.  The payload is typed \<^verbatim>\<open>any\<close>, and JSON text does not hold every value: for a
  payload with the array \<^verbatim>\<open>[undefined]\<close> the message read back has the array
  \<^verbatim>\<open>[null]\<close>.  The field \<^verbatim>\<open>id\<close> is public, and for a message whose id is the empty
  string the constructor called by \<^verbatim>\<open>fromJSON\<close> draws a fresh id.
\<close>

theorem fromJSON_toJSON_loses:
  "fromJSON ''fresh'' (toJSON (element_example JUndefined)) = Inr (element_example JNull)
   \<and> element_example JNull \<noteq> element_example JUndefined
   \<and> fromJSON ''fresh'' (toJSON empty_id_example) = Inr (empty_id_example\<lparr>msg_id := JStr ''fresh''\<rparr>)
   \<and> empty_id_example\<lparr>msg_id := JStr ''fresh''\<rparr> \<noteq> empty_id_example"
proof -
  have a: "fromJSON ''fresh'' (toJSON (element_example JUndefined)) = Inr (element_example JNull)"
    by code_simp
  have b: "element_example JNull \<noteq> element_example JUndefined"
    by (simp add: element_example_def)
  have c: "fromJSON ''fresh'' (toJSON empty_id_example)
           = Inr (empty_id_example\<lparr>msg_id := JStr ''fresh''\<rparr>)"
    by code_simp
  have d: "empty_id_example\<lparr>msg_id := JStr ''fresh''\<rparr> \<noteq> empty_id_example"
    by (simp add: empty_id_example_def tx_request_example_def)
  show ?thesis using a b c d by simp
qed

text \<open>
  Claim C9, amended.  For every message \<open>E\<close> whose version, type, payload and id are
  values that JSON text represents exactly (no \<^verbatim>\<open>undefined\<close> anywhere, properties with
  distinct names in the order of enumeration, integral numbers of magnitude at most
  \<^verbatim>\<open>2^53 - 1\<close>) and whose id is not falsy, \<^verbatim>\<open>Message.fromJSON(E.toJSON())\<close> returns a
  message with the same version, type, payload and id: it returns \<open>E\<close>, whatever
  \<^verbatim>\<open>uuidv4()\<close> would have produced.
\<close>

theorem fromJSON_toJSON:
  assumes "wire_safe E"
  shows "fromJSON uuid (toJSON E) = Inr E"
  using assms by (rule fromJSON_toJSON_wire_safe)

theorem fromJSON_toJSON_witness:
  "wire_safe tx_request_example
   \<and> fromJSON ''fresh'' (toJSON tx_request_example) = Inr tx_request_example"
proof -
  have w: "wire_safe tx_request_example"
    by code_simp
  show ?thesis using w fromJSON_toJSON [OF w, of "''fresh''"] by simp
qed

section \<open>Chunking followed by reassembly\<close>

lemma substring_slice: "i \<le> length s \<Longrightarrow> substring s i (i + n) = take n (drop i s)"
  by (auto simp: substring_def Let_def min_def max_def)

lemma chunk_loop_total:
  "0 < S \<Longrightarrow> \<exists>cs. chunk_loop s S i acc = Some (acc @ cs) \<and> concat cs = drop i s"
proof (induction "length s - i" arbitrary: i acc rule: less_induct)
  case less
  show ?case
  proof (cases "i < length s")
    case True
    let ?sub = "substring s i (i + S)"
    have "length s - (i + S) < length s - i" using True less.prems by simp
    from less.hyps [OF this less.prems, of "acc @ [?sub]"]
    obtain cs where cs: "chunk_loop s S (i + S) (acc @ [?sub]) = Some ((acc @ [?sub]) @ cs)"
      "concat cs = drop (i + S) s"
      by blast
    have "chunk_loop s S i acc = Some (acc @ (?sub # cs))"
      using True cs(1) by (subst chunk_loop.simps) simp
    moreover have "concat (?sub # cs) = drop i s"
    proof -
      have "?sub = take S (drop i s)" using True by (simp add: substring_slice)
      moreover have "concat cs = drop S (drop i s)" using cs(2) by (simp add: add.commute)
      ultimately show ?thesis by (simp only: concat.simps append_take_drop_id)
    qed
    ultimately show ?thesis by blast
  next
    case False
    then have "chunk_loop s S i acc = Some (acc @ [])"
      by (subst chunk_loop.simps) simp
    with False show ?thesis by auto
  qed
qed

lemma filter_same_key:
  "distinct (map k zs) \<Longrightarrow> x \<in> set zs \<Longrightarrow> filter (\<lambda>y. k x = k y) zs = [x]"
proof (induction zs)
  case Nil
  then show ?case by simp
next
  case (Cons z zs)
  show ?case
  proof (cases "x = z")
    case True
    have "\<forall>y\<in>set zs. k y \<noteq> k z" using Cons.prems(1) by (force simp: image_iff)
    then have "filter (\<lambda>y. k z = k y) zs = []" by (auto simp: filter_empty_conv)
    with True show ?thesis by simp
  next
    case False
    then have x: "x \<in> set zs" using Cons.prems(2) by simp
    then have "k x \<noteq> k z" using Cons.prems(1) by (force simp: image_iff)
    then show ?thesis using Cons.IH x Cons.prems(1) by simp
  qed
qed

lemma sort_key_permutation:
  assumes "mset xs = mset ys" and "sorted (map k ys)" and "distinct (map k ys)"
  shows "sort_key k xs = ys"
proof (rule properties_for_sort_key)
  show "mset ys = mset xs" using assms(1) by simp
  show "sorted (map k ys)" by (rule assms(2))
  fix x assume x: "x \<in> set ys"
  have "mset (map k xs) = mset (map k ys)" using assms(1) by simp
  then have dx: "distinct (map k xs)" using assms(3) by (metis mset_eq_imp_distinct_iff)
  have "x \<in> set xs" using x assms(1) by (metis mset_eq_setD)
  then show "filter (\<lambda>y. k x = k y) ys = filter (\<lambda>y. k x = k y) xs"
    using x dx assms(3) by (simp add: filter_same_key)
qed

lemma createChunk_fields:
  "payload (createChunk oid i n d ty u) =
     JObj [(''originalMessageId'', oid), (''chunkIndex'', JNum (int i)),
           (''totalChunks'', JNum (int n)), (''chunkData'', JStr d), (''originalType'', ty)]"
  "chunkIndex (createChunk oid i n d ty u) = JNum (int i)"
  "totalChunks (createChunk oid i n d ty u) = JNum (int n)"
  "originalMessageId (createChunk oid i n d ty u) = oid"
  "chunkData (createChunk oid i n d ty u) = JStr d"
  by (simp_all add: createChunk_def new_Message_def chunkIndex_def totalChunks_def
        originalMessageId_def chunkData_def)

lemma chunkMessage_chunk_messages:
  "chunk_loop (toJSON E) S 0 [] = Some chunks \<Longrightarrow> chunkMessage E S uuids = Some (chunk_messages E uuids chunks)"
  by (simp add: chunkMessage_def chunk_messages_def case_prod_beta)

lemma chunk_messages_keys:
  "map chunk_key (chunk_messages E uuids chunks) = map int [0..<length chunks]"
proof -
  have "map chunk_key (chunk_messages E uuids chunks) = map (int \<circ> fst) (enumerate 0 chunks)"
    by (simp add: chunk_messages_def chunk_key_def createChunk_fields comp_def)
  also have "\<dots> = map int [0..<length chunks]"
    unfolding map_map [symmetric] by simp
  finally show ?thesis .
qed

lemma chunk_messages_data:
  "concat (map (\<lambda>chunk. join_text (chunkData chunk)) (chunk_messages E uuids chunks)) = concat chunks"
proof -
  have "map (\<lambda>chunk. join_text (chunkData chunk)) (chunk_messages E uuids chunks)
        = map snd (enumerate 0 chunks)"
    by (simp add: chunk_messages_def createChunk_fields comp_def)
  then show ?thesis by simp
qed

lemma chunk_messages_each:
  assumes "c \<in> set (chunk_messages E uuids chunks)" and "primitive (msg_id E)"
  shows "\<not> nullish (payload c)" "modelled_chunk c"
    "totalChunks c = JNum (int (length chunks))" "originalMessageId c = msg_id E"
proof -
  obtain i d u where c: "c = createChunk (msg_id E) i (length chunks) d (type E) u"
    using assms(1) by (auto simp: chunk_messages_def)
  show "\<not> nullish (payload c)" "modelled_chunk c"
    "totalChunks c = JNum (int (length chunks))" "originalMessageId c = msg_id E"
    using assms(2) unfolding c
    by (simp_all add: createChunk_fields nullish_def modelled_chunk_def)
qed

lemma sorted_distinct_int_upt: "sorted (map int [0..<n]) \<and> distinct (map int [0..<n])"
  by (simp add: sorted_map distinct_map inj_on_def sorted_wrt_iff_nth_less)

lemma toJSON_nonempty: "toJSON E \<noteq> []"
  by (simp add: toJSON_def JSON_stringify_def)

lemma reassembleChunks_permutation:
  assumes ws: "wire_safe E" and prim: "primitive (msg_id E)"
    and loop: "chunk_loop (toJSON E) S 0 [] = Some chunks" and cat: "concat chunks = toJSON E"
    and perm: "mset delivered = mset (chunk_messages E uuids chunks)"
  shows "reassembleChunks uuid delivered = Inr (Some E)"
proof -
  let ?cs = "chunk_messages E uuids chunks"
  have ne: "chunks \<noteq> []" using cat toJSON_nonempty [of E] by auto
  have len: "length ?cs = length chunks" by (simp add: chunk_messages_def)
  then obtain first others where cs: "?cs = first # others" using ne by (cases ?cs) auto
  have dne: "delivered \<noteq> []" using perm cs by auto
  have sets: "set delivered = set ?cs" using perm by (metis mset_eq_setD)
  have ok1: "\<not> list_ex (\<lambda>chunk. nullish (payload chunk)) delivered"
    using sets chunk_messages_each(1) [OF _ prim] by (auto simp: list_ex_iff)
  have ok2: "\<not> list_ex (\<lambda>chunk. \<not> modelled_chunk chunk) delivered"
    using sets chunk_messages_each(2) [OF _ prim] by (auto simp: list_ex_iff)
  have srt: "sort_key (\<lambda>chunk. number_of (chunkIndex chunk)) delivered = ?cs"
  proof -
    have "sort_key chunk_key delivered = ?cs"
      using perm sorted_distinct_int_upt [of "length chunks"]
      by (intro sort_key_permutation) (simp_all add: chunk_messages_keys)
    then show ?thesis by (simp add: chunk_key_def [abs_def])
  qed
  have fst_in: "first \<in> set ?cs" using cs by simp
  have tot: "totalChunks first = JNum (int (length (first # others)))"
    using chunk_messages_each(3) [OF fst_in prim] len cs by simp
  have ids: "list_all (\<lambda>chunk. originalMessageId chunk = originalMessageId first) (first # others)"
  proof -
    have "\<forall>c\<in>set ?cs. originalMessageId c = originalMessageId first"
      using chunk_messages_each(4) [OF _ prim] fst_in by simp
    then show ?thesis unfolding cs by (simp add: list_all_iff)
  qed
  have data: "concat (map (\<lambda>chunk. join_text (chunkData chunk)) (first # others)) = toJSON E"
    using chunk_messages_data [of E uuids chunks] cat cs by simp
  have "reassembleChunks uuid delivered =
        (case fromJSON uuid (toJSON E) of
           Inl e \<Rightarrow> if e = NotModelled then Inl NotModelled else Inr None
         | Inr m \<Rightarrow> Inr (Some m))"
    unfolding reassembleChunks_def
    using dne ok1 ok2 tot ids data
    by (simp only: srt cs if_False if_True list.case not_not refl simp_thms)
  then show ?thesis by (simp add: fromJSON_toJSON_wire_safe [OF ws])
qed

text \<open>
  Claim C1 says that reassembling the chunks of \<^verbatim>\<open>chunkMessage(E, S)\<close> returns a message
  equal to \<open>E\<close>, for every message \<open>E\<close> longer than the threshold.  The reassembled
  message is read from JSON text: for a payload with the array \<^verbatim>\<open>[undefined]\<close> it has
  the array \<^verbatim>\<open>[null]\<close>, and for a message whose id is the empty string it has a fresh
  id.  Both messages are longer than the threshold of 120 characters.
\<close>

theorem reassemble_chunkMessage_loses:
  "shouldChunkMessage (length (toJSON (element_example JUndefined))) narrow_config
   \<and> map_option (reassembleChunks ''fresh'') (chunkMessage (element_example JUndefined) 80 (\<lambda>i. ''u''))
       = Some (Inr (Some (element_example JNull)))
   \<and> element_example JNull \<noteq> element_example JUndefined
   \<and> shouldChunkMessage (length (toJSON empty_id_example)) narrow_config
   \<and> map_option (reassembleChunks ''fresh'') (chunkMessage empty_id_example 80 (\<lambda>i. ''u''))
       = Some (Inr (Some (empty_id_example\<lparr>msg_id := JStr ''fresh''\<rparr>)))
   \<and> empty_id_example\<lparr>msg_id := JStr ''fresh''\<rparr> \<noteq> empty_id_example"
proof -
  have "length (toJSON (element_example JUndefined)) = 180"
    by code_simp
  then have a: "shouldChunkMessage (length (toJSON (element_example JUndefined))) narrow_config"
    by (simp add: shouldChunkMessage_def narrow_config_def)
  have b: "map_option (reassembleChunks ''fresh'')
             (chunkMessage (element_example JUndefined) 80 (\<lambda>i. ''u''))
           = Some (Inr (Some (element_example JNull)))"
    by code_simp
  have c: "element_example JNull \<noteq> element_example JUndefined"
    by (simp add: element_example_def)
  have "length (toJSON empty_id_example) = 202"
    by code_simp
  then have d: "shouldChunkMessage (length (toJSON empty_id_example)) narrow_config"
    by (simp add: shouldChunkMessage_def narrow_config_def)
  have e: "map_option (reassembleChunks ''fresh'') (chunkMessage empty_id_example 80 (\<lambda>i. ''u''))
           = Some (Inr (Some (empty_id_example\<lparr>msg_id := JStr ''fresh''\<rparr>)))"
    by code_simp
  have f: "empty_id_example\<lparr>msg_id := JStr ''fresh''\<rparr> \<noteq> empty_id_example"
    by (simp add: empty_id_example_def tx_request_example_def)
  show ?thesis using a b c d e f by simp
qed

text \<open>
  Claim C1, amended.  Let \<open>E\<close> be a message whose version, type, payload and id are
  values that JSON text represents exactly (no \<^verbatim>\<open>undefined\<close> anywhere, properties with
  distinct names in the order of enumeration, integral numbers of magnitude at most
  \<^verbatim>\<open>2^53 - 1\<close>), whose id is a primitive value that is not falsy (the class declares a
  string), and whose serialized length exceeds the chunking threshold of a
  configuration; let the chunk size \<open>S\<close> be positive.  Then \<^verbatim>\<open>chunkMessage(E, S)\<close>
  returns, and \<^verbatim>\<open>reassembleChunks\<close> applied to its chunks in any order of delivery
  returns \<open>E\<close> itself: same version, type, payload and id.  (The proof does not use the
  threshold: the property holds for shorter messages as well.)
\<close>

theorem reassemble_chunkMessage:
  assumes "wire_safe E" and "primitive (msg_id E)" and "0 < S"
    and "shouldChunkMessage (length (toJSON E)) cfg"
  shows "\<exists>chunks. chunkMessage E S uuids = Some chunks
           \<and> (\<forall>delivered. mset delivered = mset chunks
                  \<longrightarrow> reassembleChunks uuid delivered = Inr (Some E))"
proof -
  obtain chunks where loop: "chunk_loop (toJSON E) S 0 [] = Some chunks"
    and cat: "concat chunks = toJSON E"
    using chunk_loop_total [OF assms(3), of "toJSON E" 0 "[]"] by auto
  have "chunkMessage E S uuids = Some (chunk_messages E uuids chunks)"
    using loop by (rule chunkMessage_chunk_messages)
  moreover have "reassembleChunks uuid delivered = Inr (Some E)"
    if "mset delivered = mset (chunk_messages E uuids chunks)" for delivered
    using assms(1,2) loop cat that by (rule reassembleChunks_permutation)
  ultimately show ?thesis by blast
qed

theorem reassemble_chunkMessage_witness:
  "wire_safe tx_request_example \<and> primitive (msg_id tx_request_example) \<and> (0::nat) < 80
   \<and> shouldChunkMessage (length (toJSON tx_request_example)) narrow_config
   \<and> (\<exists>chunks. chunkMessage tx_request_example 80 (\<lambda>i. ''u'') = Some chunks
         \<and> length chunks = 3
         \<and> reassembleChunks ''fresh'' [chunks ! 2, chunks ! 0, chunks ! 1]
             = Inr (Some tx_request_example))"
proof -
  have w: "wire_safe tx_request_example"
    by code_simp
  have p: "primitive (msg_id tx_request_example)"
    by (simp add: tx_request_example_def)
  have "length (toJSON tx_request_example) = 205"
    by code_simp
  then have s: "shouldChunkMessage (length (toJSON tx_request_example)) narrow_config"
    by (simp add: shouldChunkMessage_def narrow_config_def)
  obtain chunks where c: "chunkMessage tx_request_example 80 (\<lambda>i. ''u'') = Some chunks"
    and r: "\<And>delivered. mset delivered = mset chunks
              \<Longrightarrow> reassembleChunks ''fresh'' delivered = Inr (Some tx_request_example)"
    using reassemble_chunkMessage [OF w p _ s, of 80 "\<lambda>i. ''u''" "''fresh''"] by auto
  have "map_option length (chunkMessage tx_request_example 80 (\<lambda>i. ''u'')) = Some 3"
    by code_simp
  then have l: "length chunks = 3" using c by simp
  then obtain a b c where abc: "chunks = [a, b, c]"
    by (auto simp: length_Suc_conv numeral_3_eq_3)
  then have "mset [chunks ! 2, chunks ! 0, chunks ! 1] = mset chunks"
    by simp
  then have "reassembleChunks ''fresh'' [chunks ! 2, chunks ! 0, chunks ! 1]
             = Inr (Some tx_request_example)"
    by (rule r)
  with w p s c l show ?thesis by simp
qed

section \<open>Version policy of the EIP transport\<close>

lemma validateEIPMessage_not_nullish: "validateEIPMessage message = Inr True \<Longrightarrow> \<not> nullish message"
  by (auto simp: validateEIPMessage_def nullish_def split: if_splits)

text \<open>
  Claim C4.  Let a message that passed \<^verbatim>\<open>validateEIPMessage\<close> declare a version \<open>v\<close> other
  than \<open>1.0\<close> (whatever its type).  Then \<^verbatim>\<open>handleEIPMessage\<close> leaves the transport as it
  is, emits no message event (only the version-mismatch event), and passes to
  \<^verbatim>\<open>sendEIPMessage\<close> an error message of version \<open>1.0\<close> whose payload holds the text
  \<open>Unsupported protocol version: v\<close> and, as \<^verbatim>\<open>received_id\<close>, the id of the message
  received.
\<close>

theorem unsupported_version_answered:
  assumes "validateEIPMessage message = Inr True"
    and "get_prop message ''version'' = JStr v" and "v \<noteq> ''1.0''"
  shows "\<exists>err. handleEIPMessage new_id s message
                 = (s, [Emit (VersionMismatchEvent (JStr v) ''1.0''), Send err])
           \<and> messages_emitted (snd (handleEIPMessage new_id s message)) = []
           \<and> get_prop err ''version'' = JStr ''1.0''
           \<and> get_prop err ''type'' = JStr ''error''
           \<and> get_prop (get_prop err ''payload'') ''message''
               = JStr (''Unsupported protocol version: '' @ v)
           \<and> get_prop (get_prop err ''payload'') ''received_id'' = get_prop message ''id''"
proof -
  have "\<not> nullish message" using assms(1) by (rule validateEIPMessage_not_nullish)
  then show ?thesis
    using assms(2,3)
    by (simp add: handleEIPMessage_def isVersionSupported_def EIP_PROTOCOL_VERSION_def
        createEIPMessage_def truthy_def)
qed

theorem unsupported_version_answered_witness:
  "validateEIPMessage connect_v2_example = Inr True
   \<and> get_prop connect_v2_example ''version'' = JStr ''2.0'' \<and> ''2.0'' \<noteq> ''1.0''
   \<and> (\<exists>err. handleEIPMessage ''e-1'' listening_transport connect_v2_example
                = (listening_transport, [Emit (VersionMismatchEvent (JStr ''2.0'') ''1.0''), Send err])
          \<and> get_prop err ''version'' = JStr ''1.0''
          \<and> get_prop (get_prop err ''payload'') ''message''
              = JStr ''Unsupported protocol version: 2.0''
          \<and> get_prop (get_prop err ''payload'') ''received_id'' = JStr ''c-7'')"
proof -
  have a: "validateEIPMessage connect_v2_example = Inr True"
    by (simp add: validateEIPMessage_def connect_v2_example_def EIP_MESSAGE_TYPES_def)
  have b: "get_prop connect_v2_example ''version'' = JStr ''2.0''"
    by (simp add: connect_v2_example_def)
  have c: "get_prop connect_v2_example ''id'' = JStr ''c-7''"
    by (simp add: connect_v2_example_def)
  show ?thesis
    using unsupported_version_answered [OF a b, of "''e-1''" listening_transport] a b c
    by auto
qed

section \<open>A reassembled EIP message is emitted unchecked\<close>

text \<open>
  Claim C7 says that a reassembled message goes through the same delivery path as a
  message received directly, version check and validation included.  In
  \<^verbatim>\<open>EIPAudioProtocol\<close> it does not: \<^verbatim>\<open>handleChunk\<close> emits the parsed text itself.  Four audio
  frames carry the chunks of a connect request of version 2.0; the request is emitted as
  a message event and no error is sent.  The same request received in one frame is
  not emitted and is answered by the version error.
\<close>

theorem reassembled_message_not_checked:
  "list_all (\<lambda>text. length text < 140) v2_chunk_texts
   \<and> messages_emitted (snd (EIP_frames ''e'' listening_transport v2_chunk_texts))
       = [connect_v2_example]
   \<and> sends (snd (EIP_frames ''e'' listening_transport v2_chunk_texts)) = []
   \<and> messages_emitted (snd (EIP_frames ''e'' listening_transport [JSON_stringify connect_v2_example]))
       = []
   \<and> map (\<lambda>err. get_prop (get_prop err ''payload'') ''message'')
         (sends (snd (EIP_frames ''e'' listening_transport [JSON_stringify connect_v2_example])))
       = [JStr ''Unsupported protocol version: 2.0'']"
proof -
  have a: "list_all (\<lambda>text. length text < 140) v2_chunk_texts"
    by code_simp
  have b: "messages_emitted (snd (EIP_frames ''e'' listening_transport v2_chunk_texts))
           = [connect_v2_example]"
    by code_simp
  have c: "sends (snd (EIP_frames ''e'' listening_transport v2_chunk_texts)) = []"
    by code_simp
  have d: "messages_emitted (snd (EIP_frames ''e'' listening_transport [JSON_stringify connect_v2_example]))
           = []"
    by code_simp
  have e: "map (\<lambda>err. get_prop (get_prop err ''payload'') ''message'')
             (sends (snd (EIP_frames ''e'' listening_transport [JSON_stringify connect_v2_example])))
           = [JStr ''Unsupported protocol version: 2.0'']"
    by code_simp
  show ?thesis using a b c d e by simp
qed

section \<open>A wait is resolved once\<close>

lemma foldl_messageHandler:
  "foldl (messageHandler type_of m) w hs =
     w\<lparr>timers := filter (\<lambda>t. \<not> list_ex (\<lambda>h. fst t = fst h \<and> type_of m = JStr (snd h)) hs) (timers w),
       handlers := filter (\<lambda>g. \<not> list_ex (\<lambda>h. fst g = fst h \<and> type_of m = JStr (snd h)) hs) (handlers w),
       resolutions := resolutions w @ map (\<lambda>h. (fst h, Some m)) (filter (\<lambda>h. type_of m = JStr (snd h)) hs)\<rparr>"
proof (induction hs arbitrary: w)
  case Nil
  then show ?case by simp
next
  case (Cons h hs)
  show ?case
  proof (cases "type_of m = JStr (snd h)")
    case True
    have step: "messageHandler type_of m w h =
        w\<lparr>timers := filter (\<lambda>t. fst t \<noteq> fst h) (timers w),
          handlers := filter (\<lambda>g. fst g \<noteq> fst h) (handlers w),
          resolutions := resolutions w @ [(fst h, Some m)]\<rparr>"
      using True by (simp add: messageHandler_def)
    have f: "filter P (filter (\<lambda>t. fst t \<noteq> fst h) xs)
             = filter (\<lambda>t. \<not> (fst t = fst h \<or> \<not> P t)) xs" for P and xs :: "(nat \<times> 'c) list"
      by (induction xs) auto
    show ?thesis
      unfolding foldl_Cons step Cons.IH using True by (simp add: f)
  next
    case False
    have step: "messageHandler type_of m w h = w"
      using False by (simp add: messageHandler_def)
    show ?thesis
      unfolding foldl_Cons step Cons.IH using False by simp
  qed
qed

lemma deliver_view:
  "handlers (deliver type_of m w) =
     filter (\<lambda>g. \<not> (\<exists>h\<in>set (handlers w). fst g = fst h \<and> type_of m = JStr (snd h))) (handlers w)"
  "timers (deliver type_of m w) =
     filter (\<lambda>t. \<not> (\<exists>h\<in>set (handlers w). fst t = fst h \<and> type_of m = JStr (snd h))) (timers w)"
  "resolutions (deliver type_of m w) =
     resolutions w @ map (\<lambda>h. (fst h, Some m)) (filter (\<lambda>h. type_of m = JStr (snd h)) (handlers w))"
  "next_promise (deliver type_of m w) = next_promise w"
  by (simp_all add: deliver_def foldl_messageHandler list_ex_iff)

lemma timeout_fires_view:
  "handlers (timeout_fires q w) =
     (if timer_armed w q then filter (\<lambda>g. fst g \<noteq> q) (handlers w) else handlers w)"
  "timers (timeout_fires q w) = filter (\<lambda>t. fst t \<noteq> q) (timers w)"
  "resolutions (timeout_fires q w) =
     (if timer_armed w q then resolutions w @ [(q, None)] else resolutions w)"
  "next_promise (timeout_fires q w) = next_promise w"
  by (auto simp: timeout_fires_def timer_armed_def list_ex_iff filter_id_conv)

lemma wait_for_view:
  "fst (wait_for T t d w) = next_promise w"
  "handlers (snd (wait_for T t d w)) = handlers w @ [(next_promise w, T)]"
  "map fst (timers (snd (wait_for T t d w))) = map fst (timers w) @ [next_promise w]"
  "resolutions (snd (wait_for T t d w)) = resolutions w"
  "next_promise (snd (wait_for T t d w)) = Suc (next_promise w)"
  by (simp_all add: wait_for_def Let_def)

lemma handler_unique:
  "waits_ok w \<Longrightarrow> (p, T) \<in> set (handlers w) \<Longrightarrow> h \<in> set (handlers w) \<Longrightarrow> fst h = p \<Longrightarrow> h = (p, T)"
  by (cases h) (auto simp: waits_ok_def dest: eq_key_imp_eq_value)

lemma waits_ok_step:
  assumes "waits_ok w"
  shows "waits_ok (wait_step type_of d w i)"
proof (cases i)
  case (Deliver m)
  show ?thesis
    using assms unfolding Deliver waits_ok_def
    by (auto simp: deliver_view list_all_iff distinct_map_filter)
next
  case (TimerFires q)
  show ?thesis
    using assms unfolding TimerFires waits_ok_def
    by (auto simp: timeout_fires_view list_all_iff distinct_map_filter timer_armed_def list_ex_iff)
next
  case (Wait T t)
  have "next_promise w \<notin> fst ` set (handlers w)" "next_promise w \<notin> fst ` set (timers w)"
    using assms by (auto simp: waits_ok_def list_all_iff)
  then show ?thesis
    using assms unfolding Wait waits_ok_def
    by (auto simp: wait_for_view list_all_iff less_Suc_eq wait_for_def Let_def)
qed

lemma pending_deliver_match:
  assumes "waits_ok w" and "pending w p T" and "type_of m = JStr T"
  shows "settled (deliver type_of m w) p (Some m)"
proof -
  have u: "\<And>h. h \<in> set (handlers w) \<Longrightarrow> fst h = p \<Longrightarrow> h = (p, T)"
    using assms handler_unique [of w p T] by (simp add: pending_def)
  have inh: "(p, T) \<in> set (handlers w)" using assms(2) by (simp add: pending_def)
  have f: "filter (\<lambda>h. fst h = p) (handlers w) = [(p, T)]"
  proof -
    have "distinct (map fst (handlers w))" using assms(1) by (simp add: waits_ok_def)
    then show ?thesis using filter_same_key [of fst "handlers w" "(p, T)"] inh
      by (simp add: eq_commute)
  qed
  have a: "\<not> handler_registered (deliver type_of m w) p"
    using inh assms(3) by (force simp: handler_registered_def list_ex_iff deliver_view)
  have b: "\<not> timer_armed (deliver type_of m w) p"
    using inh assms(3) by (force simp: timer_armed_def list_ex_iff deliver_view)
  have "filter (\<lambda>r. fst r = p) (map (\<lambda>h. (fst h, Some m)) (filter (\<lambda>h. type_of m = JStr (snd h)) (handlers w)))
        = map (\<lambda>h. (fst h, Some m)) (filter (\<lambda>h. type_of m = JStr (snd h)) (filter (\<lambda>h. fst h = p) (handlers w)))"
    by (simp add: filter_map comp_def conj_commute)
  also have "\<dots> = [(p, Some m)]" using assms(3) by (simp add: f)
  finally have c: "resolved_with (deliver type_of m w) p = [Some m]"
    using assms(2) by (simp add: resolved_with_def deliver_view pending_def)
  show ?thesis using a b c assms(2) by (simp add: settled_def pending_def deliver_view)
qed

lemma pending_deliver_other:
  assumes "waits_ok w" and "pending w p T" and "type_of m \<noteq> JStr T"
  shows "pending (deliver type_of m w) p T"
proof -
  have u: "\<And>h. h \<in> set (handlers w) \<Longrightarrow> fst h = p \<Longrightarrow> h = (p, T)"
    using assms handler_unique [of w p T] by (simp add: pending_def)
  have inh: "(p, T) \<in> set (handlers w)" using assms(2) by (simp add: pending_def)
  have nomatch: "\<not> (\<exists>h\<in>set (handlers w). p = fst h \<and> type_of m = JStr (snd h))"
    using u assms(3) by force
  have a: "(p, T) \<in> set (handlers (deliver type_of m w))"
    using inh nomatch by (simp add: deliver_view)
  have b: "timer_armed (deliver type_of m w) p"
    using assms(2) nomatch by (auto simp: timer_armed_def list_ex_iff deliver_view pending_def)
  have "filter (\<lambda>r. fst r = p) (map (\<lambda>h. (fst h, Some m)) (filter (\<lambda>h. type_of m = JStr (snd h)) (handlers w))) = []"
    using nomatch by (auto simp: filter_empty_conv)
  then have c: "resolved_with (deliver type_of m w) p = []"
    using assms(2) by (simp add: resolved_with_def deliver_view pending_def)
  show ?thesis using a b c assms(2) by (simp add: pending_def deliver_view)
qed

lemma pending_timeout:
  assumes "pending w p T"
  shows "settled (timeout_fires p w) p None"
    and "q \<noteq> p \<Longrightarrow> pending (timeout_fires q w) p T"
  using assms
  by (auto simp: pending_def settled_def timeout_fires_view handler_registered_def timer_armed_def
        resolved_with_def list_ex_iff)

lemma pending_wait:
  assumes "pending w p T"
  shows "pending (snd (wait_for e t d w)) p T"
  using assms
  by (auto simp: pending_def timer_armed_def resolved_with_def list_ex_iff wait_for_def Let_def)

lemma settled_step:
  assumes "settled w p v"
  shows "settled (wait_step type_of d w i) p v"
proof (cases i)
  case (Deliver m)
  have "filter (\<lambda>r. fst r = p) (map (\<lambda>h. (fst h, Some m)) (filter (\<lambda>h. type_of m = JStr (snd h)) (handlers w))) = []"
    using assms by (auto simp: settled_def handler_registered_def list_ex_iff filter_empty_conv)
  then show ?thesis
    using assms unfolding Deliver
    by (auto simp: settled_def deliver_view handler_registered_def timer_armed_def
        resolved_with_def list_ex_iff)
next
  case (TimerFires q)
  show ?thesis
    using assms unfolding TimerFires
    by (auto simp: settled_def timeout_fires_view handler_registered_def timer_armed_def
        resolved_with_def list_ex_iff)
next
  case (Wait e t)
  show ?thesis
    using assms unfolding Wait
    by (auto simp: settled_def wait_for_view handler_registered_def timer_armed_def
        resolved_with_def list_ex_iff wait_for_def Let_def)
qed

lemma wait_run_append:
  "wait_run type_of d w (xs @ ys) = wait_run type_of d (wait_run type_of d w xs) ys"
  by (simp add: wait_run_def)

lemma wait_run_Cons:
  "wait_run type_of d w (i # inputs) = wait_run type_of d (wait_step type_of d w i) inputs"
  by (simp add: wait_run_def)

lemma waits_ok_run: "waits_ok w \<Longrightarrow> waits_ok (wait_run type_of d w inputs)"
  by (induction inputs arbitrary: w) (simp_all add: wait_run_def waits_ok_step)

lemma settled_run: "settled w p v \<Longrightarrow> settled (wait_run type_of d w inputs) p v"
  by (induction inputs arbitrary: w) (simp_all add: wait_run_def settled_step)

lemma pending_run:
  "waits_ok w \<Longrightarrow> pending w p T \<Longrightarrow> undecided type_of T p inputs
     \<Longrightarrow> pending (wait_run type_of d w inputs) p T"
proof (induction inputs arbitrary: w)
  case Nil
  then show ?case by (simp add: wait_run_def)
next
  case (Cons i inputs)
  have "pending (wait_step type_of d w i) p T"
  proof (cases i)
    case (Deliver m)
    then show ?thesis using Cons.prems by (simp add: undecided_def pending_deliver_other)
  next
    case (TimerFires q)
    then show ?thesis using Cons.prems by (simp add: undecided_def pending_timeout(2))
  next
    case (Wait e t)
    then show ?thesis using Cons.prems by (simp add: pending_wait)
  qed
  moreover have "waits_ok (wait_step type_of d w i)" using Cons.prems(1) by (rule waits_ok_step)
  moreover have "undecided type_of T p inputs" using Cons.prems(3) by (simp add: undecided_def)
  ultimately show ?case unfolding wait_run_Cons by (intro Cons.IH)
qed

lemma pending_or_settled_run:
  "waits_ok w \<Longrightarrow> pending w p T
     \<Longrightarrow> pending (wait_run type_of d w inputs) p T \<or> (\<exists>v. settled (wait_run type_of d w inputs) p v)"
proof (induction inputs arbitrary: w)
  case Nil
  then show ?case by (simp add: wait_run_def)
next
  case (Cons i inputs)
  have ok: "waits_ok (wait_step type_of d w i)" using Cons.prems(1) by (rule waits_ok_step)
  have "pending (wait_step type_of d w i) p T \<or> (\<exists>v. settled (wait_step type_of d w i) p v)"
  proof (cases i)
    case (Deliver m)
    then show ?thesis
      using Cons.prems pending_deliver_other [of w p T type_of m] pending_deliver_match [of w p T type_of m]
      by (cases "type_of m = JStr T") auto
  next
    case (TimerFires q)
    then show ?thesis
      using pending_timeout(1) [OF Cons.prems(2)] pending_timeout(2) [OF Cons.prems(2), of q]
      by (cases "q = p") auto
  next
    case (Wait e t)
    then show ?thesis using Cons.prems(2) by (simp add: pending_wait)
  qed
  then show ?case
  proof
    assume "pending (wait_step type_of d w i) p T"
    then show ?thesis unfolding wait_run_Cons using ok by (intro Cons.IH)
  next
    assume "\<exists>v. settled (wait_step type_of d w i) p v"
    then show ?thesis unfolding wait_run_Cons using settled_run by blast
  qed
qed

lemma wait_for_pending:
  assumes "waits_ok w0" and "wait_for T t d w0 = (p, w1)"
  shows "waits_ok w1 \<and> pending w1 p T"
proof -
  have w1: "w1 = snd (wait_for T t d w0)" and p: "p = next_promise w0"
    using assms(2) wait_for_view(1) [of T t d w0] by simp_all
  have "waits_ok w1"
    using waits_ok_step [OF assms(1), of type_of d "Wait T t"] unfolding w1 by simp
  moreover have "filter (\<lambda>r. fst r = p) (resolutions w0) = []"
    using assms(1) unfolding p by (auto simp: waits_ok_def list_all_iff filter_empty_conv)
  then have "pending w1 p T"
    unfolding w1 p
    by (simp add: pending_def wait_for_view timer_armed_def resolved_with_def list_ex_iff
        wait_for_def Let_def)
  ultimately show ?thesis by simp
qed

lemma wait_for_resolves_once:
  assumes "waits_ok w0" and "wait_for T timeout d w0 = (p, w1)"
  shows "length (resolved_with (wait_run type_of d w1 inputs) p) \<le> 1
    \<and> (\<forall>pre m post. inputs = pre @ Deliver m # post \<and> undecided type_of T p pre
           \<and> type_of m = JStr T
         \<longrightarrow> resolved_with (wait_run type_of d w1 inputs) p = [Some m]
             \<and> \<not> timer_armed (wait_run type_of d w1 inputs) p
             \<and> \<not> handler_registered (wait_run type_of d w1 inputs) p)
    \<and> (\<forall>pre post. inputs = pre @ TimerFires p # post \<and> undecided type_of T p pre
         \<longrightarrow> resolved_with (wait_run type_of d w1 inputs) p = [None]
             \<and> \<not> handler_registered (wait_run type_of d w1 inputs) p
             \<and> \<not> timer_armed (wait_run type_of d w1 inputs) p)
    \<and> (undecided type_of T p inputs
         \<longrightarrow> resolved_with (wait_run type_of d w1 inputs) p = []
             \<and> handler_registered (wait_run type_of d w1 inputs) p
             \<and> timer_armed (wait_run type_of d w1 inputs) p)"
proof -
  have ok: "waits_ok w1" and pend: "pending w1 p T"
    using wait_for_pending [OF assms] by simp_all
  let ?w = "wait_run type_of d w1 inputs"
  have once: "length (resolved_with ?w p) \<le> 1"
    using pending_or_settled_run [OF ok pend, of type_of d inputs]
    by (auto simp: pending_def settled_def)
  have matched: "resolved_with ?w p = [Some m] \<and> \<not> timer_armed ?w p \<and> \<not> handler_registered ?w p"
    if "inputs = pre @ Deliver m # post" "undecided type_of T p pre" "type_of m = JStr T"
    for pre m post
  proof -
    let ?v = "wait_run type_of d w1 pre"
    have "pending ?v p T" using ok pend that(2) by (rule pending_run)
    moreover have "waits_ok ?v" using ok by (rule waits_ok_run)
    ultimately have "settled (deliver type_of m ?v) p (Some m)"
      using that(3) by (intro pending_deliver_match)
    then have "settled (wait_run type_of d (deliver type_of m ?v) post) p (Some m)"
      by (rule settled_run)
    then have "settled ?w p (Some m)"
      unfolding that(1) by (simp add: wait_run_def)
    then show ?thesis by (simp add: settled_def)
  qed
  have timed: "resolved_with ?w p = [None] \<and> \<not> handler_registered ?w p \<and> \<not> timer_armed ?w p"
    if "inputs = pre @ TimerFires p # post" "undecided type_of T p pre" for pre post
  proof -
    let ?v = "wait_run type_of d w1 pre"
    have "pending ?v p T" using ok pend that(2) by (rule pending_run)
    then have "settled (timeout_fires p ?v) p None" by (rule pending_timeout(1))
    then have "settled (wait_run type_of d (timeout_fires p ?v) post) p None"
      by (rule settled_run)
    then have "settled ?w p None"
      unfolding that(1) by (simp add: wait_run_def)
    then show ?thesis by (simp add: settled_def)
  qed
  have still: "resolved_with ?w p = [] \<and> handler_registered ?w p \<and> timer_armed ?w p"
    if "undecided type_of T p inputs"
  proof -
    have "pending ?w p T" using ok pend that by (rule pending_run)
    then show ?thesis by (force simp: pending_def handler_registered_def list_ex_iff)
  qed
  show ?thesis using once matched timed still by blast
qed

lemma protocol_step_view:
  "waits (protocol_step s i) = wait_step type (messageWait (timeouts (config s))) (waits s) i
   \<and> config (protocol_step s i) = config s"
  by (cases i) (simp_all add: emit_message_def wait_timeout_def waitForMessage_def case_prod_beta)

lemma protocol_run_view:
  "waits (protocol_run s inputs) = wait_run type (messageWait (timeouts (config s))) (waits s) inputs"
proof -
  have "waits (foldl protocol_step s inputs)
          = foldl (wait_step type (messageWait (timeouts (config s)))) (waits s) inputs"
  proof (induction inputs arbitrary: s)
    case Nil
    show ?case by simp
  next
    case (Cons i inputs)
    show ?case
      using Cons.IH [of "protocol_step s i"] protocol_step_view [of s i] by simp
  qed
  then show ?thesis by (simp add: protocol_run_def wait_run_def)
qed

lemma EIP_protocol_step_view:
  "waits (EIP_protocol_step s i)
     = wait_step EIP_type (messageWait (timeouts EIP_AUDIO_CONFIG)) (waits s) i"
  by (cases i) (simp_all add: EIP_emit_message_def waitForEIPMessage_def case_prod_beta)

lemma EIP_protocol_run_view:
  "waits (EIP_protocol_run s inputs)
     = wait_run EIP_type (messageWait (timeouts EIP_AUDIO_CONFIG)) (waits s) inputs"
proof -
  have "waits (foldl EIP_protocol_step s inputs)
          = foldl (wait_step EIP_type (messageWait (timeouts EIP_AUDIO_CONFIG))) (waits s) inputs"
  proof (induction inputs arbitrary: s)
    case Nil
    show ?case by simp
  next
    case (Cons i inputs)
    show ?case
      using Cons.IH [of "EIP_protocol_step s i"] EIP_protocol_step_view [of s i] by simp
  qed
  then show ?thesis by (simp add: EIP_protocol_run_def wait_run_def)
qed

lemma wait_for_timer:
  assumes "waits_ok w0" and "wait_for T timeout d w0 = (p, w1)"
  shows "map_of (timers w1) p = Some (effective_timeout timeout d)"
proof -
  have p: "p = next_promise w0"
    and t: "timers w1 = timers w0 @ [(p, effective_timeout timeout d)]"
    using assms(2) by (auto simp: wait_for_def Let_def effective_timeout_def)
  have "p \<notin> fst ` set (timers w0)"
    using assms(1) unfolding p by (auto simp: waits_ok_def list_all_iff)
  then have "map_of (timers w0) p = None" by (simp add: map_of_eq_None_iff)
  then show ?thesis unfolding t by (simp add: map_add_def)
qed

lemma waitForMessage_resolves_once:
  assumes "waits_ok (waits s)" and "waitForMessage T timeout s = (p, s1)"
  shows "map_of (timers (waits s1)) p
      = Some (effective_timeout timeout (messageWait (timeouts (config s))))
    \<and> length (resolved_with (waits (protocol_run s1 inputs)) p) \<le> 1
    \<and> (\<forall>pre m post. inputs = pre @ Deliver m # post \<and> undecided type T p pre
           \<and> type m = JStr T
         \<longrightarrow> resolved_with (waits (protocol_run s1 inputs)) p = [Some m]
             \<and> \<not> timer_armed (waits (protocol_run s1 inputs)) p
             \<and> \<not> handler_registered (waits (protocol_run s1 inputs)) p)
    \<and> (\<forall>pre post. inputs = pre @ TimerFires p # post \<and> undecided type T p pre
         \<longrightarrow> resolved_with (waits (protocol_run s1 inputs)) p = [None]
             \<and> \<not> handler_registered (waits (protocol_run s1 inputs)) p
             \<and> \<not> timer_armed (waits (protocol_run s1 inputs)) p)
    \<and> (undecided type T p inputs
         \<longrightarrow> resolved_with (waits (protocol_run s1 inputs)) p = []
             \<and> handler_registered (waits (protocol_run s1 inputs)) p
             \<and> timer_armed (waits (protocol_run s1 inputs)) p)"
proof -
  let ?d = "messageWait (timeouts (config s))"
  have wf: "wait_for T timeout ?d (waits s) = (p, waits s1)" and cfg: "config s1 = config s"
    using assms(2) by (auto simp: waitForMessage_def split: prod.splits)
  have run: "waits (protocol_run s1 inputs) = wait_run type ?d (waits s1) inputs"
    using protocol_run_view [of s1 inputs] by (simp add: cfg)
  show ?thesis
    unfolding run
    using wait_for_timer [OF assms(1) wf] wait_for_resolves_once [OF assms(1) wf, of type inputs]
    by simp
qed

lemma waitForEIPMessage_resolves_once:
  assumes "waits_ok (waits t)" and "waitForEIPMessage T timeout t = (p, t1)"
  shows "map_of (timers (waits t1)) p
      = Some (effective_timeout timeout (messageWait (timeouts EIP_AUDIO_CONFIG)))
    \<and> length (resolved_with (waits (EIP_protocol_run t1 inputs)) p) \<le> 1
    \<and> (\<forall>pre m post. inputs = pre @ Deliver m # post \<and> undecided EIP_type T p pre
           \<and> EIP_type m = JStr T
         \<longrightarrow> resolved_with (waits (EIP_protocol_run t1 inputs)) p = [Some m]
             \<and> \<not> timer_armed (waits (EIP_protocol_run t1 inputs)) p
             \<and> \<not> handler_registered (waits (EIP_protocol_run t1 inputs)) p)
    \<and> (\<forall>pre post. inputs = pre @ TimerFires p # post \<and> undecided EIP_type T p pre
         \<longrightarrow> resolved_with (waits (EIP_protocol_run t1 inputs)) p = [None]
             \<and> \<not> handler_registered (waits (EIP_protocol_run t1 inputs)) p
             \<and> \<not> timer_armed (waits (EIP_protocol_run t1 inputs)) p)
    \<and> (undecided EIP_type T p inputs
         \<longrightarrow> resolved_with (waits (EIP_protocol_run t1 inputs)) p = []
             \<and> handler_registered (waits (EIP_protocol_run t1 inputs)) p
             \<and> timer_armed (waits (EIP_protocol_run t1 inputs)) p)"
proof -
  let ?d = "messageWait (timeouts EIP_AUDIO_CONFIG)"
  have wf: "wait_for T timeout ?d (waits t) = (p, waits t1)"
    using assms(2) by (auto simp: waitForEIPMessage_def split: prod.splits)
  show ?thesis
    unfolding EIP_protocol_run_view
    using wait_for_timer [OF assms(1) wf]
      wait_for_resolves_once [OF assms(1) wf, of EIP_type inputs]
    by simp
qed

text \<open>
  Claim C6.  Let \<^verbatim>\<open>waitForMessage(T, timeout)\<close> be called on an \<^verbatim>\<open>AudioProtocol\<close> whose
  listeners and timers are well formed, giving promise \<open>p\<close>.  Its timeout is armed with
  the delay \<^verbatim>\<open>timeout || config.timeouts.messageWait\<close>.  Let any sequence of events
  follow: the message event is emitted, timeouts run, further waits are registered.
  Then \<^verbatim>\<open>resolve\<close> of \<open>p\<close> is called at most once.  If a message of type \<open>T\<close> is
  emitted before the timeout of \<open>p\<close> has run, the promise is resolved with the first
  such message, and its timeout is cancelled and its listener removed.  If the timeout
  runs first, the promise is resolved with \<^verbatim>\<open>null\<close> and the listener is removed.  As
  long as neither has happened the promise is pending, with listener and timeout in
  place.  The same holds of \<^verbatim>\<open>waitForEIPMessage(U, timeout')\<close> on an
  \<^verbatim>\<open>EIPAudioProtocol\<close>, with the default delay of \<^verbatim>\<open>EIP_AUDIO_CONFIG\<close> and the event
  \<^verbatim>\<open>eip-message\<close>.
\<close>

theorem wait_resolves_once:
  assumes "waits_ok (waits s)" and "waitForMessage T timeout s = (p, s1)"
    and "waits_ok (waits t)" and "waitForEIPMessage U timeout' t = (q, t1)"
  shows "map_of (timers (waits s1)) p
      = Some (effective_timeout timeout (messageWait (timeouts (config s))))
    \<and> length (resolved_with (waits (protocol_run s1 inputs)) p) \<le> 1
    \<and> (\<forall>pre m post. inputs = pre @ Deliver m # post \<and> undecided type T p pre
           \<and> type m = JStr T
         \<longrightarrow> resolved_with (waits (protocol_run s1 inputs)) p = [Some m]
             \<and> \<not> timer_armed (waits (protocol_run s1 inputs)) p
             \<and> \<not> handler_registered (waits (protocol_run s1 inputs)) p)
    \<and> (\<forall>pre post. inputs = pre @ TimerFires p # post \<and> undecided type T p pre
         \<longrightarrow> resolved_with (waits (protocol_run s1 inputs)) p = [None]
             \<and> \<not> handler_registered (waits (protocol_run s1 inputs)) p
             \<and> \<not> timer_armed (waits (protocol_run s1 inputs)) p)
    \<and> (undecided type T p inputs
         \<longrightarrow> resolved_with (waits (protocol_run s1 inputs)) p = []
             \<and> handler_registered (waits (protocol_run s1 inputs)) p
             \<and> timer_armed (waits (protocol_run s1 inputs)) p)
    \<and> map_of (timers (waits t1)) q
      = Some (effective_timeout timeout' (messageWait (timeouts EIP_AUDIO_CONFIG)))
    \<and> length (resolved_with (waits (EIP_protocol_run t1 events)) q) \<le> 1
    \<and> (\<forall>pre m post. events = pre @ Deliver m # post \<and> undecided EIP_type U q pre
           \<and> EIP_type m = JStr U
         \<longrightarrow> resolved_with (waits (EIP_protocol_run t1 events)) q = [Some m]
             \<and> \<not> timer_armed (waits (EIP_protocol_run t1 events)) q
             \<and> \<not> handler_registered (waits (EIP_protocol_run t1 events)) q)
    \<and> (\<forall>pre post. events = pre @ TimerFires q # post \<and> undecided EIP_type U q pre
         \<longrightarrow> resolved_with (waits (EIP_protocol_run t1 events)) q = [None]
             \<and> \<not> handler_registered (waits (EIP_protocol_run t1 events)) q
             \<and> \<not> timer_armed (waits (EIP_protocol_run t1 events)) q)
    \<and> (undecided EIP_type U q events
         \<longrightarrow> resolved_with (waits (EIP_protocol_run t1 events)) q = []
             \<and> handler_registered (waits (EIP_protocol_run t1 events)) q
             \<and> timer_armed (waits (EIP_protocol_run t1 events)) q)"
  using waitForMessage_resolves_once [OF assms(1,2), of inputs]
    waitForEIPMessage_resolves_once [OF assms(3,4), of events]
  by (elim conjE, intro conjI) assumption+

theorem wait_resolves_once_witness:
  "waits_ok (waits listening_protocol)
   \<and> fst (waitForMessage ''connect_response'' None listening_protocol) = 0
   \<and> map_of (timers (waits (snd (waitForMessage ''connect_response'' None listening_protocol)))) 0
       = Some 100
   \<and> resolved_with
        (waits (protocol_run (snd (waitForMessage ''connect_response'' None listening_protocol))
           [Deliver tx_request_example, Deliver connect_response_example, TimerFires 0,
            Deliver connect_response_example])) 0
      = [Some connect_response_example]
   \<and> waits_ok (waits (listening_transport :: EIPAudioProtocol))
   \<and> fst (waitForEIPMessage ''connect_response'' (Some 250) listening_transport) = 0
   \<and> map_of (timers (waits (snd (waitForEIPMessage ''connect_response'' (Some 250)
         listening_transport)))) 0
       = Some 250
   \<and> resolved_with
        (waits (EIP_protocol_run
           (snd (waitForEIPMessage ''connect_response'' (Some 250) listening_transport))
           [Deliver connect_example, TimerFires 0, Deliver connect_example])) 0
      = [None]"
proof -
  let ?s = "listening_protocol"
  let ?t = "listening_transport :: EIPAudioProtocol"
  let ?inputs = "[Deliver tx_request_example, Deliver connect_response_example, TimerFires 0,
                  Deliver connect_response_example]"
  let ?events = "[Deliver connect_example, TimerFires 0, Deliver connect_example]"
  have ok: "waits_ok (waits ?s)"
    by (simp add: waits_ok_def listening_protocol_def no_waits_def)
  have ok': "waits_ok (waits ?t)"
    by (simp add: waits_ok_def listening_transport_def no_waits_def)
  have p: "fst (waitForMessage ''connect_response'' None ?s) = 0"
    by (simp add: waitForMessage_def wait_for_def listening_protocol_def no_waits_def)
  have q: "fst (waitForEIPMessage ''connect_response'' (Some 250) ?t) = 0"
    by (simp add: waitForEIPMessage_def wait_for_def listening_transport_def no_waits_def)
  have wf: "waitForMessage ''connect_response'' None ?s
            = (0, snd (waitForMessage ''connect_response'' None ?s))"
    using p by (metis prod.collapse)
  have wf': "waitForEIPMessage ''connect_response'' (Some 250) ?t
            = (0, snd (waitForEIPMessage ''connect_response'' (Some 250) ?t))"
    using q by (metis prod.collapse)
  have u: "undecided type ''connect_response'' 0 [Deliver tx_request_example]"
    by (simp add: undecided_def tx_request_example_def)
  have ty: "type connect_response_example = JStr ''connect_response''"
    by (simp add: connect_response_example_def)
  have u': "undecided EIP_type ''connect_response'' 0 [Deliver connect_example]"
    by (simp add: undecided_def connect_example_def EIP_type_def)
  have d: "effective_timeout None (messageWait (timeouts (config ?s))) = 100"
    by (simp add: effective_timeout_def listening_protocol_def narrow_config_def)
  have d': "effective_timeout (Some 250) (messageWait (timeouts EIP_AUDIO_CONFIG)) = 250"
    by (simp add: effective_timeout_def)
  note W = wait_resolves_once [OF ok wf ok' wf', of ?inputs ?events]
  have a: "map_of (timers (waits (snd (waitForMessage ''connect_response'' None ?s)))) 0 = Some 100"
    using W [THEN conjunct1] d by simp
  have b: "resolved_with
        (waits (protocol_run (snd (waitForMessage ''connect_response'' None ?s)) ?inputs)) 0
      = [Some connect_response_example]"
    using W [THEN conjunct2, THEN conjunct2, THEN conjunct1, rule_format,
        of "[Deliver tx_request_example]" connect_response_example
        "[TimerFires 0, Deliver connect_response_example]"] u ty
    by simp
  have c: "map_of (timers (waits (snd (waitForEIPMessage ''connect_response'' (Some 250) ?t)))) 0
           = Some 250"
    using W [THEN conjunct2, THEN conjunct2, THEN conjunct2, THEN conjunct2, THEN conjunct2,
        THEN conjunct1] d' by simp
  have e: "resolved_with
        (waits (EIP_protocol_run (snd (waitForEIPMessage ''connect_response'' (Some 250) ?t))
           ?events)) 0
      = [None]"
    using W [THEN conjunct2, THEN conjunct2, THEN conjunct2, THEN conjunct2, THEN conjunct2,
        THEN conjunct2, THEN conjunct2, THEN conjunct2, THEN conjunct1, rule_format,
        of "[Deliver connect_example]" "[Deliver connect_example]"] u'
    by simp
  show ?thesis using ok ok' p q a b c e by simp
qed

section \<open>Messages without an id\<close>

lemma json_text_drops_undefined:
  "json_text (JObj (kvs @ [(k, JUndefined)])) = json_text (JObj kvs)"
  by simp

text \<open>
  Claim C10.  \<^verbatim>\<open>createEIPMessage\<close> leaves the id out when the type is \<^verbatim>\<open>connect\<close> and no id
  is given; for every other type without an id argument the message carries the fresh
  id, and a non-empty id that is given is carried for every type.  \<^verbatim>\<open>validateEIPMessage\<close>
  accepts the connect message without id.  The response that \<^verbatim>\<open>handleConnectRequest\<close>
  builds for it has \<^verbatim>\<open>received_id\<close> equal to \<^verbatim>\<open>undefined\<close> in its payload, and the text
  sent for the response does not contain the property.
\<close>

theorem connect_without_id:
  "createEIPMessage ''connect'' p JUndefined n
     = JObj [(''version'', JStr ''1.0''), (''type'', JStr ''connect''), (''payload'', p)]
   \<and> (ty \<noteq> ''connect'' \<longrightarrow>
        createEIPMessage ty p JUndefined n
          = JObj [(''version'', JStr ''1.0''), (''type'', JStr ty), (''payload'', p), (''id'', JStr n)])
   \<and> (i \<noteq> [] \<longrightarrow>
        createEIPMessage ty p (JStr i) n
          = JObj [(''version'', JStr ''1.0''), (''type'', JStr ty), (''payload'', p), (''id'', JStr i)])
   \<and> (typeof p = ''object'' \<longrightarrow>
        validateEIPMessage (createEIPMessage ''connect'' p JUndefined n) = Inr True)
   \<and> get_prop (get_prop (handleConnectRequest_response a r (createEIPMessage ''connect'' p JUndefined n))
         ''payload'') ''received_id'' = JUndefined
   \<and> JSON_parse (JSON_stringify
         (handleConnectRequest_response a r (createEIPMessage ''connect'' p JUndefined n)))
       = Inr (JObj [(''version'', JStr ''1.0''), (''type'', JStr ''connect_response''),
                    (''payload'', JObj [(''address'', JStr a)]), (''id'', JStr r)])"
proof -
  let ?clean = "JObj [(''version'', JStr ''1.0''), (''type'', JStr ''connect_response''),
                      (''payload'', JObj [(''address'', JStr a)]), (''id'', JStr r)]"
  have resp: "handleConnectRequest_response a r (createEIPMessage ''connect'' p JUndefined n)
        = JObj [(''version'', JStr ''1.0''), (''type'', JStr ''connect_response''),
                (''payload'', JObj [(''address'', JStr a), (''received_id'', JUndefined)]),
                (''id'', JStr r)]"
    by (simp add: handleConnectRequest_response_def connect_response_payload_def
        createEIPMessage_def truthy_def EIP_PROTOCOL_VERSION_def)
  have "JSON_stringify (handleConnectRequest_response a r (createEIPMessage ''connect'' p JUndefined n))
        = JSON_stringify ?clean"
    unfolding resp by (simp add: JSON_stringify_def)
  moreover have "JSON_parse (JSON_stringify ?clean) = Inr ?clean"
    by (rule JSON_parse_stringify_value) (simp add: property_order_names field_names_not_index)
  ultimately have sent: "JSON_parse (JSON_stringify
         (handleConnectRequest_response a r (createEIPMessage ''connect'' p JUndefined n)))
       = Inr ?clean"
    by simp
  have valid: "typeof p = ''object'' \<Longrightarrow>
        validateEIPMessage (createEIPMessage ''connect'' p JUndefined n) = Inr True"
    by (simp add: validateEIPMessage_def createEIPMessage_def truthy_def EIP_MESSAGE_TYPES_def)
  show ?thesis
    using sent valid unfolding resp
    by (simp add: createEIPMessage_def truthy_def EIP_PROTOCOL_VERSION_def)
qed

theorem connect_without_id_witness:
  "''error'' \<noteq> ''connect'' \<and> ''t-1'' \<noteq> [] \<and> typeof (JObj []) = ''object''
   \<and> createEIPMessage ''error'' (JObj []) JUndefined ''n-1''
       = JObj [(''version'', JStr ''1.0''), (''type'', JStr ''error''), (''payload'', JObj []),
               (''id'', JStr ''n-1'')]
   \<and> createEIPMessage ''connect'' (JObj []) (JStr ''t-1'') ''n-1''
       = JObj [(''version'', JStr ''1.0''), (''type'', JStr ''connect''), (''payload'', JObj []),
               (''id'', JStr ''t-1'')]
   \<and> validateEIPMessage (createEIPMessage ''connect'' (JObj []) JUndefined ''n-1'') = Inr True"
  using connect_without_id [of "JObj []" "''n-1''" "''error''" "''t-1''" "''error''"]
    connect_without_id [of "JObj []" "''n-1''" "''connect''" "''t-1''" "''connect''"]
  by simp

section \<open>Chunks that do not complete a message\<close>

lemma stored_chunks_update:
  "stored_chunks (s\<lparr>chunkStorage := AList.update k v (chunkStorage s)\<rparr>) k'
     = (if k' = k then v else stored_chunks s k')"
  by (simp add: stored_chunks_def update_conv')

lemma handleChunk_store:
  assumes "\<not> nullish (payload c)" and "primitive (originalMessageId c)"
    and "totalChunks c \<noteq> JNum (int (Suc (length (stored_chunks s (originalMessageId c)))))"
  shows "handleChunk uuid s c =
           (s\<lparr>chunkStorage := AList.update (originalMessageId c)
                  (stored_chunks s (originalMessageId c) @ [c]) (chunkStorage s)\<rparr>, [])"
  using assms by (simp add: handleChunk_def Let_def)

lemma EIP_handleChunk_store:
  assumes "\<not> nullish (get_prop c ''payload'')"
    and "primitive (EIP_chunk_field c ''originalMessageId'')"
    and "EIP_chunk_field c ''totalChunks''
           \<noteq> JNum (int (Suc (length (stored_chunks s (EIP_chunk_field c ''originalMessageId'')))))"
  shows "EIP_handleChunk s c =
           (s\<lparr>chunkStorage := AList.update (EIP_chunk_field c ''originalMessageId'')
                  (stored_chunks s (EIP_chunk_field c ''originalMessageId'') @ [c]) (chunkStorage s)\<rparr>, [])"
  using assms by (simp add: EIP_handleChunk_def Let_def)

lemma receiver_run_incomplete:
  assumes "primitive key"
  shows "list_all (chunk_of key n) (arrived inputs)
     \<Longrightarrow> length (stored_chunks s key) + length (arrived inputs) < n
     \<Longrightarrow> snd (receiver_run uuid s inputs) = playbacks inputs
         \<and> stored_chunks (fst (receiver_run uuid s inputs)) key = stored_chunks s key @ arrived inputs"
proof (induction inputs arbitrary: s)
  case Nil
  then show ?case by simp
next
  case (Cons i inputs)
  show ?case
  proof (cases i)
    case (Arrives c)
    have c: "chunk_of key n c" using Cons.prems(1) Arrives by simp
    let ?s1 = "s\<lparr>chunkStorage := AList.update key (stored_chunks s key @ [c]) (chunkStorage s)\<rparr>"
    have "totalChunks c \<noteq> JNum (int (Suc (length (stored_chunks s key))))"
      using c Cons.prems(2) Arrives by (simp add: chunk_of_def)
    then have step: "receiver_step uuid s i = (?s1, [])"
      using c assms Arrives handleChunk_store [of c s uuid]
      by (simp add: chunk_of_def handleReceivedMessage_def)
    have st: "stored_chunks ?s1 key = stored_chunks s key @ [c]"
      by (simp add: stored_chunks_update)
    have "snd (receiver_run uuid ?s1 inputs) = playbacks inputs
          \<and> stored_chunks (fst (receiver_run uuid ?s1 inputs)) key
              = stored_chunks ?s1 key @ arrived inputs"
      using Cons.prems Arrives by (intro Cons.IH) (simp_all add: st)
    then show ?thesis
      using step Arrives by (simp add: st case_prod_beta)
  next
    case (WaitTimeout p)
    let ?s1 = "s\<lparr>waits := timeout_fires p (waits s)\<rparr>"
    have st: "stored_chunks ?s1 key = stored_chunks s key" by (simp add: stored_chunks_def)
    have "snd (receiver_run uuid ?s1 inputs) = playbacks inputs
          \<and> stored_chunks (fst (receiver_run uuid ?s1 inputs)) key
              = stored_chunks ?s1 key @ arrived inputs"
      using Cons.prems WaitTimeout by (intro Cons.IH) (simp_all add: st)
    then show ?thesis
      using WaitTimeout by (simp add: st wait_timeout_def case_prod_beta)
  next
    case PlaybackEnds
    let ?s1 = "s\<lparr>isTransmitting := False\<rparr>"
    have st: "stored_chunks ?s1 key = stored_chunks s key" by (simp add: stored_chunks_def)
    have "snd (receiver_run uuid ?s1 inputs) = playbacks inputs
          \<and> stored_chunks (fst (receiver_run uuid ?s1 inputs)) key
              = stored_chunks ?s1 key @ arrived inputs"
      using Cons.prems PlaybackEnds by (intro Cons.IH) (simp_all add: st)
    then show ?thesis
      using PlaybackEnds by (simp add: st playback_ended_def case_prod_beta)
  qed
qed

lemma EIP_receiver_run_incomplete:
  assumes "primitive key"
  shows "list_all (EIP_chunk_of key n) (arrived inputs)
     \<Longrightarrow> length (stored_chunks s key) + length (arrived inputs) < n
     \<Longrightarrow> snd (EIP_receiver_run new_id s inputs) = playbacks inputs
         \<and> stored_chunks (fst (EIP_receiver_run new_id s inputs)) key = stored_chunks s key @ arrived inputs"
proof (induction inputs arbitrary: s)
  case Nil
  then show ?case by simp
next
  case (Cons i inputs)
  show ?case
  proof (cases i)
    case (Arrives c)
    have c: "EIP_chunk_of key n c" using Cons.prems(1) Arrives by simp
    let ?s1 = "s\<lparr>chunkStorage := AList.update key (stored_chunks s key @ [c]) (chunkStorage s)\<rparr>"
    have "EIP_chunk_field c ''totalChunks'' \<noteq> JNum (int (Suc (length (stored_chunks s key))))"
      using c Cons.prems(2) Arrives by (simp add: EIP_chunk_of_def)
    then have "EIP_handleChunk s c = (?s1, [])"
      using c assms EIP_handleChunk_store [of c s] by (simp add: EIP_chunk_of_def)
    moreover have "\<not> nullish c" using c by (auto simp: EIP_chunk_of_def nullish_def)
    ultimately have step: "EIP_receiver_step new_id s i = (?s1, [])"
      using c Arrives
      by (simp add: EIP_chunk_of_def handleEIPMessage_def isVersionSupported_def
          EIP_PROTOCOL_VERSION_def)
    have st: "stored_chunks ?s1 key = stored_chunks s key @ [c]"
      by (simp add: stored_chunks_update)
    have "snd (EIP_receiver_run new_id ?s1 inputs) = playbacks inputs
          \<and> stored_chunks (fst (EIP_receiver_run new_id ?s1 inputs)) key
              = stored_chunks ?s1 key @ arrived inputs"
      using Cons.prems Arrives by (intro Cons.IH) (simp_all add: st)
    then show ?thesis
      using step Arrives by (simp add: st case_prod_beta)
  next
    case (WaitTimeout p)
    let ?s1 = "s\<lparr>waits := timeout_fires p (waits s)\<rparr>"
    have st: "stored_chunks ?s1 key = stored_chunks s key" by (simp add: stored_chunks_def)
    have "snd (EIP_receiver_run new_id ?s1 inputs) = playbacks inputs
          \<and> stored_chunks (fst (EIP_receiver_run new_id ?s1 inputs)) key
              = stored_chunks ?s1 key @ arrived inputs"
      using Cons.prems WaitTimeout by (intro Cons.IH) (simp_all add: st)
    then show ?thesis
      using WaitTimeout by (simp add: st case_prod_beta)
  next
    case PlaybackEnds
    let ?s1 = "s\<lparr>isTransmitting := False\<rparr>"
    have st: "stored_chunks ?s1 key = stored_chunks s key" by (simp add: stored_chunks_def)
    have "snd (EIP_receiver_run new_id ?s1 inputs) = playbacks inputs
          \<and> stored_chunks (fst (EIP_receiver_run new_id ?s1 inputs)) key
              = stored_chunks ?s1 key @ arrived inputs"
      using Cons.prems PlaybackEnds by (intro Cons.IH) (simp_all add: st)
    then show ?thesis
      using PlaybackEnds by (simp add: st playback_ended_def case_prod_beta)
  qed
qed

lemma fewer_than_all:
  fixes k :: "'a \<Rightarrow> int"
  assumes "distinct (map k cs)" and "\<forall>c\<in>set cs. 0 \<le> k c \<and> k c < int n"
    and "i < n" and "int i \<notin> set (map k cs)"
  shows "length cs < n"
proof -
  have "k c \<noteq> int i" if "c \<in> set cs" for c
    using that assms(4) by (metis image_eqI set_map)
  then have "set (map k cs) \<subseteq> {0..<int n} - {int i}" using assms(2) by auto
  then have "card (set (map k cs)) \<le> card ({0..<int n} - {int i})"
    by (intro card_mono) auto
  moreover have "card (set (map k cs)) = length cs"
    using assms(1) by (metis distinct_card length_map)
  moreover have "card ({0..<int n} - {int i}) = n - 1" using assms(3) by simp
  ultimately show ?thesis using assms(3) by simp
qed

lemma messages_emitted_playbacks: "messages_emitted (playbacks inputs) = []"
  by (induction inputs rule: playbacks.induct) simp_all

section \<open>A chunk delivered twice\<close>

text \<open>
  Claim C2 says that a chunk delivered twice leaves the outcome of the reassembly as it
  is after one delivery, the chunks being stored by index.  The classes store the
  chunks in an array that every delivery extends.  The transaction request is cut
  into three chunks; delivered once each they are reassembled into the request, and
  with the first chunk delivered twice no message is emitted at all, the two copies
  and the second chunk being taken for the whole message.
\<close>

theorem duplicate_chunk_changes_outcome:
  "length tx_chunks = 3
   \<and> messages_emitted (snd (receiver_run ''f'' listening_protocol
         [Arrives (tx_chunks ! 0), Arrives (tx_chunks ! 1), Arrives (tx_chunks ! 2)]))
       = [tx_request_example]
   \<and> messages_emitted (snd (receiver_run ''f'' listening_protocol
         [Arrives (tx_chunks ! 0), Arrives (tx_chunks ! 0), Arrives (tx_chunks ! 1),
          Arrives (tx_chunks ! 2)]))
       = []
   \<and> stored_chunks (fst (receiver_run ''f'' listening_protocol
         [Arrives (tx_chunks ! 0), Arrives (tx_chunks ! 0), Arrives (tx_chunks ! 1),
          Arrives (tx_chunks ! 2)])) (JStr ''m-1'')
       = [tx_chunks ! 2]"
proof -
  have a: "length tx_chunks = 3"
    by code_simp
  have b: "messages_emitted (snd (receiver_run ''f'' listening_protocol
             [Arrives (tx_chunks ! 0), Arrives (tx_chunks ! 1), Arrives (tx_chunks ! 2)]))
           = [tx_request_example]"
    by code_simp
  have c: "messages_emitted (snd (receiver_run ''f'' listening_protocol
             [Arrives (tx_chunks ! 0), Arrives (tx_chunks ! 0), Arrives (tx_chunks ! 1),
              Arrives (tx_chunks ! 2)]))
           = []"
    by code_simp
  have d: "stored_chunks (fst (receiver_run ''f'' listening_protocol
             [Arrives (tx_chunks ! 0), Arrives (tx_chunks ! 0), Arrives (tx_chunks ! 1),
              Arrives (tx_chunks ! 2)])) (JStr ''m-1'')
           = [tx_chunks ! 2]"
    by code_simp
  show ?thesis using a b c d by simp
qed

text \<open>
  Claim C2, amended.  In both transports a delivery appends the chunk to the list
  stored under its \<^verbatim>\<open>originalMessageId\<close>, whatever its index: when neither the first nor
  the second delivery of a chunk makes the length of the list equal to its
  \<^verbatim>\<open>totalChunks\<close>, the list holds the chunk twice after the two deliveries, one element
  more than after one delivery, and nothing is emitted.
\<close>

theorem duplicate_chunk_stored_twice:
  "(\<not> nullish (payload c) \<and> primitive (originalMessageId c)
    \<and> totalChunks c \<noteq> JNum (int (Suc (length (stored_chunks s (originalMessageId c)))))
    \<and> totalChunks c \<noteq> JNum (int (Suc (Suc (length (stored_chunks s (originalMessageId c))))))
    \<longrightarrow> stored_chunks (fst (handleChunk uuid s c)) (originalMessageId c)
          = stored_chunks s (originalMessageId c) @ [c]
        \<and> stored_chunks (fst (handleChunk uuid (fst (handleChunk uuid s c)) c)) (originalMessageId c)
          = stored_chunks s (originalMessageId c) @ [c, c]
        \<and> snd (handleChunk uuid s c) = []
        \<and> snd (handleChunk uuid (fst (handleChunk uuid s c)) c) = [])
   \<and> (\<not> nullish (get_prop e ''payload'') \<and> primitive (EIP_chunk_field e ''originalMessageId'')
      \<and> EIP_chunk_field e ''totalChunks''
          \<noteq> JNum (int (Suc (length (stored_chunks t (EIP_chunk_field e ''originalMessageId'')))))
      \<and> EIP_chunk_field e ''totalChunks''
          \<noteq> JNum (int (Suc (Suc (length (stored_chunks t (EIP_chunk_field e ''originalMessageId''))))))
      \<longrightarrow> stored_chunks (fst (EIP_handleChunk t e)) (EIP_chunk_field e ''originalMessageId'')
            = stored_chunks t (EIP_chunk_field e ''originalMessageId'') @ [e]
          \<and> stored_chunks (fst (EIP_handleChunk (fst (EIP_handleChunk t e)) e))
              (EIP_chunk_field e ''originalMessageId'')
            = stored_chunks t (EIP_chunk_field e ''originalMessageId'') @ [e, e]
          \<and> snd (EIP_handleChunk t e) = []
          \<and> snd (EIP_handleChunk (fst (EIP_handleChunk t e)) e) = [])"
proof (intro conjI impI)
  let ?k = "originalMessageId c"
  let ?s1 = "s\<lparr>chunkStorage := AList.update ?k (stored_chunks s ?k @ [c]) (chunkStorage s)\<rparr>"
  assume h: "\<not> nullish (payload c) \<and> primitive (originalMessageId c)
    \<and> totalChunks c \<noteq> JNum (int (Suc (length (stored_chunks s (originalMessageId c)))))
    \<and> totalChunks c \<noteq> JNum (int (Suc (Suc (length (stored_chunks s (originalMessageId c))))))"
  have one: "handleChunk uuid s c = (?s1, [])"
    using h by (intro handleChunk_store) simp_all
  have st: "stored_chunks ?s1 ?k = stored_chunks s ?k @ [c]"
    by (simp add: stored_chunks_update)
  have two: "handleChunk uuid ?s1 c
             = (?s1\<lparr>chunkStorage := AList.update ?k (stored_chunks ?s1 ?k @ [c]) (chunkStorage ?s1)\<rparr>, [])"
    using h by (intro handleChunk_store) (simp_all add: st)
  show "stored_chunks (fst (handleChunk uuid s c)) ?k = stored_chunks s ?k @ [c]"
    by (simp add: one st)
  show "stored_chunks (fst (handleChunk uuid (fst (handleChunk uuid s c)) c)) ?k
        = stored_chunks s ?k @ [c, c]"
    unfolding one fst_conv two by (simp add: stored_chunks_update st)
  show "snd (handleChunk uuid s c) = []" by (simp add: one)
  show "snd (handleChunk uuid (fst (handleChunk uuid s c)) c) = []"
    unfolding one fst_conv two by simp
next
  let ?k = "EIP_chunk_field e ''originalMessageId''"
  let ?s1 = "t\<lparr>chunkStorage := AList.update ?k (stored_chunks t ?k @ [e]) (chunkStorage t)\<rparr>"
  assume h: "\<not> nullish (get_prop e ''payload'') \<and> primitive (EIP_chunk_field e ''originalMessageId'')
      \<and> EIP_chunk_field e ''totalChunks''
          \<noteq> JNum (int (Suc (length (stored_chunks t (EIP_chunk_field e ''originalMessageId'')))))
      \<and> EIP_chunk_field e ''totalChunks''
          \<noteq> JNum (int (Suc (Suc (length (stored_chunks t (EIP_chunk_field e ''originalMessageId''))))))"
  have one: "EIP_handleChunk t e = (?s1, [])"
    using h by (intro EIP_handleChunk_store) simp_all
  have st: "stored_chunks ?s1 ?k = stored_chunks t ?k @ [e]"
    by (simp add: stored_chunks_update)
  have two: "EIP_handleChunk ?s1 e
             = (?s1\<lparr>chunkStorage := AList.update ?k (stored_chunks ?s1 ?k @ [e]) (chunkStorage ?s1)\<rparr>, [])"
    using h by (intro EIP_handleChunk_store) (simp_all add: st)
  show "stored_chunks (fst (EIP_handleChunk t e)) ?k = stored_chunks t ?k @ [e]"
    by (simp add: one st)
  show "stored_chunks (fst (EIP_handleChunk (fst (EIP_handleChunk t e)) e)) ?k
        = stored_chunks t ?k @ [e, e]"
    unfolding one fst_conv two by (simp add: stored_chunks_update st)
  show "snd (EIP_handleChunk t e) = []" by (simp add: one)
  show "snd (EIP_handleChunk (fst (EIP_handleChunk t e)) e) = []"
    unfolding one fst_conv two by simp
qed

theorem duplicate_chunk_stored_twice_witness:
  "stored_chunks (fst (handleChunk ''f'' (fst (handleChunk ''f'' listening_protocol (tx_chunks ! 0)))
       (tx_chunks ! 0))) (JStr ''m-1'')
     = [tx_chunks ! 0, tx_chunks ! 0]
   \<and> stored_chunks (fst (EIP_handleChunk (fst (EIP_handleChunk listening_transport (v2_chunk 0)))
       (v2_chunk 0))) (JStr ''c-7'')
     = [v2_chunk 0, v2_chunk 0]"
proof -
  have k: "originalMessageId (tx_chunks ! 0) = JStr ''m-1''"
    by code_simp
  have a: "\<not> nullish (payload (tx_chunks ! 0)) \<and> primitive (originalMessageId (tx_chunks ! 0))
    \<and> totalChunks (tx_chunks ! 0)
        \<noteq> JNum (int (Suc (length (stored_chunks listening_protocol (originalMessageId (tx_chunks ! 0))))))
    \<and> totalChunks (tx_chunks ! 0)
        \<noteq> JNum (int (Suc (Suc (length (stored_chunks listening_protocol (originalMessageId (tx_chunks ! 0)))))))"
    by code_simp
  have e: "EIP_chunk_field (v2_chunk 0) ''originalMessageId'' = JStr ''c-7''"
    by code_simp
  have s: "stored_chunks (listening_transport :: EIPAudioProtocol) (JStr ''c-7'') = []"
    by code_simp
  have b: "\<not> nullish (get_prop (v2_chunk 0) ''payload'')
      \<and> primitive (EIP_chunk_field (v2_chunk 0) ''originalMessageId'')
      \<and> EIP_chunk_field (v2_chunk 0) ''totalChunks''
          \<noteq> JNum (int (Suc (length (stored_chunks (listening_transport :: EIPAudioProtocol)
                (EIP_chunk_field (v2_chunk 0) ''originalMessageId'')))))
      \<and> EIP_chunk_field (v2_chunk 0) ''totalChunks''
          \<noteq> JNum (int (Suc (Suc (length (stored_chunks (listening_transport :: EIPAudioProtocol)
                (EIP_chunk_field (v2_chunk 0) ''originalMessageId''))))))"
    by code_simp
  have s0: "stored_chunks listening_protocol (JStr ''m-1'') = []"
    by code_simp
  from duplicate_chunk_stored_twice [of "tx_chunks ! 0" listening_protocol "''f''"
      "v2_chunk 0" listening_transport, THEN conjunct1, THEN mp, OF a]
    duplicate_chunk_stored_twice [of "tx_chunks ! 0" listening_protocol "''f''"
      "v2_chunk 0" listening_transport, THEN conjunct2, THEN mp, OF b]
  show ?thesis by (simp add: k e s s0)
qed

section \<open>A message with a missing chunk\<close>

text \<open>
  Claim C3 says that a reassembly with distinct indices and a missing index below
  \<^verbatim>\<open>totalChunks\<close> never completes, and that it is purged, and reported as a timeout,
  once \<^verbatim>\<open>chunkReassemblyTimeout\<close> has elapsed.  Neither holds.

  The classes have no such setting and no timer that reads \<^verbatim>\<open>chunkStorage\<close>.  A wait
  is pending; the first and the third of the three chunks of the transaction request
  arrive; then the timeout of the wait runs and a playback ends.  The wait has resolved
  with \<^verbatim>\<open>null\<close>, the two chunks are still stored, and the only event is the end of the
  transmission.

  The reassembly completes when the number of chunks stored equals \<^verbatim>\<open>totalChunks\<close>,
  whatever their indices are.  Two chunks that declare two chunks in all and have the
  indices 0 and 7 (0 and 9 in the EIP transport) have distinct indices, and the index
  1 is missing; when they have arrived the message made of their data is emitted.
\<close>

theorem missing_index_kept_or_emitted:
  "stored_chunks (fst (receiver_run ''f'' (snd (waitForMessage ''tx_response'' None listening_protocol))
       [Arrives (tx_chunks ! 0), Arrives (tx_chunks ! 2), WaitTimeout 0, PlaybackEnds]))
     (JStr ''m-1'')
     = [tx_chunks ! 0, tx_chunks ! 2]
   \<and> resolved_with (waits (fst (receiver_run ''f''
         (snd (waitForMessage ''tx_response'' None listening_protocol))
         [Arrives (tx_chunks ! 0), Arrives (tx_chunks ! 2), WaitTimeout 0, PlaybackEnds]))) 0
     = [None]
   \<and> snd (receiver_run ''f'' (snd (waitForMessage ''tx_response'' None listening_protocol))
       [Arrives (tx_chunks ! 0), Arrives (tx_chunks ! 2), WaitTimeout 0, PlaybackEnds])
     = [Emit (TransmittingEvent False)]
   \<and> map chunkIndex stray_chunks = [JNum 0, JNum 7]
   \<and> map totalChunks stray_chunks = [JNum 2, JNum 2]
   \<and> map originalMessageId stray_chunks = [JStr ''r-1'', JStr ''r-1'']
   \<and> messages_emitted (snd (receiver_run ''f'' listening_protocol
         [Arrives (stray_chunks ! 0), Arrives (stray_chunks ! 1)]))
     = [connect_response_example]
   \<and> map (\<lambda>chunk. EIP_chunk_field chunk ''chunkIndex'') EIP_stray_chunks = [JNum 0, JNum 9]
   \<and> map (\<lambda>chunk. EIP_chunk_field chunk ''totalChunks'') EIP_stray_chunks = [JNum 2, JNum 2]
   \<and> map (\<lambda>chunk. EIP_chunk_field chunk ''originalMessageId'') EIP_stray_chunks
     = [JStr ''c-8'', JStr ''c-8'']
   \<and> messages_emitted (snd (EIP_receiver_run ''e'' listening_transport
         [Arrives (EIP_stray_chunks ! 0), Arrives (EIP_stray_chunks ! 1)]))
     = [connect_example]"
proof -
  have a: "stored_chunks (fst (receiver_run ''f''
             (snd (waitForMessage ''tx_response'' None listening_protocol))
             [Arrives (tx_chunks ! 0), Arrives (tx_chunks ! 2), WaitTimeout 0, PlaybackEnds]))
           (JStr ''m-1'')
           = [tx_chunks ! 0, tx_chunks ! 2]"
    by code_simp
  have b: "resolved_with (waits (fst (receiver_run ''f''
             (snd (waitForMessage ''tx_response'' None listening_protocol))
             [Arrives (tx_chunks ! 0), Arrives (tx_chunks ! 2), WaitTimeout 0, PlaybackEnds]))) 0
           = [None]"
    by code_simp
  have c: "snd (receiver_run ''f'' (snd (waitForMessage ''tx_response'' None listening_protocol))
             [Arrives (tx_chunks ! 0), Arrives (tx_chunks ! 2), WaitTimeout 0, PlaybackEnds])
           = [Emit (TransmittingEvent False)]"
    by code_simp
  have d: "map chunkIndex stray_chunks = [JNum 0, JNum 7]
           \<and> map totalChunks stray_chunks = [JNum 2, JNum 2]
           \<and> map originalMessageId stray_chunks = [JStr ''r-1'', JStr ''r-1'']"
    by (simp add: stray_chunks_def createChunk_fields)
  have e: "messages_emitted (snd (receiver_run ''f'' listening_protocol
             [Arrives (stray_chunks ! 0), Arrives (stray_chunks ! 1)]))
           = [connect_response_example]"
    by code_simp
  have f: "map (\<lambda>chunk. EIP_chunk_field chunk ''chunkIndex'') EIP_stray_chunks = [JNum 0, JNum 9]
           \<and> map (\<lambda>chunk. EIP_chunk_field chunk ''totalChunks'') EIP_stray_chunks = [JNum 2, JNum 2]
           \<and> map (\<lambda>chunk. EIP_chunk_field chunk ''originalMessageId'') EIP_stray_chunks
             = [JStr ''c-8'', JStr ''c-8'']"
    by (simp add: EIP_stray_chunks_def EIP_chunk_message_def EIP_chunk_field_def
        connect_example_def)
  have g: "messages_emitted (snd (EIP_receiver_run ''e'' listening_transport
             [Arrives (EIP_stray_chunks ! 0), Arrives (EIP_stray_chunks ! 1)]))
           = [connect_example]"
    by code_simp
  show ?thesis using a b c d e f g by simp
qed

text \<open>
  Claim C3, amended.  In both transports, when the chunks that arrive for an
  \<^verbatim>\<open>originalMessageId\<close> with no stored chunks all declare the same \<^verbatim>\<open>totalChunks\<close>
  and have distinct indices from 0 to \<^verbatim>\<open>totalChunks - 1\<close>, and one of these indices
  is missing, no message is emitted, and the chunks stay stored in the order of their
  arrival whatever timeouts run and playbacks end in between: the only effects are
  the events of the ends of playback.
\<close>

theorem incomplete_chunks_stay_stored:
  "(primitive key \<and> stored_chunks s key = [] \<and> list_all (chunk_of key n) (arrived inputs)
    \<and> distinct (map chunk_key (arrived inputs))
    \<and> i < n \<and> int i \<notin> set (map chunk_key (arrived inputs))
    \<longrightarrow> messages_emitted (snd (receiver_run uuid s inputs)) = []
        \<and> snd (receiver_run uuid s inputs) = playbacks inputs
        \<and> stored_chunks (fst (receiver_run uuid s inputs)) key = arrived inputs)
   \<and> (primitive key' \<and> stored_chunks t key' = [] \<and> list_all (EIP_chunk_of key' n') (arrived inputs')
      \<and> distinct (map EIP_chunk_key (arrived inputs'))
      \<and> i' < n' \<and> int i' \<notin> set (map EIP_chunk_key (arrived inputs'))
      \<longrightarrow> messages_emitted (snd (EIP_receiver_run new_id t inputs')) = []
          \<and> snd (EIP_receiver_run new_id t inputs') = playbacks inputs'
          \<and> stored_chunks (fst (EIP_receiver_run new_id t inputs')) key' = arrived inputs')"
proof (intro conjI impI)
  assume h: "primitive key \<and> stored_chunks s key = [] \<and> list_all (chunk_of key n) (arrived inputs)
    \<and> distinct (map chunk_key (arrived inputs))
    \<and> i < n \<and> int i \<notin> set (map chunk_key (arrived inputs))"
  have "\<forall>c\<in>set (arrived inputs). 0 \<le> chunk_key c \<and> chunk_key c < int n"
    using h by (simp add: list_all_iff chunk_of_def chunk_key_def)
  then have "length (arrived inputs) < n"
    using h fewer_than_all [of chunk_key "arrived inputs" n i] by blast
  then have r: "snd (receiver_run uuid s inputs) = playbacks inputs
      \<and> stored_chunks (fst (receiver_run uuid s inputs)) key = stored_chunks s key @ arrived inputs"
    using h by (intro receiver_run_incomplete) simp_all
  show "snd (receiver_run uuid s inputs) = playbacks inputs" using r by simp
  then show "messages_emitted (snd (receiver_run uuid s inputs)) = []"
    by (simp add: messages_emitted_playbacks)
  show "stored_chunks (fst (receiver_run uuid s inputs)) key = arrived inputs"
    using r h by simp
next
  assume h: "primitive key' \<and> stored_chunks t key' = []
      \<and> list_all (EIP_chunk_of key' n') (arrived inputs')
      \<and> distinct (map EIP_chunk_key (arrived inputs'))
      \<and> i' < n' \<and> int i' \<notin> set (map EIP_chunk_key (arrived inputs'))"
  have "\<forall>c\<in>set (arrived inputs'). 0 \<le> EIP_chunk_key c \<and> EIP_chunk_key c < int n'"
    using h by (simp add: list_all_iff EIP_chunk_of_def EIP_chunk_key_def)
  then have "length (arrived inputs') < n'"
    using h fewer_than_all [of EIP_chunk_key "arrived inputs'" n' i'] by blast
  then have r: "snd (EIP_receiver_run new_id t inputs') = playbacks inputs'
      \<and> stored_chunks (fst (EIP_receiver_run new_id t inputs')) key'
          = stored_chunks t key' @ arrived inputs'"
    using h by (intro EIP_receiver_run_incomplete) simp_all
  show "snd (EIP_receiver_run new_id t inputs') = playbacks inputs'" using r by simp
  then show "messages_emitted (snd (EIP_receiver_run new_id t inputs')) = []"
    by (simp add: messages_emitted_playbacks)
  show "stored_chunks (fst (EIP_receiver_run new_id t inputs')) key' = arrived inputs'"
    using r h by simp
qed

theorem incomplete_chunks_stay_stored_witness:
  "stored_chunks (fst (receiver_run ''f'' listening_protocol
       [Arrives (tx_chunks ! 0), WaitTimeout 0, Arrives (tx_chunks ! 2), PlaybackEnds]))
     (JStr ''m-1'')
     = [tx_chunks ! 0, tx_chunks ! 2]
   \<and> messages_emitted (snd (receiver_run ''f'' listening_protocol
       [Arrives (tx_chunks ! 0), WaitTimeout 0, Arrives (tx_chunks ! 2), PlaybackEnds])) = []
   \<and> stored_chunks (fst (EIP_receiver_run ''e'' listening_transport
       [Arrives (v2_chunk 0), PlaybackEnds, Arrives (v2_chunk 3), Arrives (v2_chunk 1)]))
     (JStr ''c-7'')
     = [v2_chunk 0, v2_chunk 3, v2_chunk 1]
   \<and> messages_emitted (snd (EIP_receiver_run ''e'' listening_transport
       [Arrives (v2_chunk 0), PlaybackEnds, Arrives (v2_chunk 3), Arrives (v2_chunk 1)])) = []"
proof -
  have a: "primitive (JStr ''m-1'') \<and> stored_chunks listening_protocol (JStr ''m-1'') = []
    \<and> list_all (chunk_of (JStr ''m-1'') 3)
        (arrived [Arrives (tx_chunks ! 0), WaitTimeout 0, Arrives (tx_chunks ! 2), PlaybackEnds])
    \<and> distinct (map chunk_key
        (arrived [Arrives (tx_chunks ! 0), WaitTimeout 0, Arrives (tx_chunks ! 2), PlaybackEnds]))
    \<and> 1 < (3::nat) \<and> int 1 \<notin> set (map chunk_key
        (arrived [Arrives (tx_chunks ! 0), WaitTimeout 0, Arrives (tx_chunks ! 2), PlaybackEnds]))"
    by code_simp
  have b: "primitive (JStr ''c-7'')
    \<and> stored_chunks (listening_transport :: EIPAudioProtocol) (JStr ''c-7'') = []
    \<and> list_all (EIP_chunk_of (JStr ''c-7'') 4)
        (arrived [Arrives (v2_chunk 0), PlaybackEnds, Arrives (v2_chunk 3), Arrives (v2_chunk 1)])
    \<and> distinct (map EIP_chunk_key
        (arrived [Arrives (v2_chunk 0), PlaybackEnds, Arrives (v2_chunk 3), Arrives (v2_chunk 1)]))
    \<and> 2 < (4::nat) \<and> int 2 \<notin> set (map EIP_chunk_key
        (arrived [Arrives (v2_chunk 0), PlaybackEnds, Arrives (v2_chunk 3), Arrives (v2_chunk 1)]))"
    by code_simp
  from incomplete_chunks_stay_stored [of "JStr ''m-1''" listening_protocol 3
      "[Arrives (tx_chunks ! 0), WaitTimeout 0, Arrives (tx_chunks ! 2), PlaybackEnds]" 1 "''f''"
      "JStr ''c-7''" listening_transport 4
      "[Arrives (v2_chunk 0), PlaybackEnds, Arrives (v2_chunk 3), Arrives (v2_chunk 1)]" 2 "''e''",
      THEN conjunct1, THEN mp, OF a]
    incomplete_chunks_stay_stored [of "JStr ''m-1''" listening_protocol 3
      "[Arrives (tx_chunks ! 0), WaitTimeout 0, Arrives (tx_chunks ! 2), PlaybackEnds]" 1 "''f''"
      "JStr ''c-7''" listening_transport 4
      "[Arrives (v2_chunk 0), PlaybackEnds, Arrives (v2_chunk 3), Arrives (v2_chunk 1)]" 2 "''e''",
      THEN conjunct2, THEN mp, OF b]
  show ?thesis by simp
qed

section \<open>Receiving while transmitting\<close>

lemma stored_chunks_isTransmitting:
  "stored_chunks (s\<lparr>isTransmitting := b\<rparr>) key = stored_chunks s key"
  by (simp add: stored_chunks_def)

lemma handleChunk_isTransmitting:
  "handleChunk uuid (s\<lparr>isTransmitting := b\<rparr>) c
     = (fst (handleChunk uuid s c)\<lparr>isTransmitting := b\<rparr>, snd (handleChunk uuid s c))"
  by (simp add: handleChunk_def Let_def stored_chunks_isTransmitting emit_message_def
      split: sum.splits option.splits)

lemma handleReceivedMessage_isTransmitting:
  "handleReceivedMessage uuid (s\<lparr>isTransmitting := b\<rparr>) m
     = (fst (handleReceivedMessage uuid s m)\<lparr>isTransmitting := b\<rparr>,
        snd (handleReceivedMessage uuid s m))"
  by (simp add: handleReceivedMessage_def handleChunk_isTransmitting emit_message_def)

lemma audio_frame_isTransmitting:
  "audio_frame uuids (s\<lparr>isTransmitting := b\<rparr>) decoded
     = (fst (audio_frame uuids s decoded)\<lparr>isTransmitting := b\<rparr>, snd (audio_frame uuids s decoded))"
  by (simp add: audio_frame_def onaudioprocess_def handleReceivedMessage_isTransmitting
      split: option.splits sum.splits)

lemma EIP_handleChunk_isTransmitting:
  "EIP_handleChunk (s\<lparr>isTransmitting := b\<rparr>) c
     = (fst (EIP_handleChunk s c)\<lparr>isTransmitting := b\<rparr>, snd (EIP_handleChunk s c))"
  by (simp add: EIP_handleChunk_def Let_def stored_chunks_isTransmitting EIP_emit_message_def
      split: sum.splits)

lemma handleEIPMessage_isTransmitting:
  "handleEIPMessage new_id (s\<lparr>isTransmitting := b\<rparr>) m
     = (fst (handleEIPMessage new_id s m)\<lparr>isTransmitting := b\<rparr>, snd (handleEIPMessage new_id s m))"
  by (simp add: handleEIPMessage_def EIP_handleChunk_isTransmitting EIP_emit_message_def)

lemma EIP_audio_frame_isTransmitting:
  "EIP_audio_frame new_id (s\<lparr>isTransmitting := b\<rparr>) decoded
     = (fst (EIP_audio_frame new_id s decoded)\<lparr>isTransmitting := b\<rparr>,
        snd (EIP_audio_frame new_id s decoded))"
  by (simp add: EIP_audio_frame_def EIP_onaudioprocess_def handleEIPMessage_isTransmitting
      split: option.splits sum.splits)

text \<open>
  Claim C5 says that nothing received is delivered while \<^verbatim>\<open>isTransmitting\<close> is true.
  The callback that receives never reads the flag.  An \<^verbatim>\<open>AudioProtocol\<close> is listening
  and waits for a connect response; it starts the playback of the transaction
  request, so \<^verbatim>\<open>isTransmitting\<close> is true; the audio frame that carries a connect
  response then emits the message event and resolves the wait.
\<close>

theorem delivered_while_transmitting:
  "isTransmitting (fst (sendSingleMessage Plays
       (snd (waitForMessage ''connect_response'' None listening_protocol)) tx_request_example))
   \<and> messages_emitted (snd (audio_frame (\<lambda>i. ''u'')
         (fst (sendSingleMessage Plays
            (snd (waitForMessage ''connect_response'' None listening_protocol)) tx_request_example))
         (Some (toJSON connect_response_example))))
       = [connect_response_example]
   \<and> resolved_with (waits (fst (audio_frame (\<lambda>i. ''u'')
         (fst (sendSingleMessage Plays
            (snd (waitForMessage ''connect_response'' None listening_protocol)) tx_request_example))
         (Some (toJSON connect_response_example))))) 0
       = [Some connect_response_example]"
proof -
  have a: "isTransmitting (fst (sendSingleMessage Plays
       (snd (waitForMessage ''connect_response'' None listening_protocol)) tx_request_example))"
    by code_simp
  have b: "messages_emitted (snd (audio_frame (\<lambda>i. ''u'')
         (fst (sendSingleMessage Plays
            (snd (waitForMessage ''connect_response'' None listening_protocol)) tx_request_example))
         (Some (toJSON connect_response_example))))
       = [connect_response_example]"
    by code_simp
  have c: "resolved_with (waits (fst (audio_frame (\<lambda>i. ''u'')
         (fst (sendSingleMessage Plays
            (snd (waitForMessage ''connect_response'' None listening_protocol)) tx_request_example))
         (Some (toJSON connect_response_example))))) 0
       = [Some connect_response_example]"
    by code_simp
  show ?thesis using a b c by simp
qed

text \<open>
  Claim C5, amended.  In both transports what an audio frame does is the same
  whatever \<^verbatim>\<open>isTransmitting\<close> is: the same effects, and the same new state up to the
  flag itself.  Nothing is received only while the script processor node is absent,
  that is, while the transport is not listening.
\<close>

theorem receiving_ignores_isTransmitting:
  "audio_frame uuids (s\<lparr>isTransmitting := b\<rparr>) decoded
     = (fst (audio_frame uuids s decoded)\<lparr>isTransmitting := b\<rparr>, snd (audio_frame uuids s decoded))
   \<and> EIP_audio_frame new_id (t\<lparr>isTransmitting := b\<rparr>) decoded
     = (fst (EIP_audio_frame new_id t decoded)\<lparr>isTransmitting := b\<rparr>,
        snd (EIP_audio_frame new_id t decoded))
   \<and> (\<not> processor s \<longrightarrow> audio_frame uuids s decoded = (s, []))
   \<and> (\<not> processor t \<longrightarrow> EIP_audio_frame new_id t decoded = (t, []))"
proof (intro conjI)
  show "audio_frame uuids (s\<lparr>isTransmitting := b\<rparr>) decoded
     = (fst (audio_frame uuids s decoded)\<lparr>isTransmitting := b\<rparr>, snd (audio_frame uuids s decoded))"
    by (rule audio_frame_isTransmitting)
  show "EIP_audio_frame new_id (t\<lparr>isTransmitting := b\<rparr>) decoded
     = (fst (EIP_audio_frame new_id t decoded)\<lparr>isTransmitting := b\<rparr>,
        snd (EIP_audio_frame new_id t decoded))"
    by (rule EIP_audio_frame_isTransmitting)
  show "\<not> processor s \<longrightarrow> audio_frame uuids s decoded = (s, [])"
    by (simp add: audio_frame_def)
  show "\<not> processor t \<longrightarrow> EIP_audio_frame new_id t decoded = (t, [])"
    by (simp add: EIP_audio_frame_def)
qed

theorem receiving_ignores_isTransmitting_witness:
  "audio_frame (\<lambda>i. ''u'') (fst (stopListening listening_protocol))
       (Some (toJSON connect_response_example))
     = (fst (stopListening listening_protocol), [])
   \<and> EIP_audio_frame ''e'' (fst (stopListening listening_transport))
       (Some (JSON_stringify connect_v2_example))
     = (fst (stopListening listening_transport), [])"
proof -
  have a: "\<not> processor (fst (stopListening listening_protocol))"
    by (simp add: stopListening_def listening_protocol_def)
  have b: "\<not> processor (fst (stopListening (listening_transport :: EIPAudioProtocol)))"
    by (simp add: stopListening_def listening_transport_def)
  from receiving_ignores_isTransmitting [where uuids = "\<lambda>i. ''u''"
        and s = "fst (stopListening listening_protocol)"
        and decoded = "Some (toJSON connect_response_example)",
      THEN conjunct2, THEN conjunct2, THEN conjunct1, THEN mp, OF a]
    receiving_ignores_isTransmitting [where new_id = "''e''"
        and t = "fst (stopListening listening_transport)"
        and decoded = "Some (JSON_stringify connect_v2_example)",
      THEN conjunct2, THEN conjunct2, THEN conjunct2, THEN mp, OF b]
  show ?thesis by simp
qed

section \<open>The chunking threshold\<close>

lemma played_append: "played (xs @ ys) = played xs @ played ys"
  by (induction xs rule: played.induct) simp_all

lemma played_not_caught: "played (filter (\<lambda>x. \<not> caught x) xs) = played xs"
  by (induction xs rule: played.induct) simp_all

lemma initialize_available:
  "available \<Longrightarrow> initialize available s = (if ggwave_ready s then s else s\<lparr>ggwave_ready := True\<rparr>, [], True)"
  by (simp add: initialize_def)

lemma startListening_played: "played (fst (snd (startListening available granted s))) = []"
  by (simp add: startListening_def initialize_def played_append)

lemma stopListening_played: "played (snd (stopListening s)) = []"
  by (simp add: stopListening_def)

lemma send_chunks_played:
  "\<forall>k. playable k = Plays \<Longrightarrow>
     played (fst (snd (send_chunks playable k s chunks))) = map toJSON chunks
     \<and> snd (snd (send_chunks playable k s chunks))"
  by (induction chunks arbitrary: k s)
     (simp_all add: sendSingleMessage_def case_prod_beta played_append)

lemma EIP_send_chunks_played:
  "\<forall>k. playable k = Plays \<Longrightarrow>
     played (fst (snd (EIP_send_chunks playable new_ids message n i s chunks)))
       = map (\<lambda>p. JSON_stringify (EIP_chunk_message message (fst p) n (snd p) (new_ids (fst p))))
           (enumerate i chunks)
     \<and> snd (snd (EIP_send_chunks playable new_ids message n i s chunks))"
  by (induction chunks arbitrary: i s)
     (simp_all add: sendSingleEIPMessage_def EIP_transmit_begin_def playback_ended_def
        case_prod_beta played_append)

lemma sendMessage_single:
  assumes "available" and "playable 0 = Plays"
    and "\<not> shouldChunkMessage (length (toJSON m)) (config s)"
  shows "transmitted (sendMessage available playable uuids s m) = Some ([toJSON m], True)"
  using assms
  by (simp add: transmitted_def sendMessage_def initialize_available sendSingleMessage_def
      del: map_option_eq_Some)

lemma sendMessage_chunked:
  assumes "available" and "\<forall>k. playable k = Plays"
    and "shouldChunkMessage (length (toJSON m)) (config s)"
    and "0 < chunkSize (chunking (config s))"
  shows "\<exists>chunks. chunkMessage m (chunkSize (chunking (config s))) uuids = Some chunks
           \<and> transmitted (sendMessage available playable uuids s m) = Some (map toJSON chunks, True)"
proof -
  obtain slices where "chunk_loop (toJSON m) (chunkSize (chunking (config s))) 0 [] = Some slices"
    using chunk_loop_total [OF assms(4), of "toJSON m" 0 "[]"] by auto
  then have c: "chunkMessage m (chunkSize (chunking (config s))) uuids
                = Some (chunk_messages m uuids slices)"
    by (rule chunkMessage_chunk_messages)
  have "transmitted (sendMessage available playable uuids s m)
        = Some (map toJSON (chunk_messages m uuids slices), True)"
    using assms(1,3) c send_chunks_played [OF assms(2)]
    by (simp add: transmitted_def sendMessage_def initialize_available sendChunkedMessage_def
        case_prod_beta del: map_option_eq_Some)
  then show ?thesis using c by blast
qed

lemma sendEIPMessage_single:
  assumes "available" and "playable 0 = Plays" and "message \<noteq> JUndefined"
    and "length (JSON_stringify message) \<le> EIP_CHUNK_THRESHOLD"
  shows "transmitted (sendEIPMessage available granted playable new_ids t message)
         = Some ([JSON_stringify message], True)"
  using assms
  by (simp add: transmitted_def sendEIPMessage_def initialize_available sendSingleEIPMessage_def
      EIP_transmit_begin_def playback_ended_def del: map_option_eq_Some)

lemma sendEIPMessage_chunked:
  assumes "available" and "\<forall>k. playable k = Plays" and "message \<noteq> JUndefined"
    and "EIP_CHUNK_THRESHOLD < length (JSON_stringify message)"
  shows "\<exists>slices. chunk_loop (JSON_stringify message) EIP_CHUNK_SIZE 0 [] = Some slices
           \<and> transmitted (sendEIPMessage available granted playable new_ids t message)
               = Some (map JSON_stringify (EIP_chunk_messages message new_ids slices), True)"
proof -
  have "0 < EIP_CHUNK_SIZE" by (simp add: EIP_CHUNK_SIZE_def)
  then obtain slices where l: "chunk_loop (JSON_stringify message) EIP_CHUNK_SIZE 0 [] = Some slices"
    using chunk_loop_total [of EIP_CHUNK_SIZE "JSON_stringify message" 0 "[]"] by auto
  have "transmitted (sendEIPMessage available granted playable new_ids t message)
        = Some (map JSON_stringify (EIP_chunk_messages message new_ids slices), True)"
    using assms(1,3,4) l EIP_send_chunks_played [OF assms(2)]
    by (simp add: transmitted_def sendEIPMessage_def initialize_available
        sendChunkedEIPMessage_def case_prod_beta played_append startListening_played
        stopListening_played played_not_caught EIP_chunk_messages_def comp_def
        del: map_option_eq_Some)
  then show ?thesis using l by blast
qed

text \<open>
  Claim C8 says that the threshold of chunking is smaller than the chunk size.  In the
  code it is larger everywhere: 120 against 80 in \<^verbatim>\<open>EIPAudioProtocol\<close>, 8192 against 2048
  and 4096 against 1024 in the two configurations of \<^verbatim>\<open>AudioProtocol\<close>.
\<close>

theorem threshold_not_below_chunk_size:
  "EIP_CHUNK_SIZE < EIP_CHUNK_THRESHOLD
   \<and> chunkSize (chunking DEFAULT_AUDIO_CONFIG) < maxMessageSize (chunking DEFAULT_AUDIO_CONFIG)
   \<and> chunkSize (chunking EIP_AUDIO_CONFIG) < maxMessageSize (chunking EIP_AUDIO_CONFIG)"
  by (simp add: EIP_CHUNK_SIZE_def EIP_CHUNK_THRESHOLD_def DEFAULT_AUDIO_CONFIG_def
      EIP_AUDIO_CONFIG_def)

text \<open>
  Claim C8, amended.  With the codec available and every playback starting:
  \<^verbatim>\<open>AudioProtocol.sendMessage\<close> plays the text of the message, as one transmission,
  when chunking is disabled or the length of the text is at most \<^verbatim>\<open>maxMessageSize\<close>;
  when chunking is enabled, the length exceeds \<^verbatim>\<open>maxMessageSize\<close> and \<^verbatim>\<open>chunkSize\<close> is
  positive, it plays the texts of the chunks of \<^verbatim>\<open>chunkMessage\<close>, in order.
  \<^verbatim>\<open>EIPAudioProtocol.sendEIPMessage\<close> plays the text of the message when its length is
  at most 120, and the texts of the chunk messages of its slices of 80 characters when
  it is longer.  Both return \<^verbatim>\<open>true\<close>.
\<close>

theorem send_chunks_above_threshold:
  "(available \<and> playable 0 = Plays
    \<and> (\<not> enabled (chunking (config s))
        \<or> length (toJSON m) \<le> maxMessageSize (chunking (config s)))
    \<longrightarrow> transmitted (sendMessage available playable uuids s m) = Some ([toJSON m], True))
   \<and> (available \<and> (\<forall>k. playable k = Plays)
      \<and> enabled (chunking (config s)) \<and> maxMessageSize (chunking (config s)) < length (toJSON m)
      \<and> 0 < chunkSize (chunking (config s))
      \<longrightarrow> (\<exists>chunks. chunkMessage m (chunkSize (chunking (config s))) uuids = Some chunks
              \<and> transmitted (sendMessage available playable uuids s m)
                  = Some (map toJSON chunks, True)))
   \<and> (available \<and> playable 0 = Plays \<and> message \<noteq> JUndefined
      \<and> length (JSON_stringify message) \<le> EIP_CHUNK_THRESHOLD
      \<longrightarrow> transmitted (sendEIPMessage available granted playable new_ids t message)
            = Some ([JSON_stringify message], True))
   \<and> (available \<and> (\<forall>k. playable k = Plays) \<and> message \<noteq> JUndefined
      \<and> EIP_CHUNK_THRESHOLD < length (JSON_stringify message)
      \<longrightarrow> (\<exists>slices. chunk_loop (JSON_stringify message) EIP_CHUNK_SIZE 0 [] = Some slices
              \<and> transmitted (sendEIPMessage available granted playable new_ids t message)
                  = Some (map JSON_stringify (EIP_chunk_messages message new_ids slices), True)))"
proof (intro conjI impI)
  assume "available \<and> playable 0 = Plays
    \<and> (\<not> enabled (chunking (config s))
        \<or> length (toJSON m) \<le> maxMessageSize (chunking (config s)))"
  then show "transmitted (sendMessage available playable uuids s m) = Some ([toJSON m], True)"
    by (intro sendMessage_single) (auto simp: shouldChunkMessage_def)
next
  assume "available \<and> (\<forall>k. playable k = Plays)
      \<and> enabled (chunking (config s)) \<and> maxMessageSize (chunking (config s)) < length (toJSON m)
      \<and> 0 < chunkSize (chunking (config s))"
  then show "\<exists>chunks. chunkMessage m (chunkSize (chunking (config s))) uuids = Some chunks
              \<and> transmitted (sendMessage available playable uuids s m)
                  = Some (map toJSON chunks, True)"
    by (intro sendMessage_chunked) (simp_all add: shouldChunkMessage_def)
next
  assume "available \<and> playable 0 = Plays \<and> message \<noteq> JUndefined
      \<and> length (JSON_stringify message) \<le> EIP_CHUNK_THRESHOLD"
  then show "transmitted (sendEIPMessage available granted playable new_ids t message)
            = Some ([JSON_stringify message], True)"
    by (intro sendEIPMessage_single) simp_all
next
  assume "available \<and> (\<forall>k. playable k = Plays) \<and> message \<noteq> JUndefined
      \<and> EIP_CHUNK_THRESHOLD < length (JSON_stringify message)"
  then show "\<exists>slices. chunk_loop (JSON_stringify message) EIP_CHUNK_SIZE 0 [] = Some slices
              \<and> transmitted (sendEIPMessage available granted playable new_ids t message)
                  = Some (map JSON_stringify (EIP_chunk_messages message new_ids slices), True)"
    by (intro sendEIPMessage_chunked) simp_all
qed

theorem send_chunks_above_threshold_witness:
  "transmitted (sendMessage True (\<lambda>k. Plays) (\<lambda>i. ''u'') listening_protocol connect_response_example)
     = Some ([toJSON connect_response_example], True)
   \<and> transmitted (sendMessage True (\<lambda>k. Plays) (\<lambda>i. ''u'') listening_protocol tx_request_example)
     = Some (map toJSON tx_chunks, True)
   \<and> transmitted (sendEIPMessage True True (\<lambda>k. Plays) (\<lambda>i. ''n'') listening_transport
         connect_v2_example)
     = Some ([JSON_stringify connect_v2_example], True)
   \<and> map_option (\<lambda>r. (length (fst r), snd r))
       (transmitted (sendEIPMessage True True (\<lambda>k. Plays) (\<lambda>i. ''n'') listening_transport
          (v2_chunk 0)))
     = Some (2, True)"
proof -
  have cfg: "config listening_protocol = narrow_config"
    by (simp add: listening_protocol_def)
  have l1: "length (toJSON connect_response_example) = 104" by code_simp
  have l2: "length (toJSON tx_request_example) = 205" by code_simp
  have l3: "length (JSON_stringify connect_v2_example) = 58" by code_simp
  have l4: "length (JSON_stringify (v2_chunk 0)) = 134" by code_simp
  have l5: "map_option length (chunk_loop (JSON_stringify (v2_chunk 0)) EIP_CHUNK_SIZE 0 []) = Some 2"
    by code_simp
  have a1: "True \<and> Plays = Plays
    \<and> (\<not> enabled (chunking (config listening_protocol))
        \<or> length (toJSON connect_response_example) \<le> maxMessageSize (chunking (config listening_protocol)))"
    by (simp add: cfg narrow_config_def l1)
  have a2: "True \<and> (\<forall>k::nat. Plays = Plays)
      \<and> enabled (chunking (config listening_protocol))
      \<and> maxMessageSize (chunking (config listening_protocol)) < length (toJSON tx_request_example)
      \<and> 0 < chunkSize (chunking (config listening_protocol))"
    by (simp add: cfg narrow_config_def l2)
  have n3: "connect_v2_example \<noteq> JUndefined" by (simp add: connect_v2_example_def)
  have n4: "v2_chunk 0 \<noteq> JUndefined" by (simp add: v2_chunk_def)
  have b1: "True \<and> Plays = Plays \<and> connect_v2_example \<noteq> JUndefined
      \<and> length (JSON_stringify connect_v2_example) \<le> EIP_CHUNK_THRESHOLD"
    by (simp add: l3 n3 EIP_CHUNK_THRESHOLD_def)
  have b2: "True \<and> (\<forall>k::nat. Plays = Plays) \<and> v2_chunk 0 \<noteq> JUndefined
      \<and> EIP_CHUNK_THRESHOLD < length (JSON_stringify (v2_chunk 0))"
    by (simp add: l4 n4 EIP_CHUNK_THRESHOLD_def)
  note T = send_chunks_above_threshold [where available = True and playable = "\<lambda>k. Plays"
      and uuids = "\<lambda>i. ''u''" and s = listening_protocol and granted = True
      and new_ids = "\<lambda>i. ''n''" and t = listening_transport]
  have r1: "transmitted (sendMessage True (\<lambda>k. Plays) (\<lambda>i. ''u'') listening_protocol
              connect_response_example)
            = Some ([toJSON connect_response_example], True)"
    using T [where m = connect_response_example, THEN conjunct1, THEN mp, OF a1] .
  obtain chunks where
    c: "chunkMessage tx_request_example (chunkSize (chunking (config listening_protocol)))
          (\<lambda>i. ''u'') = Some chunks"
    and t: "transmitted (sendMessage True (\<lambda>k. Plays) (\<lambda>i. ''u'') listening_protocol
              tx_request_example)
            = Some (map toJSON chunks, True)"
    using T [where m = tx_request_example, THEN conjunct2, THEN conjunct1, THEN mp, OF a2]
    by blast
  have "tx_chunks = chunks"
    using c by (simp add: tx_chunks_def cfg narrow_config_def)
  then have r2: "transmitted (sendMessage True (\<lambda>k. Plays) (\<lambda>i. ''u'') listening_protocol
              tx_request_example)
            = Some (map toJSON tx_chunks, True)"
    using t by simp
  have r3: "transmitted (sendEIPMessage True True (\<lambda>k. Plays) (\<lambda>i. ''n'') listening_transport
              connect_v2_example)
            = Some ([JSON_stringify connect_v2_example], True)"
    using T [where message = connect_v2_example, THEN conjunct2, THEN conjunct2, THEN conjunct1,
        THEN mp, OF b1] .
  obtain slices where
    s: "chunk_loop (JSON_stringify (v2_chunk 0)) EIP_CHUNK_SIZE 0 [] = Some slices"
    and u: "transmitted (sendEIPMessage True True (\<lambda>k. Plays) (\<lambda>i. ''n'') listening_transport
              (v2_chunk 0))
            = Some (map JSON_stringify (EIP_chunk_messages (v2_chunk 0) (\<lambda>i. ''n'') slices), True)"
    using T [where message = "v2_chunk 0", THEN conjunct2, THEN conjunct2, THEN conjunct2,
        THEN mp, OF b2]
    by blast
  have "length slices = 2" using l5 s by simp
  then have r4: "map_option (\<lambda>r. (length (fst r), snd r))
       (transmitted (sendEIPMessage True True (\<lambda>k. Plays) (\<lambda>i. ''n'') listening_transport
          (v2_chunk 0)))
     = Some (2, True)"
    using u by (simp add: EIP_chunk_messages_def)
  show ?thesis using r1 r2 r3 r4 by simp
qed

end
